(* ===== verification/Prelude.thy ===== *)
theory Prelude
  imports Main
    "HOL-Library.Word"
    "HOL-Library.Signed_Division"
    "HOL-Library.Sublist"
    "HOL-Library.Char_ord"
    "HOL-Library.List_Lexorder"
begin

text \<open>
  The part of the Go language and of its standard library that the components share:
  error values, panics, int64 arithmetic, strings as byte lists and the functions of
  package strings the source calls, and maps read with a zero value. The facts on
  splitting strings are collected in \<open>go_split\<close>, the other rewriting rules are simp rules.
\<close>

named_theorems go_split \<open>facts on strings.Split and strings.Join\<close>

section \<open>Values, errors and panics\<close>

text \<open>
  A Go error is used here through its text only (Error()), so an error value is that text.
  A result pair \<open>(v, err)\<close> is a product with \<open>None\<close> for the nil error. A panic is the left
  side of a sum.
\<close>

datatype go_error = GoError (error_text: string)

type_synonym 'a go_result = "'a \<times> go_error option"

datatype go_panic = NilDereference | DivideByZero | IndexOutOfRange | DuplicateRegistration | TypeAssertion

type_synonym 'a can_panic = "go_panic + 'a"

definition bind_panic :: "'a can_panic \<Rightarrow> ('a \<Rightarrow> 'b can_panic) \<Rightarrow> 'b can_panic" where
  "bind_panic m f = (case m of Inl p \<Rightarrow> Inl p | Inr x \<Rightarrow> f x)"

lemma bind_panic_simps [simp]:
  "bind_panic (Inl p) f = Inl p"
  "bind_panic (Inr x) f = f x"
  by (simp_all add: bind_panic_def)

lemma bind_panic_Inr_iff:
  "bind_panic m f = Inr y \<longleftrightarrow> (\<exists>x. m = Inr x \<and> f x = Inr y)"
  by (cases m) simp_all

definition deref :: "'a option \<Rightarrow> 'a can_panic" where
  "deref p = (case p of None \<Rightarrow> Inl NilDereference | Some x \<Rightarrow> Inr x)"

lemma deref_simps [simp]:
  "deref None = Inl NilDereference"
  "deref (Some x) = Inr x"
  by (simp_all add: deref_def)

lemma deref_Inr_iff [simp]: "deref p = Inr x \<longleftrightarrow> p = Some x"
  by (cases p) simp_all

section \<open>Fixed-width integers\<close>

text \<open>
  int64 is a 64-bit word read with \<open>sint\<close>; addition and multiplication wrap. Division
  truncates towards zero and panics on a zero divisor.
\<close>

type_synonym int64 = "64 word"

definition int64_div :: "int64 \<Rightarrow> int64 \<Rightarrow> int64 can_panic" where
  "int64_div a b = (if b = 0 then Inl DivideByZero else Inr (word_of_int (sint a sdiv sint b)))"

lemma sint_word_of_int_64:
  assumes "- (2 ^ 63) \<le> x" and "x < 2 ^ 63"
  shows "sint (word_of_int x :: int64) = x"
  using assms by (simp add: signed_of_int signed_take_bit_int_eq_self)

lemma sint_int64_bounds: "- (2 ^ 63) \<le> sint (w :: int64)" "sint (w :: int64) < 2 ^ 63"
  using sint_greater_eq [of w] sint_less [of w] by simp_all

lemma sint_add_64:
  assumes "- (2 ^ 63) \<le> sint a + sint b" and "sint a + sint b < 2 ^ 63"
  shows "sint (a + b :: int64) = sint a + sint b"
proof -
  have "a + b = word_of_int (sint a + sint b)" by simp
  then show ?thesis using sint_word_of_int_64 [OF assms] by (simp only:)
qed

lemma sint_mult_64:
  assumes "- (2 ^ 63) \<le> sint a * sint b" and "sint a * sint b < 2 ^ 63"
  shows "sint (a * b :: int64) = sint a * sint b"
proof -
  have "a * b = word_of_int (sint a * sint b)" by simp
  then show ?thesis using sint_word_of_int_64 [OF assms] by (simp only:)
qed

section \<open>Strings\<close>

text \<open>
  A Go string is a sequence of bytes, and \<open>char\<close> is a byte. The separators and the
  characters the source passes to package strings are single ASCII bytes, so Split and
  Replace take a byte.
\<close>

fun strings_Split :: "string \<Rightarrow> char \<Rightarrow> string list" where
  "strings_Split [] c = [[]]"
| "strings_Split (x # xs) c =
     (if x = c then [] # strings_Split xs c
      else (case strings_Split xs c of [] \<Rightarrow> [[x]] | p # ps \<Rightarrow> (x # p) # ps))"

fun strings_Join :: "string list \<Rightarrow> char \<Rightarrow> string" where
  "strings_Join [] c = []"
| "strings_Join [p] c = p"
| "strings_Join (p # q # ps) c = p @ c # strings_Join (q # ps) c"

definition strings_ReplaceAll :: "string \<Rightarrow> char \<Rightarrow> string \<Rightarrow> string" where
  "strings_ReplaceAll s c new = concat (map (\<lambda>x. if x = c then new else [x]) s)"

fun strings_Contains :: "string \<Rightarrow> string \<Rightarrow> bool" where
  "strings_Contains [] sub = (sub = [])"
| "strings_Contains (x # xs) sub = (prefix sub (x # xs) \<or> strings_Contains xs sub)"

lemma strings_Split_not_Nil [simp]: "strings_Split s c \<noteq> []"
  by (induction s) (auto split: list.splits)

lemma strings_Split_length [go_split]: "length (strings_Split s c) = Suc (count_list s c)"
  by (induction s) (auto split: list.splits)

lemma strings_Join_Split [simp, go_split]: "strings_Join (strings_Split s c) c = s"
proof (induction s)
  case (Cons x xs)
  obtain p ps where ps: "strings_Split xs c = p # ps"
    by (cases "strings_Split xs c") auto
  with Cons show ?case by (cases ps) auto
qed simp

lemma strings_Split_no_sep [go_split]: "p \<in> set (strings_Split s c) \<Longrightarrow> c \<notin> set p"
  by (induction s arbitrary: p) (auto split: list.splits if_splits)

lemma strings_Split_self [simp, go_split]: "c \<notin> set s \<Longrightarrow> strings_Split s c = [s]"
  by (induction s) auto

lemma strings_Split_append [go_split]:
  "c \<notin> set p \<Longrightarrow> strings_Split (p @ c # s) c = p # strings_Split s c"
  by (induction p) auto

lemma strings_Split_Join [go_split]:
  "ps \<noteq> [] \<Longrightarrow> (\<And>p. p \<in> set ps \<Longrightarrow> c \<notin> set p) \<Longrightarrow> strings_Split (strings_Join ps c) c = ps"
  by (induction ps c rule: strings_Join.induct) (auto simp: strings_Split_append)

lemma strings_Contains_sublist: "strings_Contains s sub \<longleftrightarrow> sublist sub s"
  by (induction s) (auto simp: sublist_Cons_right)

lemma strings_ReplaceAll_remove: "strings_ReplaceAll s c [] = filter (\<lambda>x. x \<noteq> c) s"
  by (induction s) (auto simp: strings_ReplaceAll_def)

subsection \<open>TrimSpace\<close>

text \<open>
  TrimSpace drops the leading and trailing white space of the Unicode property White_Space.
  The list holds the UTF-8 encoding of each such code point, so that dropping one is
  dropping a prefix (or a suffix) of bytes.
\<close>

definition byte :: "nat \<Rightarrow> char" where
  "byte n = char_of n"

definition unicode_spaces :: "string list" where
  "unicode_spaces =
     map (\<lambda>n. [byte n]) [9, 10, 11, 12, 13, 32]
     @ [[byte 0xC2, byte 0x85], [byte 0xC2, byte 0xA0], [byte 0xE1, byte 0x9A, byte 0x80]]
     @ map (\<lambda>n. [byte 0xE2, byte 0x80, byte n])
         [0x80, 0x81, 0x82, 0x83, 0x84, 0x85, 0x86, 0x87, 0x88, 0x89, 0x8A, 0xA8, 0xA9, 0xAF]
     @ [[byte 0xE2, byte 0x81, byte 0x9F], [byte 0xE3, byte 0x80, byte 0x80]]"

definition strip_first :: "string list \<Rightarrow> string \<Rightarrow> string option" where
  "strip_first ws s = map_option (\<lambda>w. drop (length w) s) (find (\<lambda>w. prefix w s) ws)"

function trim_front :: "string list \<Rightarrow> string \<Rightarrow> string" where
  "trim_front ws s =
     (case strip_first ws s of None \<Rightarrow> s
      | Some t \<Rightarrow> if length t < length s then trim_front ws t else s)"
  by pat_completeness auto
termination
  by (relation "measure (\<lambda>(ws, s). length s)") auto

declare trim_front.simps [simp del]

definition strings_TrimSpace :: "string \<Rightarrow> string" where
  "strings_TrimSpace s =
     rev (trim_front (map rev unicode_spaces) (rev (trim_front unicode_spaces s)))"

lemma trim_front_suffix: "suffix (trim_front ws s) s"
proof (induction ws s rule: trim_front.induct)
  case (1 ws s)
  show ?case
  proof (cases "strip_first ws s")
    case None
    then show ?thesis by (subst trim_front.simps) simp
  next
    case (Some t)
    then have t: "suffix t s" by (auto simp: strip_first_def suffix_drop)
    show ?thesis
    proof (cases "length t < length s")
      case True
      with 1 [OF Some] t Some show ?thesis
        by (subst trim_front.simps) (auto intro: suffix_order.trans)
    next
      case False
      with Some show ?thesis by (subst trim_front.simps) simp
    qed
  qed
qed

lemma trim_front_Nil [simp]: "trim_front ws [] = []"
  using trim_front_suffix [of ws "[]"] by simp

lemma strings_TrimSpace_sublist: "sublist (strings_TrimSpace s) s"
proof -
  let ?t = "trim_front unicode_spaces s"
  have "suffix (trim_front (map rev unicode_spaces) (rev ?t)) (rev ?t)"
    by (rule trim_front_suffix)
  then have "prefix (strings_TrimSpace s) ?t"
    by (simp add: strings_TrimSpace_def suffix_to_prefix)
  moreover have "suffix ?t s" by (rule trim_front_suffix)
  ultimately show ?thesis
    by (meson prefix_imp_sublist sublist_order.order.trans suffix_imp_sublist)
qed

subsection \<open>Case mapping\<close>

text \<open>
  ToUpper and ToLower on an ASCII string map its letters. A string with a byte of 128 or
  more takes the Unicode tables, which are the parameter \<open>uni\<close>.
\<close>

definition is_ascii :: "string \<Rightarrow> bool" where
  "is_ascii s \<longleftrightarrow> list_all (\<lambda>c. (of_char c :: nat) < 128) s"

definition upper_byte :: "char \<Rightarrow> char" where
  "upper_byte c = (let n = of_char c :: nat in if 97 \<le> n \<and> n \<le> 122 then char_of (n - 32) else c)"

definition lower_byte :: "char \<Rightarrow> char" where
  "lower_byte c = (let n = of_char c :: nat in if 65 \<le> n \<and> n \<le> 90 then char_of (n + 32) else c)"

definition strings_ToUpper :: "(string \<Rightarrow> string) \<Rightarrow> string \<Rightarrow> string" where
  "strings_ToUpper uni s = (if is_ascii s then map upper_byte s else uni s)"

definition strings_ToLower :: "(string \<Rightarrow> string) \<Rightarrow> string \<Rightarrow> string" where
  "strings_ToLower uni s = (if is_ascii s then map lower_byte s else uni s)"

section \<open>Maps with string keys\<close>

text \<open>
  A Go map is an association list whose keys are distinct (\<open>go_map_ok\<close>); the nil map reads
  like the empty one. \<open>m[k]\<close> of a missing key is the zero value of the element type, and
  printing a map with \<open>%v\<close> lists its entries in the order of their keys.
\<close>

type_synonym 'v go_map = "(string \<times> 'v) list"

definition go_map_ok :: "'v go_map \<Rightarrow> bool" where
  "go_map_ok m \<longleftrightarrow> distinct (map fst m)"

definition map_read :: "'v \<Rightarrow> 'v go_map \<Rightarrow> string \<Rightarrow> 'v" where
  "map_read zero m k = (case map_of m k of None \<Rightarrow> zero | Some v \<Rightarrow> v)"

fun map_write :: "'v go_map \<Rightarrow> string \<Rightarrow> 'v \<Rightarrow> 'v go_map" where
  "map_write [] k v = [(k, v)]"
| "map_write ((k', v') # m) k v = (if k' = k then (k, v) # m else (k', v') # map_write m k v)"

lemma map_of_map_write [simp]: "map_of (map_write m k v) = (map_of m)(k \<mapsto> v)"
  by (induction m k v rule: map_write.induct) auto

lemma fst_set_map_write: "fst ` set (map_write m k v) = insert k (fst ` set m)"
  by (induction m k v rule: map_write.induct) auto

lemma go_map_ok_write [simp]: "go_map_ok m \<Longrightarrow> go_map_ok (map_write m k v)"
  unfolding go_map_ok_def
  by (induction m k v rule: map_write.induct)
    (auto simp: fst_set_map_write simp flip: image_set)

lemma map_read_write [simp]: "map_read z (map_write m k v) j = (if j = k then v else map_read z m j)"
  by (simp add: map_read_def)

lemma map_read_Nil [simp]: "map_read z [] k = z"
  by (simp add: map_read_def)

lemma map_read_Cons [simp]:
  "map_read z ((k, v) # m) j = (if k = j then v else map_read z m j)"
  by (simp add: map_read_def)

definition fmt_map :: "string go_map \<Rightarrow> string" where
  "fmt_map m = ''map['' @ strings_Join (map (\<lambda>k. k @ '':'' @ map_read [] m k) (sort (map fst m))) (CHR '' '') @ '']''"

end
