(* ===== verification/GoFmt.thy ===== *)
theory GoFmt
  imports Prelude
begin

text \<open>
  fmt.Sprintf and fmt.Errorf for the formats the source uses: verbs without flags, width,
  precision or argument index. An argument is what its type prints under each verb, so
  arguments of any type can be passed; a string prints itself under \<open>%s\<close> and \<open>%v\<close>.
\<close>

section \<open>Arguments\<close>

datatype go_arg =
    NilArg
  | Arg (arg_type: string) (arg_text: "char \<Rightarrow> string")

text \<open>A string argument; \<open>other\<close> is its text under the verbs that quote or encode it.\<close>

definition string_arg_with :: "(char \<Rightarrow> string \<Rightarrow> string) \<Rightarrow> string \<Rightarrow> go_arg" where
  "string_arg_with other s = Arg ''string'' (\<lambda>verb. if verb = CHR ''s'' \<or> verb = CHR ''v'' then s else other verb s)"

text \<open>Under the verbs \<open>%s\<close> and \<open>%v\<close>, the only ones used with it, a string is its own text.\<close>

definition string_arg :: "string \<Rightarrow> go_arg" where
  "string_arg = string_arg_with (\<lambda>verb s. ''%!'' @ [verb] @ ''(string='' @ s @ '')'')"

fun print_verb :: "char \<Rightarrow> go_arg \<Rightarrow> string" where
  "print_verb verb NilArg = (if verb = CHR ''v'' then ''<nil>'' else ''%!'' @ [verb] @ ''(<nil>)'')"
| "print_verb verb (Arg ty text) = text verb"

section \<open>Formatting\<close>

text \<open>Arguments left over at the end of the format are listed with their types.\<close>

fun print_extra :: "go_arg \<Rightarrow> string" where
  "print_extra NilArg = ''<nil>''"
| "print_extra (Arg ty text) = ty @ ''='' @ text (CHR ''v'')"

fun comma_separated :: "string list \<Rightarrow> string" where
  "comma_separated [] = []"
| "comma_separated [x] = x"
| "comma_separated (x # y # xs) = x @ '', '' @ comma_separated (y # xs)"

definition print_extras :: "go_arg list \<Rightarrow> string" where
  "print_extras args =
     (if args = [] then [] else ''%!(EXTRA '' @ comma_separated (map print_extra args) @ '')'')"

fun sprintf :: "string \<Rightarrow> go_arg list \<Rightarrow> string" where
  "sprintf [] args = print_extras args"
| "sprintf [c] args = (if c = CHR ''%'' then ''%!(NOVERB)'' @ print_extras args else c # print_extras args)"
| "sprintf (c # d # s) args =
     (if c \<noteq> CHR ''%'' then c # sprintf (d # s) args
      else if d = CHR ''%'' then CHR ''%'' # sprintf s args
      else (case args of
              [] \<Rightarrow> ''%!'' @ [d] @ ''(MISSING)'' @ sprintf s []
            | a # args' \<Rightarrow> print_verb d a @ sprintf s args'))"

section \<open>Facts\<close>

lemma print_string_arg [simp]:
  "print_verb (CHR ''s'') (string_arg s) = s"
  "print_verb (CHR ''v'') (string_arg s) = s"
  "print_extra (string_arg s) = ''string='' @ s"
  by (simp_all add: string_arg_def string_arg_with_def)

lemma print_extras_Nil [simp]: "print_extras [] = []"
  by (simp add: print_extras_def)

text \<open>A format without a percent sign prints itself, followed by every argument as an extra.\<close>

lemma sprintf_plain: "CHR ''%'' \<notin> set s \<Longrightarrow> sprintf s args = s @ print_extras args"
  by (induction s args rule: sprintf.induct) auto

text \<open>The text before the first verb is copied.\<close>

lemma sprintf_prefix:
  "CHR ''%'' \<notin> set p \<Longrightarrow> s \<noteq> [] \<Longrightarrow> sprintf (p @ s) args = p @ sprintf s args"
proof (induction p)
  case (Cons c p)
  then obtain d t where "p @ s = d # t" by (cases "p @ s") auto
  with Cons show ?case by auto
qed simp

lemma sprintf_verb:
  assumes "d \<noteq> CHR ''%''"
  shows "sprintf (CHR ''%'' # d # s) (a # args) = print_verb d a @ sprintf s args"
    and "sprintf (CHR ''%'' # d # s) [] = ''%!'' @ [d] @ ''(MISSING)'' @ sprintf s []"
  using assms by simp_all

end
