(* ===== verification/MessageCatalog.thy ===== *)
theory MessageCatalog
  imports GoFmt
begin

text \<open>
  Package messages, the data: the reason codes of reason_code.go, the Message structure and
  the English catalogue messagesEn with its 54 entries, in the order of messages\_en.go.
\<close>

section \<open>reason\_code.go\<close>

definition MethodUnimplemented :: string where "MethodUnimplemented = ''MethodUnimplemented''"
definition MethodUnsupported :: string where "MethodUnsupported = ''MethodUnsupported''"
definition MissingVolumeName :: string where "MissingVolumeName = ''MissingVolumeName''"
definition MissingSnapshotName :: string where "MissingSnapshotName = ''MissingSnapshotName''"
definition MissingSourceVolumeID :: string where "MissingSourceVolumeID = ''MissingSourceVolumeID''"
definition VolumeAlreadyExists :: string where "VolumeAlreadyExists = ''VolumeAlreadyExists''"
definition SnapshotAlreadyExists :: string where "SnapshotAlreadyExists = ''SnapshotAlreadyExists''"
definition EmptyVolumeID :: string where "EmptyVolumeID = ''EmptyVolumeID''"
definition EmptySnapshotID :: string where "EmptySnapshotID = ''EmptySnapshotID''"
definition UnsupportedVolumeContentSource :: string where "UnsupportedVolumeContentSource = ''UnsupportedVolumeContentSource''"
definition EmptyVolumePath :: string where "EmptyVolumePath = ''EmptyVolumePath''"
definition EmptyNodeID :: string where "EmptyNodeID = ''EmptyNodeID''"
definition EndpointNotReachable :: string where "EndpointNotReachable = ''EndpointNotReachable''"
definition Timeout :: string where "Timeout = ''Timeout''"
definition VolumeInvalidArguments :: string where "VolumeInvalidArguments = ''VolumeInvalidArguments''"
definition VolumeCreationFailed :: string where "VolumeCreationFailed = ''VolumeCreationFailed''"
definition NoVolumeCapabilities :: string where "NoVolumeCapabilities = ''NoVolumeCapabilities''"
definition VolumeCapabilitiesNotSupported :: string where "VolumeCapabilitiesNotSupported = ''VolumeCapabilitiesNotSupported''"
definition InvalidParameters :: string where "InvalidParameters = ''InvalidParameters''"
definition InternalError :: string where "InternalError = ''InternalError''"
definition ObjectNotFound :: string where "ObjectNotFound = ''ObjectNotFound''"
definition ProfileNotAllowlisted :: string where "ProfileNotAllowlisted = ''ProfileNotAllowlisted''"
definition FailedPrecondition :: string where "FailedPrecondition = ''FailedPrecondition''"
definition NoStagingTargetPath :: string where "NoStagingTargetPath = ''NoStagingTargetPath''"
definition NoTargetPath :: string where "NoTargetPath = ''NoTargetPath''"
definition MountPointValidateError :: string where "MountPointValidateError = ''MountPointValidateError''"
definition UnmountFailed :: string where "UnmountFailed = ''UnmountFailed''"
definition MountFailed :: string where "MountFailed = ''MountFailed''"
definition EmptyDevicePath :: string where "EmptyDevicePath = ''EmptyDevicePath''"
definition DevicePathFindFailed :: string where "DevicePathFindFailed = ''DevicePathFindFailed''"
definition DevicePathNotFound :: string where "DevicePathNotFound = ''DevicePathNotFound''"
definition TargetPathCheckFailed :: string where "TargetPathCheckFailed = ''TargetPathCheckFailed''"
definition TargetPathCreateFailed :: string where "TargetPathCreateFailed = ''TargetPathCreateFailed''"
definition VolumeMountCheckFailed :: string where "VolumeMountCheckFailed = ''VolumeMountCheckFailed''"
definition FormatAndMountFailed :: string where "FormatAndMountFailed = ''FormatAndMountFailed''"
definition NodeMetadataInitFailed :: string where "NodeMetadataInitFailed = ''NodeMetadataInitFailed''"
definition DevicePathNotExists :: string where "DevicePathNotExists = ''DevicePathNotExists''"
definition BlockDeviceCheckFailed :: string where "BlockDeviceCheckFailed = ''BlockDeviceCheckFailed''"
definition GetDeviceInfoFailed :: string where "GetDeviceInfoFailed = ''GetDeviceInfoFailed''"
definition GetFSInfoFailed :: string where "GetFSInfoFailed = ''GetFSInfoFailed''"
definition DriverNotConfigured :: string where "DriverNotConfigured = ''DriverNotConfigured''"
definition RemoveMountTargetFailed :: string where "RemoveMountTargetFailed = ''RemoveMountTargetFailed''"
definition CreateMountTargetFailed :: string where "CreateMountTargetFailed = ''CreateMountTargetFailed''"
definition MountingTargetFailed :: string where "MountingTargetFailed = ''MountingTargetFailed''"
definition UnresponsiveMountHelperContainerUtility :: string where "UnresponsiveMountHelperContainerUtility = ''UnresponsiveMountHelperContainerUtility''"
definition MetadataServiceNotEnabled :: string where "MetadataServiceNotEnabled = ''MetadataServiceNotEnabled''"
definition ListVolumesFailed :: string where "ListVolumesFailed = ''ListVolumesFailed''"
definition ListSnapshotsFailed :: string where "ListSnapshotsFailed = ''ListSnapshotsFailed''"
definition StartVolumeIDNotFound :: string where "StartVolumeIDNotFound = ''StartVolumeIDNotFound''"
definition StartSnapshotIDNotFound :: string where "StartSnapshotIDNotFound = ''StartSnapshotIDNotFound''"
definition FileSystemResizeFailed :: string where "FileSystemResizeFailed = ''FileSystemResizeFailed''"
definition VolumePathNotMounted :: string where "VolumePathNotMounted = ''VolumePathNotMounted''"
definition SubnetIDListNotFound :: string where "SubnetIDListNotFound = ''SubnetIDListNotFound''"
definition SubnetFindFailed :: string where "SubnetFindFailed = ''SubnetFindFailed''"
definition RC5XX :: string where "RC5XX = ''RC:5''"

text \<open>The constants that name a message, in the order of the file; RC5XX is a text to search for.\<close>

definition reason_codes :: "string list" where
  "reason_codes =
     [MethodUnimplemented, MethodUnsupported, MissingVolumeName, MissingSnapshotName,
      MissingSourceVolumeID, VolumeAlreadyExists, SnapshotAlreadyExists, EmptyVolumeID,
      EmptySnapshotID, UnsupportedVolumeContentSource, EmptyVolumePath, EmptyNodeID,
      EndpointNotReachable, Timeout, VolumeInvalidArguments, VolumeCreationFailed,
      NoVolumeCapabilities, VolumeCapabilitiesNotSupported, InvalidParameters, InternalError,
      ObjectNotFound, ProfileNotAllowlisted, FailedPrecondition, NoStagingTargetPath,
      NoTargetPath, MountPointValidateError, UnmountFailed, MountFailed,
      EmptyDevicePath, DevicePathFindFailed, DevicePathNotFound, TargetPathCheckFailed,
      TargetPathCreateFailed, VolumeMountCheckFailed, FormatAndMountFailed, NodeMetadataInitFailed,
      DevicePathNotExists, BlockDeviceCheckFailed, GetDeviceInfoFailed, GetFSInfoFailed,
      DriverNotConfigured, RemoveMountTargetFailed, CreateMountTargetFailed, MountingTargetFailed,
      UnresponsiveMountHelperContainerUtility, MetadataServiceNotEnabled, ListVolumesFailed, ListSnapshotsFailed,
      StartVolumeIDNotFound, StartSnapshotIDNotFound, FileSystemResizeFailed, VolumePathNotMounted,
      SubnetIDListNotFound, SubnetFindFailed]"

lemmas reason_code_defs =
  MethodUnimplemented_def MethodUnsupported_def MissingVolumeName_def
  MissingSnapshotName_def MissingSourceVolumeID_def VolumeAlreadyExists_def
  SnapshotAlreadyExists_def EmptyVolumeID_def EmptySnapshotID_def
  UnsupportedVolumeContentSource_def EmptyVolumePath_def EmptyNodeID_def
  EndpointNotReachable_def Timeout_def VolumeInvalidArguments_def
  VolumeCreationFailed_def NoVolumeCapabilities_def VolumeCapabilitiesNotSupported_def
  InvalidParameters_def InternalError_def ObjectNotFound_def
  ProfileNotAllowlisted_def FailedPrecondition_def NoStagingTargetPath_def
  NoTargetPath_def MountPointValidateError_def UnmountFailed_def
  MountFailed_def EmptyDevicePath_def DevicePathFindFailed_def
  DevicePathNotFound_def TargetPathCheckFailed_def TargetPathCreateFailed_def
  VolumeMountCheckFailed_def FormatAndMountFailed_def NodeMetadataInitFailed_def
  DevicePathNotExists_def BlockDeviceCheckFailed_def GetDeviceInfoFailed_def
  GetFSInfoFailed_def DriverNotConfigured_def RemoveMountTargetFailed_def
  CreateMountTargetFailed_def MountingTargetFailed_def UnresponsiveMountHelperContainerUtility_def
  MetadataServiceNotEnabled_def ListVolumesFailed_def ListSnapshotsFailed_def
  StartVolumeIDNotFound_def StartSnapshotIDNotFound_def FileSystemResizeFailed_def
  VolumePathNotMounted_def SubnetIDListNotFound_def SubnetFindFailed_def
  RC5XX_def

section \<open>Messages\<close>

text \<open>
  The gRPC status codes the catalogue names, with \<open>OK\<close>, which is the zero value of
  codes.Code and so the Type of a zero Message.
\<close>

datatype grpc_code =
    OK | InvalidArgument | DeadlineExceeded | CodeNotFound | CodeAlreadyExists
  | CodeFailedPrecondition | Aborted | Unimplemented | Internal | Unavailable

record Message =
  Code :: string
  Type :: grpc_code
  RequestID :: string
  Description :: string
  BackendError :: string
  CSIError :: string
  Action :: string

definition zero_Message :: Message where
  "zero_Message = \<lparr>Code = [], Type = OK, RequestID = [], Description = [], BackendError = [],
     CSIError = [], Action = []\<rparr>"

text \<open>An entry of the catalogue sets four fields; the others are zero.\<close>

definition entry :: "string \<Rightarrow> string \<Rightarrow> grpc_code \<Rightarrow> string \<Rightarrow> Message" where
  "entry code description ty action =
     zero_Message\<lparr>Code := code, Description := description, Type := ty, Action := action\<rparr>"

section \<open>messages\_en.go\<close>

definition messagesEn_1 :: "Message go_map" where
  "messagesEn_1 =
     [(MethodUnimplemented, entry MethodUnimplemented
        '''%s' CSI interface method not yet implemented''
        Unimplemented
        ''Please do not use this method as its not implemented yet''),
      (MethodUnsupported, entry MethodUnsupported
        '''%s' CSI interface method is not supported''
        Unimplemented
        ''Please do not use this method as its unsupported''),
      (MissingVolumeName, entry MissingVolumeName
        ''Volume name not provided''
        InvalidArgument
        ''Please provide volume name while creating volume''),
      (MissingSnapshotName, entry MissingSnapshotName
        ''Snapshot name not provided''
        InvalidArgument
        ''Please provide snapshot name while creating snapshot''),
      (MissingSourceVolumeID, entry MissingSourceVolumeID
        ''Volume ID not provided''
        InvalidArgument
        ''Please provide source volume ID while creating snapshot''),
      (UnsupportedVolumeContentSource, entry UnsupportedVolumeContentSource
        ''Volume Content source is not valid. SnapshotSource should be provided as Volume Content source''
        InvalidArgument
        ''Please provide valid volumeContentSource type''),
      (NoVolumeCapabilities, entry NoVolumeCapabilities
        ''Volume capabilities must be provided''
        InvalidArgument
        ''Please provide volume capabilities in the storage class before creating volume''),
      (VolumeCapabilitiesNotSupported, entry VolumeCapabilitiesNotSupported
        ''Volume capabilities not supported''
        InvalidArgument
        ''Please provide valid volume capabilities while creating volume''),
      (InvalidParameters, entry InvalidParameters
        ''Failed to extract parameters''
        InvalidArgument
        ''Please provide valid parameters''),
      (ObjectNotFound, entry ObjectNotFound
        ''Object not found''
        CodeNotFound
        ''Please check 'BackendError' tag for more details''),
      (InternalError, entry InternalError
        ''Internal error occurred''
        Internal
        ''Please check 'BackendError' tag for more details''),
      (VolumeAlreadyExists, entry VolumeAlreadyExists
        (''Volume with name '%s' already exists with same name and it is incompatible size '%s'' @ [CHR 0x27])
        CodeAlreadyExists
        ''Please provide different name or have same size of existing volume''),
      (SnapshotAlreadyExists, entry SnapshotAlreadyExists
        (''Snapshot with name '%s' already exists for different volume '%s'' @ [CHR 0x27])
        CodeAlreadyExists
        ''Please provide different name for creating snapshot''),
      (VolumeInvalidArguments, entry VolumeInvalidArguments
        ''Invalid arguments for create volume''
        InvalidArgument
        ''Please provide valid arguments while creating volume''),
      (VolumeCreationFailed, entry VolumeCreationFailed
        ''Failed to create volume''
        Internal
        ''Please check the error which return in BackendError tag''),
      (EmptyVolumeID, entry EmptyVolumeID
        ''VolumeID must be provided''
        InvalidArgument
        ''Please provide volume ID for attach/detach or delete it''),
      (EmptySnapshotID, entry EmptySnapshotID
        ''SnapshotID must be provided''
        InvalidArgument
        ''Please provide snapshot ID for deletion''),
      (EmptyNodeID, entry EmptyNodeID
        ''NodeID is empty''
        InvalidArgument
        ''Please check all node's labels by using kubectl command'')]"

definition messagesEn_2 :: "Message go_map" where
  "messagesEn_2 =
     [(EndpointNotReachable, entry EndpointNotReachable
        ''IAM TOKEN exchange request failed.''
        Unavailable
        ''Verify that iks_token_exchange_endpoint_private_url is reachable from the cluster. You can find this url by running 'kubectl get secret storage-secret-storage -n kube-system'.''),
      (Timeout, entry Timeout
        ''IAM Token exchange endpoint is not reachable.''
        DeadlineExceeded
        ''Wait for a few minutes and try again. If the error persists user can open a container network issue.''),
      (ProfileNotAllowlisted, entry FailedPrecondition
        '''%s' profile is not accessible''
        CodeFailedPrecondition
        ''Please open support ticket on VPC for allowlisting. Once allowlisted please restart the CSI Driver''),
      (FailedPrecondition, entry FailedPrecondition
        ''Provider is not ready to respond''
        CodeFailedPrecondition
        ''Please retry after some time, if problem persist then report issue to IKS storage team''),
      (NoStagingTargetPath, entry NoStagingTargetPath
        ''Staging target path not provided''
        InvalidArgument
        ''Please check if there is any error in POD describe related with volume attach''),
      (NoTargetPath, entry NoTargetPath
        ''Target path must be provided''
        InvalidArgument
        ''Please check if there is any error in POD describe related with volume attach''),
      (MountPointValidateError, entry MountPointValidateError
        ''Failed to check whether target path '%s' is a mount point''
        CodeFailedPrecondition
        ''Please check if there is any error in POD describe related with volume attach''),
      (UnmountFailed, entry UnmountFailed
        ''Unmount failed for '%s' target path''
        Internal
        ''Please check if there is any error in POD describe related with volume detach''),
      (MountFailed, entry MountFailed
        (''Failed to mount '%q' at '%q'' @ [CHR 0x27])
        Internal
        ''Please check if there is any error in POD describe related with volume attach''),
      (EmptyDevicePath, entry EmptyDevicePath
        ''Staging device path must be provided''
        InvalidArgument
        ''Please check if there is any error in POD describe related with volume attach''),
      (DevicePathFindFailed, entry DevicePathFindFailed
        ''Failed to find '%s' device path''
        Internal
        ''Please check if there is any error in POD describe related with volume attach''),
      (DevicePathNotFound, entry DevicePathNotFound
        ''Device path '%s' is not present''
        Internal
        ''List volume attachments by using `ibmcloud ks storage attachments --worker <worker-ID> --cluster <cluster-ID> | grep <volume-ID>`. If the volume is attached, open a ticket and select VPC for the Problem type. Otherwise, select IBM Cloud Kubernetes service as Problem type.''),
      (TargetPathCheckFailed, entry TargetPathCheckFailed
        ''Failed to check if staging target path '%s' exists''
        Internal
        ''Please check if there is any error in POD describe related with volume attach''),
      (TargetPathCreateFailed, entry TargetPathCreateFailed
        (''Failed to create target path '%s'' @ [CHR 0x27])
        Internal
        ''Please check if there is any error in POD describe related with volume attach''),
      (VolumeMountCheckFailed, entry VolumeMountCheckFailed
        (''Failed to check if volume is already mounted on '%s'' @ [CHR 0x27])
        Internal
        ''Please check if there is any error in POD describe related with volume attach''),
      (FormatAndMountFailed, entry FormatAndMountFailed
        (''Failed to format '%s' and mount it at '%s'' @ [CHR 0x27])
        Internal
        ''Please check if there is any error in POD describe related with volume attach''),
      (NodeMetadataInitFailed, entry NodeMetadataInitFailed
        ''Failed to initialize node metadata''
        CodeNotFound
        ''Please check the node labels as per BackendError, accordingly you may add the labels manually''),
      (EmptyVolumePath, entry EmptyVolumePath
        ''Volume path can not be empty''
        InvalidArgument
        ''Please check if volume is used by POD properly'')]"

definition messagesEn_3 :: "Message go_map" where
  "messagesEn_3 =
     [(DevicePathNotExists, entry DevicePathNotExists
        (''Device path '%s' does not exist for volume ID '%s'' @ [CHR 0x27])
        CodeNotFound
        ''Please check if volume is used by POD properly''),
      (BlockDeviceCheckFailed, entry BlockDeviceCheckFailed
        ''Failed to determine if volume '%s' is block device or not''
        Internal
        ''Please check if volume is used by POD properly''),
      (GetDeviceInfoFailed, entry GetDeviceInfoFailed
        ''Failed to get device info''
        Internal
        ''Please check if volume is used by POD properly''),
      (GetFSInfoFailed, entry GetFSInfoFailed
        ''Failed to get FS info''
        Internal
        ''Please check if volume is used by POD properly''),
      (DriverNotConfigured, entry DriverNotConfigured
        ''Driver name not configured''
        Unavailable
        ''Developer need to set the driver name''),
      (RemoveMountTargetFailed, entry RemoveMountTargetFailed
        ''Failed to remove '%q' mount target''
        Internal
        ''Please check if volume is used by POD properly''),
      (CreateMountTargetFailed, entry CreateMountTargetFailed
        ''Failed to create '%q' mount target''
        Internal
        ''Please check if volume is used by POD properly''),
      (MountingTargetFailed, entry MountingTargetFailed
        ''Failed to mount target.''
        Internal
        ''Check node server logs for more details on mount failure.''),
      (UnresponsiveMountHelperContainerUtility, entry UnresponsiveMountHelperContainerUtility
        ''Failed to mount target because unable to make connection to mount helper container service.''
        Unavailable
        ''Check if EIT is enabled from storage operator. Run command 'kubectl edit configmap addon-vpc-file-csi-driver-configmap -n kube-system' and set 'ENABLE_EIT' flag to 'true'.''),
      (MetadataServiceNotEnabled, entry MetadataServiceNotEnabled
        ''Failed to mount target.''
        Internal
        ''Metadata service might not be enabled for worker node. Make sure to use IKS>=1.30 or ROKS>=4.16 cluster.''),
      (ListVolumesFailed, entry ListVolumesFailed
        ''Failed to list volumes''
        Internal
        ''Please check 'BackendError' tag for more details''),
      (ListSnapshotsFailed, entry ListSnapshotsFailed
        ''Failed to list snapshots''
        Internal
        ''Please check 'BackendError' tag for more details''),
      (StartVolumeIDNotFound, entry StartVolumeIDNotFound
        ''The volume ID '%s' specified in the start parameter of the list volume call could not be found''
        Aborted
        ''Please verify that the start volume ID is correct and whether you have access to the volume ID''),
      (StartSnapshotIDNotFound, entry StartSnapshotIDNotFound
        ''The snapshot ID '%s' specified in the start parameter of the list snapshot call could not be found''
        Aborted
        ''Please verify that the start snapshot ID is correct and whether you have access to the snapshot ID''),
      (FileSystemResizeFailed, entry FileSystemResizeFailed
        ''Failed to resize the file system''
        Internal
        ''Please check if there is any error in PVC describe related with volume resize''),
      (VolumePathNotMounted, entry VolumePathNotMounted
        ''VolumePath '%s' is not mounted''
        CodeFailedPrecondition
        ''Please check if there is any error in POD describe related with volume attach''),
      (SubnetIDListNotFound, entry SubnetIDListNotFound
        ''Cluster subnet list 'vpc_subnet_ids' is not defined''
        CodeFailedPrecondition
        (''Please check if this configmap 'ibm-cloud-provider-data' really exists and if the property 'vpc_subnet_ids' contains any subnet entries. Run the command 'kubectl get configmap ibm-cloud-provider-data -n kube-system -o yaml'' @ [CHR 0x27])),
      (SubnetFindFailed, entry SubnetFindFailed
        ''A subnet with the specified zone '%s' and available cluster subnet list '%s' could not be found.''
        CodeFailedPrecondition
        ''Please check if the property 'vpc_subnet_ids' contains valid subnetIds. Please check 'kubectl get configmap ibm-cloud-provider-data -n kube-system -o yaml'.Please check 'BackendError' tag for more details'')]"

text \<open>The map literal of the source, written in three pieces.\<close>

definition messagesEn :: "Message go_map" where
  "messagesEn = messagesEn_1 @ messagesEn_2 @ messagesEn_3"

definition InitMessages :: "Message go_map" where
  "InitMessages = messagesEn"

lemmas messagesEn_defs = messagesEn_def messagesEn_1_def messagesEn_2_def messagesEn_3_def

end
