(* ===== verification/Messages.thy ===== *)
theory Messages
  imports MessageCatalog
begin

text \<open>
  Package messages, messages.go: the text of a Message and the construction of the gRPC error
  a CSI call returns. status.Error of the gRPC library is a parameter; its documented
  contract is the predicate \<open>status_contract\<close>.
\<close>

section \<open>messages.go\<close>

definition Info :: "Message \<Rightarrow> string" where
  "Info msg =
     (if BackendError msg \<noteq> [] then
        sprintf ''{RequestID: %s, BackendError: %s, Action: %s}''
          [string_arg (RequestID msg), string_arg (BackendError msg), string_arg (Action msg)]
      else if CSIError msg \<noteq> [] then
        sprintf ''{RequestID: %s, Code: %s, Description: %s, Error: %s, Action: %s}''
          [string_arg (RequestID msg), string_arg (Code msg), string_arg (Description msg),
           string_arg (CSIError msg), string_arg (Action msg)]
      else
        sprintf ''{RequestID: %s, Code: %s, Description: %s, Action: %s}''
          [string_arg (RequestID msg), string_arg (Code msg), string_arg (Description msg),
           string_arg (Action msg)])"

definition Message_Error :: "Message \<Rightarrow> string" where
  "Message_Error msg = Info msg"

text \<open>
  The package variable MessagesEn is an argument (\<open>[]\<close>, the nil map, until the driver sets it
  to InitMessages()); a missing code reads the zero Message.
\<close>

definition initial_MessagesEn :: "Message go_map" where
  "initial_MessagesEn = []"

definition GetCSIMessage :: "Message go_map \<Rightarrow> string \<Rightarrow> go_arg list \<Rightarrow> Message" where
  "GetCSIMessage MessagesEn code args =
     (let userMsg = map_read zero_Message MessagesEn code in
      if length args > 0 then userMsg\<lparr>Description := sprintf (Description userMsg) args\<rparr>
      else userMsg)"

text \<open>What the logger writes: the message of logger.Error and the text of its error field.\<close>

datatype log_entry = LogError (log_msg: string) (log_error: string)

definition GetCSIError ::
  "(grpc_code \<Rightarrow> string \<Rightarrow> 'e option) \<Rightarrow> Message go_map \<Rightarrow> string \<Rightarrow> string \<Rightarrow> go_error option
   \<Rightarrow> go_arg list \<Rightarrow> log_entry \<times> 'e option" where
  "GetCSIError status_Error MessagesEn code requestID err args =
     (let userMsg = GetCSIMessage MessagesEn code args;
          userMsg = (case err of None \<Rightarrow> userMsg | Some e \<Rightarrow> userMsg\<lparr>CSIError := error_text e\<rparr>);
          userMsg = userMsg\<lparr>RequestID := requestID\<rparr>
      in (LogError ''FAILED CSI ERROR'' (Message_Error userMsg),
          status_Error (Type userMsg) (Info userMsg)))"

definition GetCSIBackendError ::
  "(grpc_code \<Rightarrow> string \<Rightarrow> 'e option) \<Rightarrow> Message go_map \<Rightarrow> string \<Rightarrow> go_error option
   \<Rightarrow> go_arg list \<Rightarrow> log_entry \<times> 'e option" where
  "GetCSIBackendError status_Error MessagesEn requestID err args =
     (let backendError = (case err of None \<Rightarrow> [] | Some e \<Rightarrow> error_text e);
          userMsg =
            (if strings_Contains (strings_ReplaceAll backendError (CHR '' '') []) RC5XX
             then GetCSIMessage MessagesEn InternalError args
             else GetCSIMessage MessagesEn InvalidParameters args);
          userMsg = userMsg\<lparr>RequestID := requestID\<rparr>;
          userMsg = userMsg\<lparr>BackendError := backendError\<rparr>
      in (LogError ''FAILED BACKEND ERROR'' (Message_Error userMsg),
          status_Error (Type userMsg) (Info userMsg)))"

text \<open>
  The documented contract of status.Error: the nil error for the code OK, otherwise an error
  that carries the code and the message.
\<close>

definition status_contract ::
  "(grpc_code \<Rightarrow> string \<Rightarrow> 'e option) \<Rightarrow> ('e \<Rightarrow> grpc_code) \<Rightarrow> ('e \<Rightarrow> string) \<Rightarrow> bool" where
  "status_contract status_Error code_of text_of \<longleftrightarrow>
     (\<forall>m. status_Error OK m = None)
     \<and> (\<forall>c m. c \<noteq> OK \<longrightarrow> (\<exists>e. status_Error c m = Some e \<and> code_of e = c \<and> text_of e = m))"

section \<open>Facts\<close>

lemma status_contractD:
  assumes "status_contract S code_of text_of"
  shows "S OK m = None"
    and "c \<noteq> OK \<Longrightarrow> \<exists>e. S c m = Some e \<and> code_of e = c \<and> text_of e = m"
  using assms by (auto simp: status_contract_def)

text \<open>A concrete status.Error: an error is its code and message.\<close>

definition pair_status :: "grpc_code \<Rightarrow> string \<Rightarrow> (grpc_code \<times> string) option" where
  "pair_status c m = (if c = OK then None else Some (c, m))"

lemma pair_status_contract: "status_contract pair_status fst snd"
  by (simp add: status_contract_def pair_status_def)

lemma GetCSIMessage_fields [simp]:
  "Type (GetCSIMessage MessagesEn code args) = Type (map_read zero_Message MessagesEn code)"
  "Code (GetCSIMessage MessagesEn code args) = Code (map_read zero_Message MessagesEn code)"
  "Action (GetCSIMessage MessagesEn code args) = Action (map_read zero_Message MessagesEn code)"
  "BackendError (GetCSIMessage MessagesEn code args) = BackendError (map_read zero_Message MessagesEn code)"
  "CSIError (GetCSIMessage MessagesEn code args) = CSIError (map_read zero_Message MessagesEn code)"
  by (simp_all add: GetCSIMessage_def Let_def)

lemma entry_fields [simp]:
  "Code (entry c d t a) = c" "Type (entry c d t a) = t" "Description (entry c d t a) = d"
  "Action (entry c d t a) = a" "RequestID (entry c d t a) = []"
  "BackendError (entry c d t a) = []" "CSIError (entry c d t a) = []"
  by (simp_all add: entry_def zero_Message_def)

lemma zero_Message_Type [simp]: "Type zero_Message = OK"
  by (simp add: zero_Message_def)

lemma catalog_keys_distinct: "distinct (map fst messagesEn)"
  by (simp add: messagesEn_defs reason_code_defs)

lemma catalog_keys: "set (map fst messagesEn) = set reason_codes"
  by (simp add: messagesEn_defs reason_codes_def insert_commute)

lemma catalog_types: "list_all (\<lambda>(k, m). Type m \<noteq> OK \<and> BackendError m = [] \<and> CSIError m = []) messagesEn"
  by (simp add: messagesEn_defs)

lemma catalog_codes: "list_all (\<lambda>(k, m). CHR '','' \<notin> set (Code m)) messagesEn"
  by (simp add: messagesEn_defs reason_code_defs)

lemma catalog_lookup:
  assumes "code \<in> set reason_codes"
  obtains m where "map_of messagesEn code = Some m" and "map_read zero_Message messagesEn code = m"
    and "Type m \<noteq> OK" and "BackendError m = []" and "CSIError m = []"
proof -
  have "code \<in> fst ` set messagesEn" using assms catalog_keys by simp
  then obtain m where m: "map_of messagesEn code = Some m"
    by (metis domD dom_map_of_conv_image_fst)
  then have "(code, m) \<in> set messagesEn" by (rule map_of_SomeD)
  with catalog_types m show thesis
    by (intro that [of m]) (auto simp: list_all_iff map_read_def)
qed

lemma catalog_missing:
  assumes "code \<notin> set reason_codes"
  shows "map_read zero_Message messagesEn code = zero_Message"
proof -
  have "code \<notin> fst ` set messagesEn" using assms catalog_keys by simp
  then have "map_of messagesEn code = None" by (simp add: map_of_eq_None_iff)
  then show ?thesis by (simp add: map_read_def)
qed

lemma catalog_InternalError:
  "map_read zero_Message messagesEn InternalError =
     entry InternalError ''Internal error occurred'' Internal
       ''Please check 'BackendError' tag for more details''"
  and catalog_InvalidParameters:
  "map_read zero_Message messagesEn InvalidParameters =
     entry InvalidParameters ''Failed to extract parameters'' InvalidArgument
       ''Please provide valid parameters''"
  by (simp_all add: messagesEn_defs reason_code_defs)

subsection \<open>Texts\<close>

lemma Info_backend:
  "BackendError msg \<noteq> [] \<Longrightarrow> Info msg = ''{RequestID: '' @ RequestID msg @ '', BackendError: ''
     @ BackendError msg @ '', Action: '' @ Action msg @ ''}''"
  by (simp add: Info_def)

lemma Info_csi:
  "BackendError msg = [] \<Longrightarrow> CSIError msg \<noteq> [] \<Longrightarrow> Info msg = ''{RequestID: '' @ RequestID msg
     @ '', Code: '' @ Code msg @ '', Description: '' @ Description msg @ '', Error: '' @ CSIError msg
     @ '', Action: '' @ Action msg @ ''}''"
  by (simp add: Info_def)

lemma Info_plain:
  "BackendError msg = [] \<Longrightarrow> CSIError msg = [] \<Longrightarrow> Info msg = ''{RequestID: '' @ RequestID msg
     @ '', Code: '' @ Code msg @ '', Description: '' @ Description msg @ '', Action: '' @ Action msg @ ''}''"
  by (simp add: Info_def)

lemmas Info_simps = Info_backend Info_csi Info_plain

text \<open>The message the two constructors build, named once for their lemmas.\<close>

definition csi_message :: "Message go_map \<Rightarrow> string \<Rightarrow> string \<Rightarrow> go_error option \<Rightarrow> go_arg list \<Rightarrow> Message" where
  "csi_message cat code req err args =
     (case err of None \<Rightarrow> GetCSIMessage cat code args
      | Some e \<Rightarrow> (GetCSIMessage cat code args)\<lparr>CSIError := error_text e\<rparr>)\<lparr>RequestID := req\<rparr>"

definition backend_code :: "go_error option \<Rightarrow> string" where
  "backend_code err =
     (case err of None \<Rightarrow> InvalidParameters
      | Some e \<Rightarrow> if sublist ''RC:5'' (filter (\<lambda>x. x \<noteq> CHR '' '') (error_text e)) then InternalError
                  else InvalidParameters)"

definition backend_message :: "Message go_map \<Rightarrow> string \<Rightarrow> go_error option \<Rightarrow> go_arg list \<Rightarrow> Message" where
  "backend_message cat req err args =
     (GetCSIMessage cat (backend_code err) args)
       \<lparr>RequestID := req, BackendError := (case err of None \<Rightarrow> [] | Some e \<Rightarrow> error_text e)\<rparr>"

lemma GetCSIError_eq:
  "GetCSIError S cat code req err args =
     (LogError ''FAILED CSI ERROR'' (Info (csi_message cat code req err args)),
      S (Type (map_read zero_Message cat code)) (Info (csi_message cat code req err args)))"
  by (auto simp: GetCSIError_def Let_def csi_message_def Message_Error_def split: option.splits)

lemma GetCSIBackendError_eq:
  "GetCSIBackendError S cat req err args =
     (LogError ''FAILED BACKEND ERROR'' (Info (backend_message cat req err args)),
      S (Type (map_read zero_Message cat (backend_code err))) (Info (backend_message cat req err args)))"
proof -
  have no: "\<not> strings_Contains (strings_ReplaceAll [] (CHR '' '') []) RC5XX"
    by (simp add: RC5XX_def strings_ReplaceAll_def)
  have rc: "strings_Contains (strings_ReplaceAll x (CHR '' '') []) RC5XX
      \<longleftrightarrow> sublist ''RC:5'' (filter (\<lambda>x. x \<noteq> CHR '' '') x)" for x
    by (simp only: strings_ReplaceAll_remove strings_Contains_sublist RC5XX_def)
  show ?thesis
  proof (cases err)
    case None
    with no show ?thesis
      by (simp add: GetCSIBackendError_def Let_def backend_message_def backend_code_def Message_Error_def)
  next
    case (Some e)
    then show ?thesis
      by (simp add: GetCSIBackendError_def Let_def backend_message_def backend_code_def Message_Error_def rc)
  qed
qed

lemma Info_csi_message:
  assumes "map_read zero_Message cat code = m" and "BackendError m = []" and "CSIError m = []"
  shows "Info (csi_message cat code req err args) =
     ''{RequestID: '' @ req @ '', Code: '' @ Code m @ '', Description: ''
       @ (if args = [] then Description m else sprintf (Description m) args)
       @ (case err of None \<Rightarrow> [] | Some c \<Rightarrow> if error_text c = [] then [] else '', Error: '' @ error_text c)
       @ '', Action: '' @ Action m @ ''}''"
  using assms by (cases err) (simp_all add: csi_message_def GetCSIMessage_def Let_def Info_def)

text \<open>
  A format as its text before the first verb and, for each verb, the verb and the text after
  it; and what it prints when every verb has its argument.
\<close>

fun template :: "string \<Rightarrow> (char \<times> string) list \<Rightarrow> string" where
  "template p [] = p"
| "template p ((verb, q) # rest) = p @ CHR ''%'' # verb # template q rest"

fun filled :: "string \<Rightarrow> (char \<times> string) list \<Rightarrow> go_arg list \<Rightarrow> string" where
  "filled p ((verb, q) # rest) (a # args) = p @ print_verb verb a @ filled q rest args"
| "filled p _ args = p"

lemma sprintf_template:
  assumes "CHR ''%'' \<notin> set p" and "list_all (\<lambda>(v, q). v \<noteq> CHR ''%'' \<and> CHR ''%'' \<notin> set q) rest"
    and "length args = length rest"
  shows "sprintf (template p rest) args = filled p rest args"
  using assms
proof (induction p rest arbitrary: args rule: template.induct)
  case (1 p)
  then show ?case by (simp add: sprintf_plain)
next
  case (2 p verb q rest)
  then obtain a args' where a: "args = a # args'" by (cases args) auto
  have "sprintf (template p ((verb, q) # rest)) args
      = p @ sprintf (CHR ''%'' # verb # template q rest) (a # args')"
    using 2(2) by (simp add: a sprintf_prefix)
  also have "\<dots> = p @ print_verb verb a @ sprintf (template q rest) args'"
    using 2(3) by (simp add: sprintf_verb)
  also have "sprintf (template q rest) args' = filled q rest args'"
    using 2 a by simp
  finally show ?case by (simp add: a)
qed

text \<open>Reading a format back into that shape, and the formats whose verbs are all \<open>%s\<close> or \<open>%q\<close>.\<close>

fun parse_template :: "string \<Rightarrow> string \<times> (char \<times> string) list" where
  "parse_template [] = ([], [])"
| "parse_template [c] = ([c], [])"
| "parse_template (c # d # s) =
     (if c = CHR ''%'' then (case parse_template s of (q, r) \<Rightarrow> ([], (d, q) # r))
      else (case parse_template (d # s) of (p, r) \<Rightarrow> (c # p, r)))"

lemma template_Cons: "template (c # p) rest = c # template p rest"
  by (cases rest) auto

lemma template_parse: "template (fst (parse_template t)) (snd (parse_template t)) = t"
  by (induction t rule: parse_template.induct) (auto simp: template_Cons split: prod.splits)

definition plain_verbs :: "string \<Rightarrow> bool" where
  "plain_verbs t \<longleftrightarrow> CHR ''%'' \<notin> set (fst (parse_template t))
     \<and> list_all (\<lambda>(v, q). (v = CHR ''s'' \<or> v = CHR ''q'') \<and> CHR ''%'' \<notin> set q) (snd (parse_template t))"

lemma sprintf_plain_verbs:
  assumes "plain_verbs t" and "length args = length (snd (parse_template t))"
  shows "sprintf t args = filled (fst (parse_template t)) (snd (parse_template t)) args"
proof -
  have "list_all (\<lambda>(v, q). v \<noteq> CHR ''%'' \<and> CHR ''%'' \<notin> set q) (snd (parse_template t))"
    using assms(1) by (auto simp: plain_verbs_def list_all_iff)
  then show ?thesis
    using sprintf_template [of "fst (parse_template t)" "snd (parse_template t)" args] assms by (simp add: plain_verbs_def template_parse)
qed

lemma catalog_plain_verbs: "list_all (\<lambda>(k, m). plain_verbs (Description m)) messagesEn"
  by (simp add: messagesEn_defs plain_verbs_def)

text \<open>The error GetCSIError returns for a code of the catalogue.\<close>

lemma GetCSIError_result:
  assumes "status_contract S code_of text_of" and "code \<in> set reason_codes"
  shows "\<exists>m e. map_of InitMessages code = Some m \<and> snd (GetCSIError S InitMessages code req err args) = Some e
    \<and> code_of e = Type m
    \<and> text_of e = ''{RequestID: '' @ req @ '', Code: '' @ Code m @ '', Description: ''
         @ (if args = [] then Description m else sprintf (Description m) args)
         @ (case err of None \<Rightarrow> [] | Some c \<Rightarrow> if error_text c = [] then [] else '', Error: '' @ error_text c)
         @ '', Action: '' @ Action m @ ''}''
    \<and> fst (GetCSIError S InitMessages code req err args) = LogError ''FAILED CSI ERROR'' (text_of e)"
proof -
  obtain m where m: "map_of messagesEn code = Some m" "map_read zero_Message messagesEn code = m"
    "Type m \<noteq> OK" "BackendError m = []" "CSIError m = []"
    using assms(2) by (rule catalog_lookup)
  obtain e where e: "S (Type m) (Info (csi_message messagesEn code req err args)) = Some e"
    "code_of e = Type m" "text_of e = Info (csi_message messagesEn code req err args)"
    using status_contractD(2) [OF assms(1) m(3)] by blast
  show ?thesis
    using m(1) e by (intro exI [of _ m] exI [of _ e])
      (simp add: InitMessages_def GetCSIError_eq m(2) Info_csi_message [OF m(2,4,5)])
qed

text \<open>The first two parts of the text of an error, between its commas.\<close>

lemma error_text_split:
  assumes "CHR '','' \<notin> set req" and "CHR '','' \<notin> set c"
  shows "strings_Split (''{RequestID: '' @ req @ '', Code: '' @ c @ '', Description: '' @ t) (CHR '','') =
    (''{RequestID: '' @ req) # ('' Code: '' @ c) # strings_Split ('' Description: '' @ t) (CHR '','')"
proof -
  have "strings_Split ((''{RequestID: '' @ req) @ CHR '','' # ('' Code: '' @ c) @ CHR '','' # '' Description: '' @ t) (CHR '','') =
    (''{RequestID: '' @ req) # ('' Code: '' @ c) # strings_Split ('' Description: '' @ t) (CHR '','')"
    using assms by (subst strings_Split_append, simp, subst strings_Split_append) simp_all
  then show ?thesis by simp
qed

section \<open>Properties\<close>

text \<open>C23: the catalogue is complete and well formed: it has exactly one entry for each of the 54
  reason codes and no other key, every entry has a status other than OK, and the Code of an
  entry is its key, except that ProfileNotAllowlisted carries the code FailedPrecondition.\<close>

theorem catalogue_complete:
  "distinct (map fst InitMessages) \<and> set (map fst InitMessages) = set reason_codes
   \<and> length InitMessages = 54
   \<and> list_all (\<lambda>(k, m). Type m \<noteq> OK \<and> Action m \<noteq> [] \<and> Description m \<noteq> []
        \<and> Code m = (if k = ProfileNotAllowlisted then FailedPrecondition else k)) InitMessages"
proof (intro conjI)
  show "list_all (\<lambda>(k, m). Type m \<noteq> OK \<and> Action m \<noteq> [] \<and> Description m \<noteq> []
        \<and> Code m = (if k = ProfileNotAllowlisted then FailedPrecondition else k)) InitMessages"
    by (simp add: InitMessages_def messagesEn_defs reason_code_defs)
  show "length InitMessages = 54" by (simp add: InitMessages_def messagesEn_defs)
qed (simp_all only: InitMessages_def catalog_keys_distinct catalog_keys)

text \<open>C21: for every reason code, GetCSIError returns an error whose gRPC code is the one of the
  catalogue and whose message gives the request, the code, the formatted description, the
  cause if there is one, and the action; the same text is logged.\<close>

theorem GetCSIError_reports:
  assumes "status_contract S code_of text_of" and "code \<in> set reason_codes"
  shows "\<exists>m e. map_of InitMessages code = Some m \<and> snd (GetCSIError S InitMessages code req err args) = Some e
    \<and> code_of e = Type m
    \<and> text_of e = ''{RequestID: '' @ req @ '', Code: '' @ Code m @ '', Description: ''
         @ (if args = [] then Description m else sprintf (Description m) args)
         @ (case err of None \<Rightarrow> [] | Some c \<Rightarrow> if error_text c = [] then [] else '', Error: '' @ error_text c)
         @ '', Action: '' @ Action m @ ''}''
    \<and> fst (GetCSIError S InitMessages code req err args) = LogError ''FAILED CSI ERROR'' (text_of e)"
  by (rule GetCSIError_result [OF assms])

theorem GetCSIError_reports_witness:
  "snd (GetCSIError pair_status InitMessages EmptyVolumeID ''42'' None []) \<noteq> None"
proof -
  have "EmptyVolumeID \<in> set reason_codes" by (simp add: reason_codes_def)
  from GetCSIError_reports [OF pair_status_contract this, of "''42''" None "[]"]
  show ?thesis by auto
qed

text \<open>C24: a code that is not in the catalogue, and every code while MessagesEn is still the nil map,
  makes GetCSIError return the nil error: the failure it was asked to report is reported to
  the CSI caller as success.\<close>

theorem GetCSIError_unknown_code_is_nil:
  assumes "status_contract S code_of text_of"
  shows "(code \<notin> set reason_codes \<longrightarrow> snd (GetCSIError S InitMessages code req err args) = None)
    \<and> snd (GetCSIError S initial_MessagesEn code req err args) = None"
  using status_contractD(1) [OF assms]
  by (simp add: initial_MessagesEn_def GetCSIError_eq InitMessages_def catalog_missing)

theorem GetCSIError_unknown_code_is_nil_witness:
  "snd (GetCSIError pair_status initial_MessagesEn InternalError ''42'' (Some (GoError ''disk lost'')) []) = None"
  using GetCSIError_unknown_code_is_nil [OF pair_status_contract] by blast

text \<open>C22: GetCSIBackendError always returns an error; its code is Internal exactly when the backend's
  text, with its spaces removed, contains RC:5, and InvalidArgument otherwise (also when
  there is no backend error); a non-empty backend text is quoted in the message unchanged.\<close>

theorem GetCSIBackendError_classifies:
  assumes "status_contract S code_of text_of"
  shows "\<exists>e. snd (GetCSIBackendError S InitMessages req err args) = Some e
    \<and> code_of e = (case err of None \<Rightarrow> InvalidArgument
        | Some c \<Rightarrow> if sublist ''RC:5'' (filter (\<lambda>x. x \<noteq> CHR '' '') (error_text c)) then Internal
                    else InvalidArgument)
    \<and> (\<forall>c. err = Some c \<longrightarrow> error_text c \<noteq> [] \<longrightarrow>
        (\<exists>action. text_of e = ''{RequestID: '' @ req @ '', BackendError: '' @ error_text c
           @ '', Action: '' @ action @ ''}''))"
proof -
  let ?ty = "Type (map_read zero_Message messagesEn (backend_code err))"
  have ty: "?ty = (case err of None \<Rightarrow> InvalidArgument
        | Some c \<Rightarrow> if sublist ''RC:5'' (filter (\<lambda>x. x \<noteq> CHR '' '') (error_text c)) then Internal
                    else InvalidArgument)"
    by (simp add: backend_code_def catalog_InternalError catalog_InvalidParameters split: option.splits)
  then have "?ty \<noteq> OK" by (auto split: option.splits)
  then obtain e where e: "S ?ty (Info (backend_message messagesEn req err args)) = Some e" "code_of e = ?ty"
    "text_of e = Info (backend_message messagesEn req err args)"
    using status_contractD(2) [OF assms] by blast
  have "\<exists>action. text_of e = ''{RequestID: '' @ req @ '', BackendError: '' @ error_text c @ '', Action: '' @ action @ ''}''"
    if "err = Some c" "error_text c \<noteq> []" for c
    using that by (auto simp: e(3) Info_backend backend_message_def)
  with e ty show ?thesis by (intro exI [of _ e]) (simp add: GetCSIBackendError_eq InitMessages_def)
qed

theorem GetCSIBackendError_classifies_witness:
  "\<exists>e. snd (GetCSIBackendError pair_status InitMessages ''42'' (Some (GoError ''Code:X, RC: 500 Oops'')) []) = Some e
    \<and> fst e = Internal"
  using GetCSIBackendError_classifies [OF pair_status_contract, of "''42''" "Some (GoError ''Code:X, RC: 500 Oops'')" "[]"]
  by (auto simp: sublist_Cons_right)

text \<open>Given one argument per verb of its description, GetCSIMessage of a reason code returns the
  catalogue's entry with every \<open>%s\<close> and \<open>%q\<close> replaced by its argument and everything else
  unchanged; given no arguments it leaves the verbs in the description as they are.\<close>

lemma GetCSIMessage_fills_description:
  assumes "map_of InitMessages code = Some m" and "parse_template (Description m) = (p, vs)"
    and "length args = length vs"
  shows "GetCSIMessage InitMessages code args = m\<lparr>Description := filled p vs args\<rparr>
    \<and> GetCSIMessage InitMessages code [] = m"
proof -
  have m: "map_read zero_Message messagesEn code = m" "(code, m) \<in> set messagesEn"
    using assms(1) by (auto simp: map_read_def InitMessages_def dest: map_of_SomeD)
  then have "plain_verbs (Description m)" using catalog_plain_verbs by (auto simp: list_all_iff)
  from sprintf_plain_verbs [OF this, of args] have f: "sprintf (Description m) args = filled p vs args"
    using assms(2,3) by simp
  show ?thesis
  proof (cases args)
    case Nil
    then have "Description m = p" using assms(2,3) template_parse [of "Description m"] by simp
    then show ?thesis using Nil assms(3) m(1) by (simp add: GetCSIMessage_def InitMessages_def)
  next
    case (Cons a as)
    then show ?thesis using f m(1) by (simp add: GetCSIMessage_def InitMessages_def)
  qed
qed

lemma GetCSIMessage_fills_description_witness:
  "Description (GetCSIMessage InitMessages UnmountFailed [string_arg ''/mnt/a''])
     = ''Unmount failed for '/mnt/a' target path''"
proof -
  let ?m = "entry UnmountFailed ''Unmount failed for '%s' target path'' Internal
     ''Please check if there is any error in POD describe related with volume detach''"
  have "map_of InitMessages UnmountFailed = Some ?m"
    by (simp add: InitMessages_def messagesEn_defs reason_code_defs)
  moreover have "parse_template (Description ?m) =
      (''Unmount failed for '' @ [CHR 0x27], [(CHR ''s'', ''' target path'')])"
    by simp
  ultimately have "GetCSIMessage InitMessages UnmountFailed [string_arg ''/mnt/a'']
      = ?m\<lparr>Description := filled (''Unmount failed for '' @ [CHR 0x27]) [(CHR ''s'', ''' target path'')]
          [string_arg ''/mnt/a'']\<rparr>"
    using GetCSIMessage_fills_description [of UnmountFailed ?m _ _ "[string_arg ''/mnt/a'']"] by auto
  then show ?thesis by simp
qed

text \<open>The text of an error can be taken apart again: for a request ID without commas, the parts of
  the text between its commas begin with the request ID and the code of the catalogue entry,
  and the code is one of the catalogue's; so errors of different requests or of entries with
  different codes never read the same.\<close>

lemma GetCSIError_text_parses:
  assumes "status_contract S code_of text_of" and "code \<in> set reason_codes" and "CHR '','' \<notin> set req"
  shows "\<exists>m e rest. map_of InitMessages code = Some m \<and> snd (GetCSIError S InitMessages code req err args) = Some e
    \<and> strings_Split (text_of e) (CHR '','') = (''{RequestID: '' @ req) # ('' Code: '' @ Code m) # rest
    \<and> strings_Join ((''{RequestID: '' @ req) # ('' Code: '' @ Code m) # rest) (CHR '','') = text_of e"
proof -
  obtain m e where m: "map_of InitMessages code = Some m" and e: "snd (GetCSIError S InitMessages code req err args) = Some e"
    and t: "\<exists>t. text_of e = ''{RequestID: '' @ req @ '', Code: '' @ Code m @ '', Description: '' @ t"
    using GetCSIError_result [OF assms(1,2), of req err args] by (elim exE conjE) (simp only:, blast)
  have "CHR '','' \<notin> set (Code m)"
    using map_of_SomeD [OF m] catalog_codes by (auto simp: InitMessages_def list_all_iff)
  then obtain rest where split: "strings_Split (text_of e) (CHR '','') = (''{RequestID: '' @ req) # ('' Code: '' @ Code m) # rest"
    using t error_text_split [OF assms(3)] by metis
  then show ?thesis using m e strings_Join_Split [of "text_of e" "CHR '',''"] by metis
qed

lemma GetCSIError_text_parses_witness:
  "\<exists>e rest. snd (GetCSIError pair_status InitMessages EmptyVolumeID ''42 '' None []) = Some e
     \<and> strings_Split (snd e) (CHR '','') = ''{RequestID: 42 '' # '' Code: EmptyVolumeID'' # rest"
proof -
  have code: "EmptyVolumeID \<in> set reason_codes" by (simp add: reason_codes_def)
  have "map_of InitMessages EmptyVolumeID = Some m \<Longrightarrow> Code m = ''EmptyVolumeID''" for m
    by (auto simp: InitMessages_def messagesEn_defs reason_code_defs)
  with GetCSIError_text_parses [OF pair_status_contract code, of "''42 ''" None "[]"] show ?thesis by auto
qed

end
