(* ===== verification/CloudProvider.thy ===== *)
theory CloudProvider
  imports Prelude
begin

text \<open>
  Package ibmcloudprovider: the interface CloudProviderInterface as a record of methods with
  its contract as a locale, and the fake provider of fake\_volume\_provider.go, which implements
  it. The configuration and the session belong to the volume library; only the fields the source
  reads are here.
\<close>

section \<open>Configuration\<close>

record VPCProviderConfig =
  VPCBlockProviderType :: string
  VPCBlockProviderName :: string

text \<open>A pointer is an option, \<open>None\<close> for nil.\<close>

record Config =
  VPC :: "VPCProviderConfig option"

section \<open>ibm\_volume\_provider.go\<close>

text \<open>The methods of the interface, over the receiver \<open>'p\<close> of an implementation.\<close>

record ('p, 'sess) CloudProviderInterface =
  iface_GetProviderSession :: "'p \<Rightarrow> 'sess option go_result"
  iface_GetConfig :: "'p \<Rightarrow> Config option"
  iface_GetClusterID :: "'p \<Rightarrow> string"

text \<open>
  What the watcher relies on, for the providers that are \<open>valid\<close>: a nil session comes with an
  error, and the configuration has its VPC part.
\<close>

locale cloud_provider =
  fixes methods :: "('p, 'sess) CloudProviderInterface"
    and valid :: "'p \<Rightarrow> bool"
  assumes session_or_error: "valid p \<Longrightarrow> iface_GetProviderSession methods p \<noteq> (None, None)"
    and config_vpc: "valid p \<Longrightarrow> Option.bind (iface_GetConfig methods p) VPC \<noteq> None"
begin

lemma vpc_exists:
  assumes "valid p"
  obtains c v where "iface_GetConfig methods p = Some c" and "VPC c = Some v"
  using config_vpc [OF assms] by (cases "iface_GetConfig methods p") auto

end

section \<open>fake\_volume\_provider.go\<close>

definition TestProviderAccountID :: string where "TestProviderAccountID = ''test-provider-account''"
definition TestProviderAccessToken :: string where "TestProviderAccessToken = ''test-provider-access-token''"
definition TestIKSAccountID :: string where "TestIKSAccountID = ''test-iks-account''"
definition TestZone :: string where "TestZone = ''test-zone''"
definition IAMURL :: string where "IAMURL = ''test-iam-url''"
definition IAMClientID :: string where "IAMClientID = ''test-iam_client_id''"
definition IAMClientSecret :: string where "IAMClientSecret = ''test-iam_client_secret''"
definition IAMAPIKey :: string where "IAMAPIKey = ''test-iam_api_key''"
definition RefreshToken :: string where "RefreshToken = ''test-refresh_token''"
definition TestEndpointURL :: string where "TestEndpointURL = ''http://some_endpoint''"
definition TestAPIVersion :: string where "TestAPIVersion = ''2019-07-02''"

record 'sess FakeIBMCloudStorageProvider =
  ProviderName :: string
  ProviderConfig :: "Config option"
  ClusterID_of :: string
  fakeSession :: 'sess

text \<open>\<open>new_session\<close> is the empty fake session of the volume library.\<close>

definition NewFakeIBMCloudStorageProvider :: "'sess \<Rightarrow> string \<Rightarrow> 'sess FakeIBMCloudStorageProvider go_result" where
  "NewFakeIBMCloudStorageProvider new_session configPath =
     (\<lparr>ProviderName = ''FakeIBMCloudStorageProvider'',
       ProviderConfig = Some \<lparr>VPC = Some \<lparr>VPCBlockProviderType = [], VPCBlockProviderName = ''VPCFakeProvider''\<rparr>\<rparr>,
       ClusterID_of = ''fake-clusterID'', fakeSession = new_session\<rparr>, None)"

definition fake_GetProviderSession :: "'sess FakeIBMCloudStorageProvider \<Rightarrow> 'sess option go_result" where
  "fake_GetProviderSession ficp = (Some (fakeSession ficp), None)"

definition fake_GetConfig :: "'sess FakeIBMCloudStorageProvider \<Rightarrow> Config option" where
  "fake_GetConfig ficp = ProviderConfig ficp"

definition fake_GetClusterID :: "'sess FakeIBMCloudStorageProvider \<Rightarrow> string" where
  "fake_GetClusterID ficp = ClusterID_of ficp"

text \<open>The fake as a value of the interface.\<close>

definition FakeIBMCloudStorageProvider_impl :: "('sess FakeIBMCloudStorageProvider, 'sess) CloudProviderInterface" where
  "FakeIBMCloudStorageProvider_impl =
     \<lparr>iface_GetProviderSession = fake_GetProviderSession, iface_GetConfig = fake_GetConfig,
      iface_GetClusterID = fake_GetClusterID\<rparr>"

lemma fake_methods [simp]:
  "iface_GetProviderSession FakeIBMCloudStorageProvider_impl = fake_GetProviderSession"
  "iface_GetConfig FakeIBMCloudStorageProvider_impl = fake_GetConfig"
  "iface_GetClusterID FakeIBMCloudStorageProvider_impl = fake_GetClusterID"
  by (simp_all add: FakeIBMCloudStorageProvider_impl_def)

interpretation fake_provider: cloud_provider FakeIBMCloudStorageProvider_impl
  "\<lambda>p. Option.bind (ProviderConfig p) VPC \<noteq> None"
  by unfold_locales (simp_all add: fake_GetProviderSession_def fake_GetConfig_def)

end
