(* ===== verification/Logger.thy ===== *)
theory Logger
  imports Prelude
begin

text \<open>
  Package utils, logger.go: the logger of a request. zap's tee hands a record to every core
  whose level enabler accepts it; what is written is a sink, a level, a message and the
  RequestID field. The generator of request IDs is a parameter that may fail, in which case
  it gives the text of the nil UUID.
\<close>

section \<open>Levels\<close>

text \<open>The levels of zapcore, in their order.\<close>

datatype log_level =
  DebugLevel | InfoLevel | WarnLevel | ErrorLevel | DPanicLevel | PanicLevel | FatalLevel

fun level_rank :: "log_level \<Rightarrow> int" where
  "level_rank DebugLevel = -1"
| "level_rank InfoLevel = 0"
| "level_rank WarnLevel = 1"
| "level_rank ErrorLevel = 2"
| "level_rank DPanicLevel = 3"
| "level_rank PanicLevel = 4"
| "level_rank FatalLevel = 5"

lemma level_rank_inj: "level_rank a = level_rank b \<Longrightarrow> a = b"
  by (cases a; cases b) simp_all

instantiation log_level :: linorder
begin

definition less_eq_log_level :: "log_level \<Rightarrow> log_level \<Rightarrow> bool" where
  "less_eq_log_level a b \<longleftrightarrow> level_rank a \<le> level_rank b"

definition less_log_level :: "log_level \<Rightarrow> log_level \<Rightarrow> bool" where
  "less_log_level a b \<longleftrightarrow> level_rank a < level_rank b"

instance
  by standard (auto simp: less_eq_log_level_def less_log_level_def intro: level_rank_inj)

end

lemmas level_defs = less_eq_log_level_def less_log_level_def

section \<open>logger.go\<close>

datatype sink = Stdout | Stderr

record context_logger =
  traceLevel :: log_level
  logger_fields :: "(string \<times> string) list"

definition stdout_enabler :: "log_level \<Rightarrow> log_level \<Rightarrow> bool" where
  "stdout_enabler trace lvl \<longleftrightarrow> lvl \<ge> trace \<and> lvl < ErrorLevel"

definition stderr_enabler :: "log_level \<Rightarrow> bool" where
  "stderr_enabler lvl \<longleftrightarrow> lvl \<ge> ErrorLevel"

definition GetContextLoggerWithRequestID ::
  "string \<times> go_error option \<Rightarrow> bool \<Rightarrow> string option \<Rightarrow> context_logger \<times> string" where
  "GetContextLoggerWithRequestID NewV4 isDebug requestIDIn =
     (let trace = (if isDebug then DebugLevel else InfoLevel);
          requestID = (case requestIDIn of None \<Rightarrow> fst NewV4 | Some r \<Rightarrow> r)
      in (\<lparr>traceLevel = trace, logger_fields = [(''RequestID'', requestID)]\<rparr>, requestID @ '' ''))"

definition GetContextLogger :: "string \<times> go_error option \<Rightarrow> bool \<Rightarrow> context_logger \<times> string" where
  "GetContextLogger NewV4 isDebug = GetContextLoggerWithRequestID NewV4 isDebug None"

text \<open>A call of the logger: the tee of the two cores.\<close>

definition log_write ::
  "context_logger \<Rightarrow> log_level \<Rightarrow> string \<Rightarrow> (sink \<times> log_level \<times> string \<times> (string \<times> string) list) list" where
  "log_write lg lvl msg =
     (if stdout_enabler (traceLevel lg) lvl then [(Stdout, lvl, msg, logger_fields lg)] else [])
     @ (if stderr_enabler lvl then [(Stderr, lvl, msg, logger_fields lg)] else [])"

section \<open>Properties\<close>

text \<open>The logger of a request writes every record at most once and never to both outputs: records
  from error level on go to the standard error output, those below it to the standard
  output, and only debug records are dropped, unless isDebug is set; every record written
  carries the request ID passed in, or the new one, and the ID returned is that ID and a
  space.\<close>

lemma context_logger_routes:
  "case GetContextLoggerWithRequestID uuid isDebug idIn of (lg, rid) \<Rightarrow>
     log_write lg lvl msg =
       (if lvl = DebugLevel \<and> \<not> isDebug then []
        else [(if lvl \<ge> ErrorLevel then Stderr else Stdout, lvl, msg,
               [(''RequestID'', case idIn of None \<Rightarrow> fst uuid | Some r \<Rightarrow> r)])])
     \<and> rid = (case idIn of None \<Rightarrow> fst uuid | Some r \<Rightarrow> r) @ '' ''"
  by (cases lvl) (auto simp: GetContextLoggerWithRequestID_def log_write_def stdout_enabler_def
      stderr_enabler_def level_defs Let_def)

end
