(* ===== verification/Sizes.thy ===== *)
theory Sizes
  imports Prelude
begin

text \<open>
  Package utils, the pure part: the size constants and labels of constants.go and the
  volume-size arithmetic and list search of utils.go. Sizes are int64 words, so that the
  addition in roundUpSize wraps as it does in the code.
\<close>

section \<open>constants.go\<close>

definition GiB :: int64 where
  "GiB = 1024 * 1024 * 1024"

definition MinimumVolumeSizeInBytes :: int64 where
  "MinimumVolumeSizeInBytes = 10 * GiB"

definition MaximumVolumeSizeInBytes :: int64 where
  "MaximumVolumeSizeInBytes = 2 * 1024 * GiB"

definition MinimumVolumeDiskSizeInGb :: int64 where
  "MinimumVolumeDiskSizeInGb = 10"

definition MaximumVolumeDiskSizeInGb :: int64 where
  "MaximumVolumeDiskSizeInGb = 2048"

definition DefaultVolumeDiskSizeinGb :: int64 where
  "DefaultVolumeDiskSizeinGb = 10"

definition MaxRetryAttemptForSessions :: int64 where
  "MaxRetryAttemptForSessions = 2"

text \<open>\<open>KB = 1 << (10 * iota)\<close> and the constants that repeat its expression.\<close>

definition iota_size :: "nat \<Rightarrow> int64" where
  "iota_size iota = push_bit (10 * iota) 1"

definition KB :: int64 where "KB = iota_size 1"
definition MB :: int64 where "MB = iota_size 2"
definition GB :: int64 where "GB = iota_size 3"
definition TB :: int64 where "TB = iota_size 4"

definition ClusterInfoPath :: string where "ClusterInfoPath = ''cluster_info/cluster-config.json''"
definition NodeZoneLabel :: string where "NodeZoneLabel = ''failure-domain.beta.kubernetes.io/zone''"
definition NodeRegionLabel :: string where "NodeRegionLabel = ''failure-domain.beta.kubernetes.io/region''"
definition NodeInstanceIDLabel :: string where "NodeInstanceIDLabel = ''ibm-cloud.kubernetes.io/vpc-instance-id''"
definition MachineTypeLabel :: string where "MachineTypeLabel = ''ibm-cloud.kubernetes.io/machine-type''"
definition UPI :: string where "UPI = ''upi''"
definition VolumeIDLabel :: string where "VolumeIDLabel = ''volumeId''"
definition VolumeCRNLabel :: string where "VolumeCRNLabel = ''volumeCRN''"
definition ClusterIDLabel :: string where "ClusterIDLabel = ''clusterID''"
definition IOPSLabel :: string where "IOPSLabel = ''iops''"
definition ZoneLabel :: string where "ZoneLabel = ''zone''"
definition ConfigFileName :: string where "ConfigFileName = ''slclient.toml''"

lemmas node_label_defs = NodeZoneLabel_def NodeRegionLabel_def NodeInstanceIDLabel_def MachineTypeLabel_def

section \<open>cluster\_info.go\<close>

record ClusterInfo =
  ClusterID :: string
  ClusterName :: string
  DataCenter :: string
  CustomerID :: string

section \<open>utils.go: sizes\<close>

definition roundUpSize :: "int64 \<Rightarrow> int64 \<Rightarrow> int64 can_panic" where
  "roundUpSize volumeSizeBytes allocationUnitBytes =
     int64_div (volumeSizeBytes + allocationUnitBytes - 1) allocationUnitBytes"

definition RoundUpBytes :: "int64 \<Rightarrow> int64 can_panic" where
  "RoundUpBytes volumeSizeBytes =
     bind_panic (roundUpSize volumeSizeBytes GiB) (\<lambda>q. Inr (q * GiB))"

text \<open>The quotient is converted to int, which has 64 bits on the platforms of the driver.\<close>

definition BytesToGiB :: "int64 \<Rightarrow> int64 can_panic" where
  "BytesToGiB volumeSizeBytes = int64_div volumeSizeBytes GiB"

text \<open>The loop stops at the first element equal to the string looked for.\<close>

fun contains_loop :: "string list \<Rightarrow> string \<Rightarrow> bool" where
  "contains_loop [] subStr = False"
| "contains_loop (str # mainStr) subStr = (if str = subStr then True else contains_loop mainStr subStr)"

definition ListContainsSubstr :: "string list \<Rightarrow> string \<Rightarrow> bool" where
  "ListContainsSubstr mainStr subStr =
     (if length subStr < 1 then False else contains_loop mainStr subStr)"

text \<open>os.Getenv of the upper-cased key: the environment is a map, an unset variable reads empty.\<close>

definition getEnv :: "(string \<Rightarrow> string) \<Rightarrow> string go_map \<Rightarrow> string \<Rightarrow> string" where
  "getEnv uni env key = map_read [] env (strings_ToUpper uni key)"

section \<open>utils.go: CSI capability constructors\<close>

text \<open>
  The messages of the CSI library are the nested structures the source builds; the enum a
  capability holds is a type parameter.
\<close>

record 'm AccessMode = Mode :: 'm
record 't CapabilityRPC = RPCType :: 't
datatype 't ServiceCapability = Capability_Rpc (GetRpc: "'t CapabilityRPC")

definition NewVolumeCapabilityAccessMode :: "'m \<Rightarrow> 'm AccessMode" where
  "NewVolumeCapabilityAccessMode mode = \<lparr>Mode = mode\<rparr>"

definition NewControllerServiceCapability :: "'t \<Rightarrow> 't ServiceCapability" where
  "NewControllerServiceCapability cap = Capability_Rpc \<lparr>RPCType = cap\<rparr>"

definition NewNodeServiceCapability :: "'t \<Rightarrow> 't ServiceCapability" where
  "NewNodeServiceCapability cap = Capability_Rpc \<lparr>RPCType = cap\<rparr>"

section \<open>Facts\<close>

lemma sint_GiB: "sint GiB = 1073741824"
  by (simp add: GiB_def)

lemma GiB_nonzero: "GiB \<noteq> 0"
  by (simp add: GiB_def)

lemma sdiv_nonneg: "0 \<le> a \<Longrightarrow> 0 < b \<Longrightarrow> a sdiv b = a div (b :: int)"
  by (cases "a = 0") (simp_all add: signed_divide_int_def)

lemma div_GiB_bounds:
  assumes "- (2 ^ 63) \<le> x" and "x < 2 ^ 63"
  shows "- (2 ^ 63) \<le> x sdiv 1073741824" and "x sdiv 1073741824 < (2 ^ 63 :: int)"
  using assms by (auto simp: signed_divide_int_def sgn_if)

lemma int64_div_GiB:
  "int64_div v GiB = Inr (word_of_int (sint v sdiv sint GiB))"
  "sint (word_of_int (sint v sdiv sint GiB) :: int64) = sint v sdiv sint GiB"
proof -
  show "int64_div v GiB = Inr (word_of_int (sint v sdiv sint GiB))"
    by (simp add: int64_div_def GiB_nonzero)
  show "sint (word_of_int (sint v sdiv sint GiB) :: int64) = sint v sdiv sint GiB"
    using sint_int64_bounds [of v] div_GiB_bounds [of "sint v"]
    by (intro sint_word_of_int_64) (simp_all add: sint_GiB)
qed

text \<open>While the sum fits, the code's quotient is the ceiling and the product does not wrap.\<close>

lemma RoundUpBytes_fits:
  assumes "0 \<le> sint v" and "sint v + sint GiB \<le> 2 ^ 63"
  obtains r where "RoundUpBytes v = Inr r"
    and "sint r = (sint v + sint GiB - 1) div sint GiB * sint GiB"
proof -
  let ?s = "sint v + sint GiB - 1" and ?G = "sint GiB"
  have s: "sint (v + GiB - 1) = ?s"
  proof -
    have "sint (GiB - 1) = ?G - 1" by (simp add: GiB_def)
    then have "sint (v + (GiB - 1)) = sint v + (?G - 1)"
      using assms sint_add_64 [of v "GiB - 1"] by (simp add: sint_GiB)
    then show ?thesis by (simp only: add_diff_eq)
  qed
  let ?q = "word_of_int (?s sdiv ?G) :: int64"
  have q: "sint ?q = ?s div ?G"
    using int64_div_GiB(2) [of "v + GiB - 1"] assms by (simp add: s sdiv_nonneg sint_GiB)
  have "?s div ?G * ?G \<le> ?s" by (simp add: sint_GiB)
  moreover have "0 \<le> ?s div ?G * ?G" using assms by (simp add: sint_GiB)
  ultimately have "sint (?q * GiB) = ?s div ?G * ?G"
    using assms sint_mult_64 [of ?q GiB] by (simp add: q)
  moreover have "RoundUpBytes v = Inr (?q * GiB)"
    by (simp add: RoundUpBytes_def roundUpSize_def int64_div_GiB(1) s)
  ultimately show thesis by (rule that [rotated])
qed

lemma ceil_mult:
  fixes x G :: int
  assumes "0 < G"
  shows "x \<le> (x + G - 1) div G * G"
    and "(x + G - 1) div G * G < x + G"
    and "x \<le> k * G \<Longrightarrow> (x + G - 1) div G \<le> k"
proof -
  let ?q = "(x + G - 1) div G" and ?m = "(x + G - 1) mod G"
  have eq: "?q * G + ?m = x + G - 1" by simp
  have m: "0 \<le> ?m" "?m < G" using assms by simp_all
  show "x \<le> ?q * G" using eq m by linarith
  show "?q * G < x + G" using eq m by linarith
  assume "x \<le> k * G"
  then have "?q * G < k * G + G" using eq m by linarith
  also have "\<dots> = (k + 1) * G" by (simp add: distrib_right)
  finally have "?q * G < (k + 1) * G" .
  then show "?q \<le> k" using assms by simp
qed

lemmas ceil_GiB = ceil_mult [where G = "1073741824 :: int", simplified]

lemma ceil_of_multiple:
  fixes c G :: int
  assumes "0 < G"
  shows "(c * G + G - 1) div G = c"
proof -
  have "(c * G + G - 1) div G = (G - 1 + c * G) div G" by (simp add: algebra_simps)
  also have "\<dots> = c + (G - 1) div G" using assms by simp
  finally show ?thesis using assms by simp
qed

lemma contains_loop_iff: "contains_loop xs s \<longleftrightarrow> s \<in> set xs"
  by (induction xs) auto

section \<open>Properties\<close>

text \<open>For a size of at least 0 whose sum with GiB still fits an int64, RoundUpBytes
  returns the least multiple of GiB that is not below the size, less than one GiB above it.\<close>

lemma RoundUpBytes_least_multiple:
  assumes "0 \<le> sint v" and "sint v + sint GiB \<le> 2 ^ 63"
  shows "\<exists>r. RoundUpBytes v = Inr r \<and> sint GiB dvd sint r \<and> sint v \<le> sint r
    \<and> sint r < sint v + sint GiB \<and> (\<forall>k. sint v \<le> k * sint GiB \<longrightarrow> sint r \<le> k * sint GiB)"
proof -
  obtain r where r: "RoundUpBytes v = Inr r" "sint r = (sint v + sint GiB - 1) div sint GiB * sint GiB"
    using RoundUpBytes_fits [OF assms] .
  have G: "0 < sint GiB" by (simp add: sint_GiB)
  show ?thesis
    using r ceil_mult [OF G, of "sint v"] G by (auto intro!: mult_right_mono)
qed

lemma RoundUpBytes_least_multiple_witness:
  "\<exists>r. RoundUpBytes 1024 = Inr r \<and> sint GiB dvd sint r \<and> sint (1024 :: int64) \<le> sint r
    \<and> sint r < sint (1024 :: int64) + sint GiB"
  using RoundUpBytes_least_multiple [of 1024] by (auto simp: sint_GiB)

text \<open>RoundUpSize does not check for overflow although its comment says so: for every size
  within one GiB of the largest int64 the sum wraps, and RoundUpBytes returns a negative size.\<close>

lemma RoundUpBytes_overflows:
  assumes "2 ^ 63 < sint v + sint GiB"
  shows "\<exists>r. RoundUpBytes v = Inr r \<and> sint r < 0"
proof -
  let ?x = "sint v + sint GiB - 1 - 2 ^ 64"
  have b: "sint v < 2 ^ 63" by (rule sint_int64_bounds)
  have "v + GiB - 1 = word_of_int ?x"
  proof -
    have "word_of_int ?x = word_of_int (sint v) + word_of_int (sint GiB) - 1 - (word_of_int (2 ^ 64) :: int64)"
      by simp
    also have "word_of_int (2 ^ 64) = (0 :: int64)" by simp
    finally show ?thesis by simp
  qed
  moreover have "sint (word_of_int ?x :: int64) = ?x"
    using assms b by (intro sint_word_of_int_64) (simp_all add: sint_GiB)
  ultimately have s: "sint (v + GiB - 1) = ?x" by (simp only:)
  let ?q = "word_of_int (?x sdiv sint GiB) :: int64"
  have q: "sint ?q = ?x sdiv sint GiB" using int64_div_GiB(2) [of "v + GiB - 1"] by (simp add: s)
  have neg: "- 8589934592 \<le> ?x sdiv sint GiB" "?x sdiv sint GiB < 0"
    using assms b by (auto simp: sint_GiB signed_divide_int_def sgn_if)
  then have "- (2 ^ 63) \<le> sint ?q * sint GiB" "sint ?q * sint GiB < 2 ^ 63"
    by (simp_all only: q) (simp_all add: sint_GiB)
  then have "sint (?q * GiB) = ?x sdiv sint GiB * sint GiB"
    by (simp only: sint_mult_64 q)
  moreover have "RoundUpBytes v = Inr (?q * GiB)"
    by (simp add: RoundUpBytes_def roundUpSize_def int64_div_GiB(1) s)
  ultimately show ?thesis using neg by (simp add: sint_GiB)
qed

lemma RoundUpBytes_overflows_witness:
  "\<exists>r. RoundUpBytes 9223372036854775807 = Inr r \<and> sint r < 0"
  by (rule RoundUpBytes_overflows) (simp add: sint_GiB)

text \<open>C32: RoundUpBytes on every size of at least 0: while the size plus GiB fits an int64, the result
  is the least multiple of GiB that is not below the size, less than one GiB above it; beyond
  that the sum wraps, and the result is a negative size instead of an error.\<close>

theorem RoundUpBytes_outcome:
  assumes "0 \<le> sint v"
  shows "\<exists>r. RoundUpBytes v = Inr r
    \<and> (if sint v + sint GiB \<le> 2 ^ 63
       then sint GiB dvd sint r \<and> sint v \<le> sint r \<and> sint r < sint v + sint GiB
         \<and> (\<forall>k. sint v \<le> k * sint GiB \<longrightarrow> sint r \<le> k * sint GiB)
       else sint r < 0)"
  using RoundUpBytes_least_multiple [OF assms] RoundUpBytes_overflows [of v]
  by (cases "sint v + sint GiB \<le> 2 ^ 63") auto

theorem RoundUpBytes_outcome_witness:
  "(\<exists>r. RoundUpBytes 1024 = Inr r \<and> sint GiB dvd sint r \<and> sint (1024 :: int64) \<le> sint r)
   \<and> (\<exists>r. RoundUpBytes 9223372036854775807 = Inr r \<and> sint r < 0)"
  using RoundUpBytes_outcome [of 1024] RoundUpBytes_outcome [of 9223372036854775807]
  by (auto simp: sint_GiB)

text \<open>A size the driver accepts (between the minimum and maximum volume size) is rounded up
  to a size that is still accepted, that BytesToGiB converts to a number of GiB between the
  minimum and maximum disk size without losing a byte, and that a second rounding leaves alone.\<close>

lemma RoundUpBytes_accepted_range:
  assumes "sint MinimumVolumeSizeInBytes \<le> sint v" and "sint v \<le> sint MaximumVolumeSizeInBytes"
  shows "\<exists>r g. RoundUpBytes v = Inr r \<and> sint r \<le> sint MaximumVolumeSizeInBytes
    \<and> BytesToGiB r = Inr g \<and> g * GiB = r
    \<and> sint MinimumVolumeDiskSizeInGb \<le> sint g \<and> sint g \<le> sint MaximumVolumeDiskSizeInGb
    \<and> RoundUpBytes r = Inr r"
proof -
  have v: "10737418240 \<le> sint v" "sint v \<le> 2199023255552"
    using assms by (simp_all add: MinimumVolumeSizeInBytes_def MaximumVolumeSizeInBytes_def GiB_def)
  let ?c = "(sint v + 1073741824 - 1) div 1073741824"
  obtain r where r: "RoundUpBytes v = Inr r" "sint r = ?c * 1073741824"
    using RoundUpBytes_fits [of v] v by (auto simp: sint_GiB)
  have c: "10 \<le> ?c" "?c \<le> 2048"
    using ceil_mult(1) [of 1073741824 "sint v"] ceil_mult(3) [of 1073741824 "sint v" 2048] v by linarith+
  obtain r' where r': "RoundUpBytes r = Inr r'" "sint r' = (sint r + 1073741824 - 1) div 1073741824 * 1073741824"
    using RoundUpBytes_fits [of r] r c by (auto simp: sint_GiB)
  have "sint r' = sint r" using ceil_of_multiple [of 1073741824 ?c] by (simp only: r(2) r'(2))
  then have "r' = r" by (rule signed_word_eqI)
  let ?g = "word_of_int ?c :: int64"
  have g: "sint ?g = ?c" using c by (simp add: sint_word_of_int_64)
  have "BytesToGiB r = Inr ?g"
    using r c by (simp add: BytesToGiB_def int64_div_GiB(1) sdiv_nonneg sint_GiB)
  moreover have "- (2 ^ 63) \<le> sint ?g * sint GiB" "sint ?g * sint GiB < 2 ^ 63"
    using c by (simp_all only: g) (simp_all add: sint_GiB)
  then have "sint (?g * GiB) = sint r"
    by (simp only: sint_mult_64 g r(2) sint_GiB)
  then have "?g * GiB = r" by (rule signed_word_eqI)
  ultimately show ?thesis using r r'(1) \<open>r' = r\<close> c g
    by (simp add: MaximumVolumeSizeInBytes_def MinimumVolumeDiskSizeInGb_def
        MaximumVolumeDiskSizeInGb_def GiB_def)
qed

lemma RoundUpBytes_accepted_range_witness:
  "\<exists>r g. RoundUpBytes 10737418241 = Inr r \<and> BytesToGiB r = Inr g \<and> g * GiB = r \<and> sint g \<le> 2048"
proof -
  have "\<exists>r g. RoundUpBytes 10737418241 = Inr r \<and> sint r \<le> sint MaximumVolumeSizeInBytes
    \<and> BytesToGiB r = Inr g \<and> g * GiB = r
    \<and> sint MinimumVolumeDiskSizeInGb \<le> sint g \<and> sint g \<le> sint MaximumVolumeDiskSizeInGb
    \<and> RoundUpBytes r = Inr r"
    by (rule RoundUpBytes_accepted_range)
      (simp_all add: MinimumVolumeSizeInBytes_def MaximumVolumeSizeInBytes_def GiB_def)
  then show ?thesis by (auto simp: MaximumVolumeDiskSizeInGb_def)
qed

text \<open>Despite its name and comment, ListContainsSubstr looks for an element equal to the
  string, not for one that contains it, and the empty string is never found.\<close>

lemma ListContainsSubstr_is_membership:
  "ListContainsSubstr mainStr subStr \<longleftrightarrow> subStr \<in> set mainStr \<and> subStr \<noteq> []"
  by (cases subStr) (simp_all add: ListContainsSubstr_def contains_loop_iff)

end
