(* ===== verification/Watcher.thy ===== *)
theory Watcher
  imports CloudProvider Logger Sizes
begin

text \<open>
  Package watcher, pv\_watcher.go: the watcher that saves the metadata of persistent volumes.
  Kubernetes objects have the fields the source reads, with options for pointers; the
  session's UpdateVolume, the provider and the Kubernetes client are parameters. The run of
  an update is the list of what it does: log records, the call of UpdateVolume, events.
\<close>

section \<open>Data\<close>

definition ReclaimPolicyTag :: string where "ReclaimPolicyTag = ''reclaimpolicy:''"
definition NameSpaceTag :: string where "NameSpaceTag = ''namespace:''"
definition StorageClassTag :: string where "StorageClassTag = ''storageclass:''"
definition PVCNameTag :: string where "PVCNameTag = ''pvc:''"
definition PVNameTag :: string where "PVNameTag = ''pv:''"
definition VolumeCRN :: string where "VolumeCRN = ''volumeCRN''"
definition ProvisionerTag :: string where "ProvisionerTag = ''provisioner:''"
definition VolumeStatus :: string where "VolumeStatus = ''status''"
definition VolumeStatusCreated :: string where "VolumeStatusCreated = ''created''"
definition VolumeStatusDeleted :: string where "VolumeStatusDeleted = ''deleted''"
definition VolumeUpdateEventReason :: string where "VolumeUpdateEventReason = ''VolumeMetaDataSaved''"
definition VolumeUpdateEventSuccess :: string where "VolumeUpdateEventSuccess = ''Success''"
definition IbmCloudGtAPIEndpoint :: string where "IbmCloudGtAPIEndpoint = ''IBMCLOUD_GT_API_ENDPOINT''"

record CSISource =
  Driver :: string
  VolumeHandle :: string
  VolumeAttributes :: "string go_map"

record ObjectReference =
  ClaimNamespace :: string
  ClaimName :: string

text \<open>A capacity is given by its value in the base unit; a missing one is the zero quantity.\<close>

record PersistentVolume =
  PVName :: string
  CSI :: "CSISource option"
  PersistentVolumeReclaimPolicy :: string
  StorageClassName :: string
  ClaimRef :: "ObjectReference option"
  PVCapacity :: "int64 go_map"
  Phase :: string

text \<open>What the informer hands over: a pointer to a persistent volume or some other object.\<close>

datatype kube_object = PVObject "PersistentVolume option" | OtherObject

fun as_pv :: "kube_object \<Rightarrow> PersistentVolume option" where
  "as_pv (PVObject pv) = pv"
| "as_pv OtherObject = None"

record Volume =
  VolumeID :: string
  Provider :: string
  VolumeType :: string
  CRN :: string
  Attributes :: "string go_map"
  Tags :: "string list"
  Capacity :: "int64 option"
  Iops :: "string option"

record ('k, 'cp) PVWatcher =
  kclient :: 'k
  config :: "Config option"
  provisionerName :: string
  recorder_component :: string
  cloudProvider :: 'cp

section \<open>New\<close>

text \<open>The first statement of New, on the package variable VolumeTypeMap.\<close>

definition register_type :: "string go_map \<Rightarrow> string \<Rightarrow> string \<Rightarrow> string go_map" where
  [simp]: "register_type typeMap provisioner volumeType = map_write typeMap provisioner volumeType"

text \<open>
  The map VolumeTypeMap is a package variable: New takes it and returns it with the new
  entry. A failure to make the configuration or the client is fatal; the left side is the
  message the process ends with. The recorder is kept by the name of its component; that it
  sends its events to the client's sink is the library's wiring.
\<close>

definition New ::
  "(string \<Rightarrow> string \<Rightarrow> go_error + 'rc) \<Rightarrow> ('rc \<Rightarrow> go_error + 'k) \<Rightarrow> (string \<Rightarrow> string) \<Rightarrow> ('cp \<Rightarrow> Config option)
   \<Rightarrow> string \<Rightarrow> string \<Rightarrow> string \<Rightarrow> string \<Rightarrow> 'cp \<Rightarrow> string go_map
   \<Rightarrow> (string + ('k, 'cp) PVWatcher) \<times> string go_map" where
  "New BuildConfigFromFlags NewForConfig Getenv GetConfig master kubeconfig provisioner volumeType provider typeMap =
     (let typeMap' = register_type typeMap provisioner volumeType in
      case BuildConfigFromFlags master kubeconfig of
        Inl err \<Rightarrow> (Inl ''Failed to create config:'', typeMap')
      | Inr restConfig \<Rightarrow>
        (case NewForConfig restConfig of
           Inl err \<Rightarrow> (Inl ''Failed to create client:'', typeMap')
         | Inr clientset \<Rightarrow>
           (Inr \<lparr>kclient = clientset, config = GetConfig provider, provisionerName = provisioner,
                 recorder_component = Getenv ''POD_NAME'', cloudProvider = provider\<rparr>, typeMap')))"

section \<open>filter, getTags and getVolume\<close>

definition filter_pv :: "('k, 'cp) PVWatcher \<Rightarrow> kube_object \<Rightarrow> bool" where
  "filter_pv pvw obj =
     (case as_pv obj of None \<Rightarrow> False
      | Some pv \<Rightarrow> (case CSI pv of None \<Rightarrow> False | Some csi \<Rightarrow> Driver csi = provisionerName pvw))"

definition getTags ::
  "('k, 'cp) PVWatcher \<Rightarrow> PersistentVolume option \<Rightarrow> (string \<times> string list) can_panic" where
  "getTags pvw pvp =
     bind_panic (deref pvp) (\<lambda>pv.
     bind_panic (deref (CSI pv)) (\<lambda>csi.
       let volAttributes = VolumeAttributes csi;
           tagstr = strings_TrimSpace (map_read [] volAttributes ''tags'');
           tags = (if length tagstr > 0 then strings_Split tagstr (CHR '','') else []);
           tags = tags @ [ClusterIDLabel @ '':'' @ map_read [] volAttributes ClusterIDLabel];
           tags = tags @ [ReclaimPolicyTag @ PersistentVolumeReclaimPolicy pv];
           tags = tags @ [StorageClassTag @ StorageClassName pv]
       in bind_panic (deref (ClaimRef pv)) (\<lambda>claim.
         let tags = tags @ [NameSpaceTag @ ClaimNamespace claim];
             tags = tags @ [PVCNameTag @ ClaimName claim];
             tags = tags @ [PVNameTag @ PVName pv];
             tags = tags @ [ProvisionerTag @ provisionerName pvw]
         in Inr (map_read [] volAttributes VolumeCRN, tags))))"

text \<open>
  Attributes starts with the lower-cased label of the cluster; a released volume gets its
  status only.
\<close>

definition getVolume ::
  "(string \<Rightarrow> string) \<Rightarrow> string go_map \<Rightarrow> ('k, 'cp) PVWatcher \<Rightarrow> PersistentVolume option \<Rightarrow> Volume can_panic" where
  "getVolume uni typeMap pvw pvp =
     bind_panic (getTags pvw pvp) (\<lambda>(crn, tags).
     bind_panic (deref pvp) (\<lambda>pv.
     bind_panic (deref (CSI pv)) (\<lambda>csi.
     bind_panic (deref (config pvw)) (\<lambda>conf.
     bind_panic (deref (VPC conf)) (\<lambda>vpc.
       let volume = \<lparr>VolumeID = VolumeHandle csi, Provider = VPCBlockProviderType vpc,
             VolumeType = map_read [] typeMap (Driver csi), CRN = [], Attributes = [], Tags = [],
             Capacity = None, Iops = None\<rparr>;
           volume = volume\<lparr>CRN := crn\<rparr>;
           clusterID = map_read [] (VolumeAttributes csi) ClusterIDLabel;
           volume = volume\<lparr>Attributes := [(strings_ToLower uni ClusterIDLabel, clusterID)]\<rparr>
       in if Phase pv = ''Released'' then
            Inr (volume\<lparr>Attributes := map_write (Attributes volume) VolumeStatus VolumeStatusDeleted\<rparr>)
          else
            bind_panic (BytesToGiB (map_read 0 (PVCapacity pv) ''storage'')) (\<lambda>capacityGiB.
              Inr (volume\<lparr>Tags := tags, Capacity := Some capacityGiB,
                    Iops := Some (map_read [] (VolumeAttributes csi) IOPSLabel),
                    Attributes := map_write (Attributes volume) VolumeStatus VolumeStatusCreated\<rparr>)))))))"

section \<open>updateVolume\<close>

datatype event_type = EventTypeNormal | EventTypeWarning

datatype watch_effect =
    Log log_level string "go_error option"
  | UpdateCall Volume
  | Event "PersistentVolume option" event_type string string

text \<open>
  The body of the goroutine, up to a panic: what it did and whether it panicked. Both calls
  into the volume library act on the world \<open>'w\<close> and may panic.
\<close>

definition updateVolume_body ::
  "('cp \<Rightarrow> 'w \<Rightarrow> 'sess option go_result can_panic \<times> 'w) \<Rightarrow> ('sess \<Rightarrow> Volume \<Rightarrow> 'w \<Rightarrow> go_error option can_panic \<times> 'w)
   \<Rightarrow> (string \<Rightarrow> string) \<Rightarrow> string go_map \<Rightarrow> ('k, 'cp) PVWatcher \<Rightarrow> kube_object \<Rightarrow> 'w
   \<Rightarrow> unit can_panic \<times> watch_effect list \<times> 'w" where
  "updateVolume_body GetProviderSession UpdateVolume uni typeMap pvw obj w =
     (let pv = as_pv obj;
          entry = Log InfoLevel ''Entry updateVolume()'' None
      in case GetProviderSession (cloudProvider pvw) w of
        (Inl p, w1) \<Rightarrow> (Inl p, [entry], w1)
      | (Inr (None, err), w1) \<Rightarrow> (Inr (), [entry, Log InfoLevel ''Exit updateVolume()'' err], w1)
      | (Inr (Some session, err), w1) \<Rightarrow>
        (case getVolume uni typeMap pvw pv of
           Inl p \<Rightarrow> (Inl p, [entry], w1)
         | Inr volume \<Rightarrow>
           (let acts = [entry, Log InfoLevel ''volume to update '' None, UpdateCall volume];
                leave = Log InfoLevel ''Exit updateVolume()'' err
            in case UpdateVolume session volume w1 of
              (Inl p, w2) \<Rightarrow> (Inl p, acts, w2)
            | (Inr (Some e), w2) \<Rightarrow>
                (Inr (), acts @ [Log WarnLevel ''Unable to update the volume'' (Some e),
                   Event pv EventTypeWarning VolumeUpdateEventReason (error_text e), leave], w2)
            | (Inr None, w2) \<Rightarrow>
                (Inr (), acts @ [Event pv EventTypeNormal VolumeUpdateEventReason VolumeUpdateEventSuccess,
                   Log WarnLevel ''Volume Metadata saved successfully'' None, leave], w2))))"

text \<open>
  The deferred function recovers from a panic and logs it. The source runs this in a
  goroutine of its own, so the caller never waits for it; a run shares no state with others
  but the type map and what the session does to \<open>'w\<close>.
\<close>

definition updateVolume ::
  "('cp \<Rightarrow> 'w \<Rightarrow> 'sess option go_result can_panic \<times> 'w) \<Rightarrow> ('sess \<Rightarrow> Volume \<Rightarrow> 'w \<Rightarrow> go_error option can_panic \<times> 'w)
   \<Rightarrow> (string \<Rightarrow> string) \<Rightarrow> string go_map \<Rightarrow> ('k, 'cp) PVWatcher \<Rightarrow> kube_object \<Rightarrow> 'w \<Rightarrow> watch_effect list \<times> 'w" where
  "updateVolume GetProviderSession UpdateVolume uni typeMap pvw obj w =
     (case updateVolume_body GetProviderSession UpdateVolume uni typeMap pvw obj w of
        (Inl p, acts, w') \<Rightarrow> (acts @ [Log ErrorLevel ''Recovered from panic in pvwatcher'' None], w')
      | (Inr u, acts, w') \<Rightarrow> (acts, w'))"

section \<open>Facts\<close>

lemmas tag_defs = ReclaimPolicyTag_def NameSpaceTag_def StorageClassTag_def PVCNameTag_def PVNameTag_def ProvisionerTag_def

text \<open>The tags every volume gets, in order.\<close>

definition default_tags :: "('k, 'cp) PVWatcher \<Rightarrow> PersistentVolume \<Rightarrow> CSISource \<Rightarrow> ObjectReference \<Rightarrow> string list" where
  "default_tags pvw pv csi claim =
     [''clusterID:'' @ map_read [] (VolumeAttributes csi) ''clusterID'',
      ''reclaimpolicy:'' @ PersistentVolumeReclaimPolicy pv,
      ''storageclass:'' @ StorageClassName pv,
      ''namespace:'' @ ClaimNamespace claim,
      ''pvc:'' @ ClaimName claim,
      ''pv:'' @ PVName pv,
      ''provisioner:'' @ provisionerName pvw]"

definition user_tags :: "CSISource \<Rightarrow> string list" where
  "user_tags csi =
     (let t = strings_TrimSpace (map_read [] (VolumeAttributes csi) ''tags'') in
      if t = [] then [] else strings_Split t (CHR '',''))"

lemma getTags_eq:
  "getTags pvw (Some pv) =
     (case CSI pv of None \<Rightarrow> Inl NilDereference
      | Some csi \<Rightarrow> (case ClaimRef pv of None \<Rightarrow> Inl NilDereference
          | Some claim \<Rightarrow> Inr (map_read [] (VolumeAttributes csi) VolumeCRN, user_tags csi @ default_tags pvw pv csi claim)))"
  "getTags pvw None = Inl NilDereference"
  by (auto simp: getTags_def Let_def user_tags_def default_tags_def tag_defs ClusterIDLabel_def split: option.split)

lemma BytesToGiB_eq: "BytesToGiB v = Inr (word_of_int (sint v sdiv sint GiB))"
  by (simp only: BytesToGiB_def int64_div_GiB)

lemma cluster_label: "strings_ToLower uni ''clusterID'' = ''clusterid''"
proof -
  have "map lower_byte ''clusterID'' = ''clusterid''" and "is_ascii ''clusterID''" by code_simp+
  then show ?thesis by (simp only: strings_ToLower_def if_True)
qed

text \<open>A persistent volume the watcher can describe: of a CSI driver and bound to a claim.\<close>

definition describable :: "('k, 'cp) PVWatcher \<Rightarrow> PersistentVolume option \<Rightarrow> bool" where
  "describable pvw pvp \<longleftrightarrow>
     (case pvp of None \<Rightarrow> False
      | Some pv \<Rightarrow> CSI pv \<noteq> None \<and> ClaimRef pv \<noteq> None \<and> Option.bind (config pvw) VPC \<noteq> None)"

lemma describableE:
  assumes "describable pvw pvp"
  obtains pv csi claim conf vpc where "pvp = Some pv" and "CSI pv = Some csi" and "ClaimRef pv = Some claim"
    and "config pvw = Some conf" and "VPC conf = Some vpc"
proof -
  obtain pv where pv: "pvp = Some pv" using assms by (cases pvp) (simp_all add: describable_def)
  moreover obtain csi where "CSI pv = Some csi" using assms pv by (cases "CSI pv") (simp_all add: describable_def)
  moreover obtain claim where "ClaimRef pv = Some claim"
    using assms pv by (cases "ClaimRef pv") (simp_all add: describable_def)
  moreover obtain conf where conf: "config pvw = Some conf"
    using assms pv by (cases "config pvw") (simp_all add: describable_def)
  moreover obtain vpc where "VPC conf = Some vpc"
    using assms pv conf by (cases "VPC conf") (simp_all add: describable_def)
  ultimately show thesis by (rule that)
qed

definition volume_of ::
  "string go_map \<Rightarrow> ('k, 'cp) PVWatcher \<Rightarrow> PersistentVolume \<Rightarrow> CSISource \<Rightarrow> ObjectReference \<Rightarrow> VPCProviderConfig \<Rightarrow> Volume" where
  "volume_of typeMap pvw pv csi claim vpc =
     (let gone = (Phase pv = ''Released'') in
      \<lparr>VolumeID = VolumeHandle csi, Provider = VPCBlockProviderType vpc,
       VolumeType = map_read [] typeMap (Driver csi),
       CRN = map_read [] (VolumeAttributes csi) ''volumeCRN'',
       Attributes = [(''clusterid'', map_read [] (VolumeAttributes csi) ''clusterID''),
                     (''status'', if gone then ''deleted'' else ''created'')],
       Tags = (if gone then [] else user_tags csi @ default_tags pvw pv csi claim),
       Capacity = (if gone then None
                   else Some (word_of_int (sint (map_read 0 (PVCapacity pv) ''storage'') sdiv sint GiB))),
       Iops = (if gone then None else Some (map_read [] (VolumeAttributes csi) ''iops''))\<rparr>)"

lemma getVolume_describable:
  assumes "CSI pv = Some csi" and "ClaimRef pv = Some claim" and "config pvw = Some conf" and "VPC conf = Some vpc"
  shows "getVolume uni typeMap pvw (Some pv) = Inr (volume_of typeMap pvw pv csi claim vpc)"
  using assms by (simp add: getVolume_def getTags_eq cluster_label Let_def volume_of_def BytesToGiB_eq
      VolumeCRN_def VolumeStatus_def VolumeStatusDeleted_def VolumeStatusCreated_def IOPSLabel_def
      ClusterIDLabel_def)

lemma getVolume_panics:
  assumes "\<not> describable pvw pvp"
  shows "getVolume uni typeMap pvw pvp = Inl NilDereference"
  using assms
  by (auto simp: getVolume_def describable_def getTags_eq deref_def bind_panic_def split: option.splits)

lemma getVolume_iff: "(\<exists>v. getVolume uni typeMap pvw pvp = Inr v) \<longleftrightarrow> describable pvw pvp"
proof
  assume "\<exists>v. getVolume uni typeMap pvw pvp = Inr v"
  then show "describable pvw pvp" using getVolume_panics [of pvw pvp uni typeMap] by fastforce
next
  assume "describable pvw pvp"
  then show "\<exists>v. getVolume uni typeMap pvw pvp = Inr v"
    by (rule describableE) (simp add: getVolume_describable)
qed

text \<open>What a run did to the outside world.\<close>

definition updates :: "watch_effect list \<Rightarrow> Volume list" where
  "updates es = concat (map (\<lambda>e. case e of UpdateCall v \<Rightarrow> [v] | _ \<Rightarrow> []) es)"

definition events :: "watch_effect list \<Rightarrow> (event_type \<times> string \<times> string) list" where
  "events es = concat (map (\<lambda>e. case e of Event pv ty reason msg \<Rightarrow> [(ty, reason, msg)] | _ \<Rightarrow> []) es)"

definition recovered :: "watch_effect list \<Rightarrow> bool" where
  "recovered es \<longleftrightarrow> Log ErrorLevel ''Recovered from panic in pvwatcher'' None \<in> set es"

lemma effect_simps [simp]:
  "updates [] = []" "updates (Log l m x # es) = updates es" "updates (UpdateCall v # es) = v # updates es"
  "updates (Event pv ty r m # es) = updates es" "updates (es @ es') = updates es @ updates es'"
  "events [] = []" "events (Log l m x # es) = events es" "events (UpdateCall v # es) = events es"
  "events (Event pv ty r m # es) = (ty, r, m) # events es" "events (es @ es') = events es @ events es'"
  by (simp_all add: updates_def events_def)

lemmas event_defs = VolumeUpdateEventReason_def VolumeUpdateEventSuccess_def

lemma updateVolume_session:
  assumes "gps (cloudProvider pvw) w = (Inr (Some session, err), w1)"
    and "getVolume uni typeMap pvw (as_pv obj) = Inr v"
  shows "updates (fst (updateVolume gps upd uni typeMap pvw obj w)) = [v]"
    and "snd (updateVolume gps upd uni typeMap pvw obj w) = snd (upd session v w1)"
    and "events (fst (updateVolume gps upd uni typeMap pvw obj w)) =
      (case fst (upd session v w1) of
         Inl p \<Rightarrow> [] | Inr None \<Rightarrow> [(EventTypeNormal, ''VolumeMetaDataSaved'', ''Success'')]
       | Inr (Some e) \<Rightarrow> [(EventTypeWarning, ''VolumeMetaDataSaved'', error_text e)])"
    and "recovered (fst (updateVolume gps upd uni typeMap pvw obj w)) \<longleftrightarrow> isl (fst (upd session v w1))"
  using assms
  by (auto simp: updateVolume_def updateVolume_body_def Let_def event_defs recovered_def
      split: sum.splits option.splits prod.splits)

lemma updateVolume_panic:
  assumes "gps (cloudProvider pvw) w = (Inr (Some session, err), w1)"
    and "getVolume uni typeMap pvw (as_pv obj) = Inl p"
  shows "updateVolume gps upd uni typeMap pvw obj w =
    ([Log InfoLevel ''Entry updateVolume()'' None, Log ErrorLevel ''Recovered from panic in pvwatcher'' None], w1)"
  using assms by (simp add: updateVolume_def updateVolume_body_def)

lemma New_Inr:
  assumes "New bc nc env gc master kubeconfig prov ty provider typeMap = (Inr pvw, typeMap')"
  shows "provisionerName pvw = prov" and "config pvw = gc provider" and "cloudProvider pvw = provider"
    and "typeMap' = map_write typeMap prov ty"
  using assms by (auto simp: New_def Let_def split: sum.splits)

text \<open>With a provider that keeps the contract, a watcher of New can describe every claimed CSI volume.\<close>

context cloud_provider
begin

lemma New_describable:
  assumes "valid p" and "config pvw = iface_GetConfig methods p" and "CSI pv \<noteq> None" and "ClaimRef pv \<noteq> None"
  shows "describable pvw (Some pv)"
  using assms config_vpc [OF assms(1)] by (simp add: describable_def)

end

section \<open>Properties\<close>

text \<open>GetTags of a volume of a CSI driver with a claim gives the tags of the user, which are the
  parts between the commas of the trimmed tags attribute, and after them the seven default
  tags in order; for every other object, in particular an unclaimed volume, it panics.\<close>

lemma getTags_spec:
  "case (pvp, Option.bind pvp CSI, Option.bind pvp ClaimRef) of
     (Some pv, Some csi, Some claim) \<Rightarrow>
       \<exists>user. getTags pvw pvp = Inr (map_read [] (VolumeAttributes csi) ''volumeCRN'',
           user @ [''clusterID:'' @ map_read [] (VolumeAttributes csi) ''clusterID'',
             ''reclaimpolicy:'' @ PersistentVolumeReclaimPolicy pv, ''storageclass:'' @ StorageClassName pv,
             ''namespace:'' @ ClaimNamespace claim, ''pvc:'' @ ClaimName claim,
             ''pv:'' @ PVName pv, ''provisioner:'' @ provisionerName pvw])
         \<and> strings_Join user (CHR '','') = strings_TrimSpace (map_read [] (VolumeAttributes csi) ''tags'')
         \<and> list_all (\<lambda>t. CHR '','' \<notin> set t) user
   | _ \<Rightarrow> getTags pvw pvp = Inl NilDereference"
proof (cases "\<exists>pv csi claim. pvp = Some pv \<and> CSI pv = Some csi \<and> ClaimRef pv = Some claim")
  case True
  then obtain pv csi claim where d: "pvp = Some pv" "CSI pv = Some csi" "ClaimRef pv = Some claim" by blast
  have "strings_Join (user_tags csi) (CHR '','') = strings_TrimSpace (map_read [] (VolumeAttributes csi) ''tags'')"
    and "list_all (\<lambda>t. CHR '','' \<notin> set t) (user_tags csi)"
    by (auto simp: user_tags_def Let_def list_all_iff dest: strings_Split_no_sep)
  then show ?thesis
    by (auto simp: d getTags_eq default_tags_def VolumeCRN_def)
next
  case False
  then show ?thesis by (auto simp: getTags_eq split: option.split)
qed

text \<open>C20: getVolume describes exactly the claimed volumes of a CSI driver, given a VPC configuration: it
  carries the handle, the CRN and the type registered for the driver; a released volume is
  marked deleted and gets nothing else, any other is marked created and gets its tags, its
  capacity in whole GiB and its IOPS.\<close>

theorem getVolume_spec:
  "if describable pvw (Some pv)
   then \<exists>csi claim vpc v. CSI pv = Some csi \<and> ClaimRef pv = Some claim
      \<and> Option.bind (config pvw) VPC = Some vpc \<and> getVolume uni typeMap pvw (Some pv) = Inr v
      \<and> VolumeID v = VolumeHandle csi \<and> CRN v = map_read [] (VolumeAttributes csi) ''volumeCRN''
      \<and> Provider v = VPCBlockProviderType vpc \<and> VolumeType v = map_read [] typeMap (Driver csi)
      \<and> map_read [] (Attributes v) ''clusterid'' = map_read [] (VolumeAttributes csi) ''clusterID''
      \<and> (if Phase pv = ''Released''
         then map_read [] (Attributes v) ''status'' = ''deleted'' \<and> Tags v = [] \<and> Capacity v = None \<and> Iops v = None
         else map_read [] (Attributes v) ''status'' = ''created'' \<and> Inr (CRN v, Tags v) = getTags pvw (Some pv)
            \<and> Iops v = Some (map_read [] (VolumeAttributes csi) ''iops'')
            \<and> (\<exists>c. Capacity v = Some c \<and> sint c = sint (map_read 0 (PVCapacity pv) ''storage'') sdiv sint GiB))
   else getVolume uni typeMap pvw (Some pv) = Inl NilDereference"
proof (cases "describable pvw (Some pv)")
  case True
  then obtain csi claim conf vpc where "CSI pv = Some csi" "ClaimRef pv = Some claim" "config pvw = Some conf"
    "VPC conf = Some vpc" by (rule describableE) simp
  then show ?thesis using True
    by (simp add: getVolume_describable volume_of_def Let_def getTags_eq VolumeCRN_def int64_div_GiB(2))
qed (simp add: getVolume_panics)

text \<open>Without a session nothing is saved and no event is recorded.\<close>

lemma updateVolume_no_session:
  assumes "gps (cloudProvider pvw) w = (r, w1)" and no: "\<not> (\<exists>session err. r = Inr (Some session, err))"
  shows "updates (fst (updateVolume gps upd uni typeMap pvw obj w)) = []
    \<and> events (fst (updateVolume gps upd uni typeMap pvw obj w)) = []
    \<and> (recovered (fst (updateVolume gps upd uni typeMap pvw obj w)) \<longleftrightarrow> isl r)"
proof (cases r)
  case (Inl p)
  then show ?thesis using assms(1) by (simp add: updateVolume_def updateVolume_body_def recovered_def)
next
  case (Inr x)
  then obtain err where "r = Inr (None, err)" using no by (cases x; cases "fst x") auto
  then show ?thesis using assms(1) by (simp add: updateVolume_def updateVolume_body_def recovered_def)
qed

text \<open>C19: updateVolume calls UpdateVolume at most once, and does so exactly when the provider gave a
  session and the volume can be described, with that description; one event is then
  recorded, a warning with the text of the error or the success, and none when UpdateVolume
  panicked; a panic anywhere ends the goroutine with the recovery record, never the watcher.\<close>

theorem updateVolume_outcome:
  "case gps (cloudProvider pvw) w of
     (Inr (Some session, err), w1) \<Rightarrow>
       (case getVolume uni typeMap pvw (as_pv obj) of
          Inr v \<Rightarrow> updates (fst (updateVolume gps upd uni typeMap pvw obj w)) = [v]
            \<and> events (fst (updateVolume gps upd uni typeMap pvw obj w)) =
                (case fst (upd session v w1) of
                   Inl p \<Rightarrow> [] | Inr None \<Rightarrow> [(EventTypeNormal, ''VolumeMetaDataSaved'', ''Success'')]
                 | Inr (Some e) \<Rightarrow> [(EventTypeWarning, ''VolumeMetaDataSaved'', error_text e)])
            \<and> (recovered (fst (updateVolume gps upd uni typeMap pvw obj w)) \<longleftrightarrow> isl (fst (upd session v w1)))
        | Inl p \<Rightarrow> updates (fst (updateVolume gps upd uni typeMap pvw obj w)) = []
            \<and> events (fst (updateVolume gps upd uni typeMap pvw obj w)) = []
            \<and> recovered (fst (updateVolume gps upd uni typeMap pvw obj w)))
   | (r, w1) \<Rightarrow> updates (fst (updateVolume gps upd uni typeMap pvw obj w)) = []
       \<and> events (fst (updateVolume gps upd uni typeMap pvw obj w)) = []
       \<and> (recovered (fst (updateVolume gps upd uni typeMap pvw obj w)) \<longleftrightarrow> isl r)"
proof (cases "gps (cloudProvider pvw) w")
  case (Pair r w1)
  show ?thesis
  proof (cases "\<exists>session err. r = Inr (Some session, err)")
    case False
    then show ?thesis using updateVolume_no_session [of gps pvw w r w1 upd uni typeMap obj] Pair by (auto split: sum.splits option.splits)
  next
    case True
    then obtain session err where r: "r = Inr (Some session, err)" by blast
    note P = Pair [unfolded r]
    show ?thesis
    proof (cases "getVolume uni typeMap pvw (as_pv obj)")
      case (Inl p)
      then show ?thesis using P updateVolume_panic [where gps = gps and pvw = pvw and obj = obj and upd = upd, OF P Inl] by (simp add: recovered_def)
    next
      case (Inr v)
      then show ?thesis using P updateVolume_session [where gps = gps and pvw = pvw and obj = obj and upd = upd, OF P Inr] by simp
    qed
  qed
qed

text \<open>The volumes of other drivers are filtered out, but an unclaimed volume of the watched driver
  passes the filter and is never saved: getTags dereferences its nil claim, and the update
  ends in the recovery from the panic without calling UpdateVolume or recording an event.\<close>

lemma unclaimed_volume_is_lost:
  assumes "as_pv obj = Some pv" and "ClaimRef pv = None"
    and "gps (cloudProvider pvw) w = (Inr (Some session, err), w1)"
  shows "(filter_pv pvw obj \<longleftrightarrow> (\<exists>csi. CSI pv = Some csi \<and> Driver csi = provisionerName pvw))
    \<and> updateVolume gps upd uni typeMap pvw obj w =
       ([Log InfoLevel ''Entry updateVolume()'' None, Log ErrorLevel ''Recovered from panic in pvwatcher'' None], w1)"
proof -
  have "getVolume uni typeMap pvw (as_pv obj) = Inl NilDereference"
    using assms by (intro getVolume_panics) (simp add: describable_def)
  note run = updateVolume_panic [where gps = gps and pvw = pvw and obj = obj and upd = upd, OF assms(3) this]
  show ?thesis using run assms(1) by (auto simp: filter_pv_def split: option.split)
qed

lemma unclaimed_volume_is_lost_witness:
  "updates (fst (updateVolume (\<lambda>cp n. (Inr (Some (), None), n)) (\<lambda>s v n. (Inr None, n + 1)) (\<lambda>s. s) [(''drv'', ''vpc-block'')]
     \<lparr>kclient = (), config = Some \<lparr>VPC = Some \<lparr>VPCBlockProviderType = ''g2'', VPCBlockProviderName = ''vpc''\<rparr>\<rparr>,
      provisionerName = ''drv'', recorder_component = [], cloudProvider = ()\<rparr>
     (PVObject (Some \<lparr>PVName = ''pv-1'', CSI = Some \<lparr>Driver = ''drv'', VolumeHandle = ''v1'', VolumeAttributes = []\<rparr>,
       PersistentVolumeReclaimPolicy = ''Delete'', StorageClassName = ''gp'', ClaimRef = None, PVCapacity = [],
       Phase = ''Available''\<rparr>)) (0 :: nat))) = []"
proof -
  let ?pv = "\<lparr>PVName = ''pv-1'', CSI = Some \<lparr>Driver = ''drv'', VolumeHandle = ''v1'', VolumeAttributes = []\<rparr>,
       PersistentVolumeReclaimPolicy = ''Delete'', StorageClassName = ''gp'', ClaimRef = None, PVCapacity = [],
       Phase = ''Available''\<rparr>"
  show ?thesis
    by (subst unclaimed_volume_is_lost [of "PVObject (Some ?pv)" ?pv, THEN conjunct2]) simp_all
qed

text \<open>A watcher made by New saves its volumes under the type it was made for: for every object that
  passes its filter and can be described, the description has that volume type, whatever was
  registered for other drivers.\<close>

lemma New_registers_type:
  assumes "New bc nc env gc master kubeconfig prov ty provider typeMap = (Inr pvw, typeMap')"
    and "filter_pv pvw obj" and "getVolume uni typeMap' pvw (as_pv obj) = Inr v"
  shows "VolumeType v = ty \<and> provisionerName pvw = prov
    \<and> (\<forall>other. other \<noteq> prov \<longrightarrow> map_read [] typeMap' other = map_read [] typeMap other)"
proof -
  note N = New_Inr [OF assms(1)]
  have "describable pvw (as_pv obj)" using assms(3) getVolume_iff by blast
  then obtain pv csi claim conf vpc where d: "as_pv obj = Some pv" "CSI pv = Some csi" "ClaimRef pv = Some claim"
    "config pvw = Some conf" "VPC conf = Some vpc" by (rule describableE)
  then have "Driver csi = prov" using assms(2) N(1) by (simp add: filter_pv_def)
  moreover have "v = volume_of typeMap' pvw pv csi claim vpc"
    using getVolume_describable [OF d(2-5), of uni typeMap'] assms(3) d(1) by simp
  ultimately show ?thesis using N by (simp add: volume_of_def Let_def)
qed

lemma New_registers_type_witness:
  "VolumeType (volume_of [(''drv'', ''vpc-file'')]
     \<lparr>kclient = (), config = Some \<lparr>VPC = Some \<lparr>VPCBlockProviderType = ''g2'', VPCBlockProviderName = ''vpc''\<rparr>\<rparr>,
      provisionerName = ''drv'', recorder_component = ''pod-1'', cloudProvider = ()\<rparr>
     \<lparr>PVName = ''pv-1'', CSI = Some \<lparr>Driver = ''drv'', VolumeHandle = ''v1'', VolumeAttributes = []\<rparr>,
       PersistentVolumeReclaimPolicy = ''Delete'', StorageClassName = ''gp'',
       ClaimRef = Some \<lparr>ClaimNamespace = ''ns'', ClaimName = ''c''\<rparr>, PVCapacity = [], Phase = ''Bound''\<rparr>
     \<lparr>Driver = ''drv'', VolumeHandle = ''v1'', VolumeAttributes = []\<rparr> \<lparr>ClaimNamespace = ''ns'', ClaimName = ''c''\<rparr>
     \<lparr>VPCBlockProviderType = ''g2'', VPCBlockProviderName = ''vpc''\<rparr>) = ''vpc-file''"
proof -
  let ?vpc = "\<lparr>VPCBlockProviderType = ''g2'', VPCBlockProviderName = ''vpc''\<rparr>"
  let ?csi = "\<lparr>Driver = ''drv'', VolumeHandle = ''v1'', VolumeAttributes = []\<rparr>"
  let ?claim = "\<lparr>ClaimNamespace = ''ns'', ClaimName = ''c''\<rparr>"
  let ?pv = "\<lparr>PVName = ''pv-1'', CSI = Some ?csi, PersistentVolumeReclaimPolicy = ''Delete'', StorageClassName = ''gp'',
    ClaimRef = Some ?claim, PVCapacity = [], Phase = ''Bound''\<rparr>"
  let ?w = "\<lparr>kclient = (), config = Some \<lparr>VPC = Some ?vpc\<rparr>, provisionerName = ''drv'',
    recorder_component = ''pod-1'', cloudProvider = ()\<rparr>"
  have n: "New (\<lambda>m k. Inr ()) (\<lambda>rc. Inr ()) (\<lambda>v. ''pod-1'') (\<lambda>cp. Some \<lparr>VPC = Some ?vpc\<rparr>) [] [] ''drv'' ''vpc-file'' () []
      = (Inr ?w, [(''drv'', ''vpc-file'')])"
    by (simp add: New_def)
  have f: "filter_pv ?w (PVObject (Some ?pv))" by (simp add: filter_pv_def)
  have g: "getVolume (\<lambda>s. s) [(''drv'', ''vpc-file'')] ?w (as_pv (PVObject (Some ?pv)))
      = Inr (volume_of [(''drv'', ''vpc-file'')] ?w ?pv ?csi ?claim ?vpc)"
    by (simp add: getVolume_describable)
  show ?thesis by (rule New_registers_type [OF n f g, THEN conjunct1])
qed

text \<open>Over the fake provider, a watcher made by New calls UpdateVolume exactly once for every claimed
  volume of a CSI driver.\<close>

lemma fake_provider_updates_once:
  assumes "NewFakeIBMCloudStorageProvider sess path = (provider, None)"
    and "New bc nc env (iface_GetConfig FakeIBMCloudStorageProvider_impl) master kubeconfig prov ty provider typeMap = (Inr pvw, typeMap')"
    and "CSI pv \<noteq> None" and "ClaimRef pv \<noteq> None"
  shows "\<exists>v. updates (fst (updateVolume (\<lambda>cp w. (Inr (iface_GetProviderSession FakeIBMCloudStorageProvider_impl cp), w)) upd uni typeMap' pvw
     (PVObject (Some pv)) w)) = [v]"
proof -
  note N = New_Inr [OF assms(2)]
  have v: "Option.bind (ProviderConfig provider) VPC \<noteq> None"
    using assms(1) by (auto simp: NewFakeIBMCloudStorageProvider_def)
  have "describable pvw (Some pv)" by (rule fake_provider.New_describable [OF v N(2) assms(3,4)])
  then obtain vol where "getVolume uni typeMap' pvw (Some pv) = Inr vol" using getVolume_iff by blast
  then show ?thesis
    using updateVolume_session(1) [of "\<lambda>cp w. (Inr (iface_GetProviderSession FakeIBMCloudStorageProvider_impl cp), w)" pvw w "fakeSession provider" None w
        uni typeMap' "PVObject (Some pv)" vol upd] N(3)
    by (simp add: fake_GetProviderSession_def)
qed

lemma fake_provider_updates_once_witness:
  "\<exists>v. updates (fst (updateVolume (\<lambda>cp w. (Inr (iface_GetProviderSession FakeIBMCloudStorageProvider_impl cp), w)) (\<lambda>s v w. (Inr None, w)) (\<lambda>s. s)
     (snd (New (\<lambda>m k. Inr ()) (\<lambda>rc. Inr ()) (\<lambda>v. ''pod'') (iface_GetConfig FakeIBMCloudStorageProvider_impl) [] [] ''drv'' ''vpc-block''
        (fst (NewFakeIBMCloudStorageProvider () [])) []))
     (projr (fst (New (\<lambda>m k. Inr ()) (\<lambda>rc. Inr ()) (\<lambda>v. ''pod'') (iface_GetConfig FakeIBMCloudStorageProvider_impl) [] [] ''drv'' ''vpc-block''
        (fst (NewFakeIBMCloudStorageProvider () [])) [])))
     (PVObject (Some \<lparr>PVName = ''pv-1'', CSI = Some \<lparr>Driver = ''drv'', VolumeHandle = ''v1'', VolumeAttributes = []\<rparr>,
       PersistentVolumeReclaimPolicy = ''Delete'', StorageClassName = ''gp'',
       ClaimRef = Some \<lparr>ClaimNamespace = ''ns'', ClaimName = ''c''\<rparr>, PVCapacity = [], Phase = ''Bound''\<rparr>)) ())) = [v]"
proof -
  let ?p = "fst (NewFakeIBMCloudStorageProvider () [])"
  let ?new = "New (\<lambda>m k. Inr ()) (\<lambda>rc. Inr ()) (\<lambda>v. ''pod'') (iface_GetConfig FakeIBMCloudStorageProvider_impl) [] [] ''drv'' ''vpc-block'' ?p []"
  have p: "NewFakeIBMCloudStorageProvider () [] = (?p, None)"
    by (simp add: NewFakeIBMCloudStorageProvider_def)
  have n: "?new = (Inr (projr (fst ?new)), snd ?new)" by (simp add: New_def)
  show ?thesis by (rule fake_provider_updates_once [OF p n]) simp_all
qed

end
