(* ===== verification/FakeMethod.thy ===== *)
theory FakeMethod
  imports Prelude
begin

text \<open>
  The bookkeeping the generated fakes of packages metadata and fake share: one faked method
  with its stub, its recorded arguments, its fixed results and its results per call number
  (fake\_node\_metadata.go and fake\_node\_info.go repeat this code for every method), and the
  record of all invocations. The source runs every operation under the method's mutex, so
  one operation is one step here; the mutexes themselves are in the theory FakeLocks.
\<close>

section \<open>One faked method\<close>

text \<open>
  A stub is the caller's function. \<open>ReturnsOnCall\<close> is the nil map (\<open>None\<close>) until the first
  write; its keys are ints, so a negative call number can be set and is never used.
\<close>

record ('a, 'r) fake_method =
  Stub :: "('a \<Rightarrow> 'r) option"
  ArgsForCall :: "'a list"
  Returns :: 'r
  ReturnsOnCall :: "(int \<rightharpoonup> 'r) option"

definition zero_method :: "'r \<Rightarrow> ('a, 'r) fake_method" where
  "zero_method zero = \<lparr>Stub = None, ArgsForCall = [], Returns = zero, ReturnsOnCall = None\<rparr>"

definition fake_call :: "'a \<Rightarrow> ('a, 'r) fake_method \<Rightarrow> 'r \<times> ('a, 'r) fake_method" where
  "fake_call arg1 m =
     (let ret = Option.bind (ReturnsOnCall m) (\<lambda>on. on (int (length (ArgsForCall m))));
          m' = m\<lparr>ArgsForCall := ArgsForCall m @ [arg1]\<rparr>;
          stub = Stub m; fakeReturns = Returns m
      in (case stub of Some f \<Rightarrow> (f arg1, m')
          | None \<Rightarrow> (case ret of Some result1 \<Rightarrow> (result1, m') | None \<Rightarrow> (fakeReturns, m'))))"

definition fake_CallCount :: "('a, 'r) fake_method \<Rightarrow> nat" where
  "fake_CallCount m = length (ArgsForCall m)"

definition fake_Calls :: "('a \<Rightarrow> 'r) option \<Rightarrow> ('a, 'r) fake_method \<Rightarrow> ('a, 'r) fake_method" where
  "fake_Calls stub m = m\<lparr>Stub := stub\<rparr>"

definition fake_ArgsForCall :: "int \<Rightarrow> ('a, 'r) fake_method \<Rightarrow> 'a can_panic" where
  "fake_ArgsForCall i m =
     (if 0 \<le> i \<and> i < int (length (ArgsForCall m)) then Inr (ArgsForCall m ! nat i) else Inl IndexOutOfRange)"

definition fake_Returns :: "'r \<Rightarrow> ('a, 'r) fake_method \<Rightarrow> ('a, 'r) fake_method" where
  "fake_Returns result1 m = m\<lparr>Stub := None, Returns := result1\<rparr>"

definition fake_ReturnsOnCall :: "int \<Rightarrow> 'r \<Rightarrow> ('a, 'r) fake_method \<Rightarrow> ('a, 'r) fake_method" where
  "fake_ReturnsOnCall i result1 m =
     (let on = (case ReturnsOnCall m of None \<Rightarrow> Map.empty | Some on \<Rightarrow> on) in
      m\<lparr>Stub := None, ReturnsOnCall := Some (on(i \<mapsto> result1))\<rparr>)"

lemmas fake_method_defs =
  fake_call_def fake_CallCount_def fake_Calls_def fake_ArgsForCall_def fake_Returns_def fake_ReturnsOnCall_def

section \<open>Recorded invocations\<close>

text \<open>
  The map is nil (\<open>None\<close>) until the first call. A key is given an empty slice before its
  first entry is appended.
\<close>

type_synonym 'x invocation_map = "'x list list go_map option"

definition record_invocation :: "string \<Rightarrow> 'x list \<Rightarrow> 'x invocation_map \<Rightarrow> 'x invocation_map" where
  "record_invocation key args invs =
     (let invs = (case invs of None \<Rightarrow> [] | Some m \<Rightarrow> m);
          invs = (if map_of invs key = None then map_write invs key [] else invs)
      in Some (map_write invs key (map_read [] invs key @ [args])))"

text \<open>The loop that copies the map for the caller.\<close>

definition copy_invocations :: "'x invocation_map \<Rightarrow> 'x list list go_map" where
  "copy_invocations invs =
     foldl (\<lambda>copied (key, value). map_write copied key value) [] (case invs of None \<Rightarrow> [] | Some m \<Rightarrow> m)"

definition invocations_of :: "'x invocation_map \<Rightarrow> string \<Rightarrow> 'x list list" where
  "invocations_of invs key = map_read [] (case invs of None \<Rightarrow> [] | Some m \<Rightarrow> m) key"

definition invocations_ok :: "'x invocation_map \<Rightarrow> bool" where
  "invocations_ok invs \<longleftrightarrow> go_map_ok (case invs of None \<Rightarrow> [] | Some m \<Rightarrow> m)"

lemma invocations_of_None [simp]: "invocations_of None key = []"
  by (simp add: invocations_of_def)

lemma invocations_of_record [simp]:
  "invocations_of (record_invocation key args invs) k =
     (if k = key then invocations_of invs key @ [args] else invocations_of invs k)"
  by (auto simp: record_invocation_def invocations_of_def Let_def map_read_def split: option.splits)

lemma go_map_ok_small [simp]: "go_map_ok []" "go_map_ok [kv]"
  by (simp_all add: go_map_ok_def)

lemma invocations_ok_None [simp]: "invocations_ok None"
  by (simp add: invocations_ok_def go_map_ok_def)

lemma invocations_ok_record [simp]: "invocations_ok invs \<Longrightarrow> invocations_ok (record_invocation key args invs)"
  by (cases invs) (simp_all add: invocations_ok_def record_invocation_def Let_def)

lemma foldl_map_write:
  "distinct (map fst m) \<Longrightarrow>
     map_of (foldl (\<lambda>c (k, v). map_write c k v) c m) j = (case map_of m j of None \<Rightarrow> map_of c j | Some v \<Rightarrow> Some v)"
proof (induction m arbitrary: c)
  case (Cons kv m)
  obtain k v where kv: "kv = (k, v)" by force
  have none: "map_of m k = None" using Cons.prems kv by (auto simp: map_of_eq_None_iff)
  show ?case
  proof (cases "j = k")
    case True
    then show ?thesis using Cons kv none by simp
  next
    case False
    then show ?thesis using Cons kv by (simp split: option.split)
  qed
qed simp

lemma copy_invocations_read:
  "invocations_ok invs \<Longrightarrow> map_read [] (copy_invocations invs) key = invocations_of invs key"
  unfolding copy_invocations_def invocations_of_def invocations_ok_def go_map_ok_def
  by (auto simp: map_read_def foldl_map_write split: option.split)

section \<open>What a sequence of operations returns\<close>

datatype ('a, 'r) method_op =
    Call 'a
  | SetCalls "('a \<Rightarrow> 'r) option"
  | SetReturns 'r
  | SetReturnsOnCall int 'r

fun method_step :: "('a, 'r) method_op \<Rightarrow> ('a, 'r) fake_method \<Rightarrow> ('a, 'r) fake_method" where
  "method_step (Call a) m = snd (fake_call a m)"
| "method_step (SetCalls stub) m = fake_Calls stub m"
| "method_step (SetReturns r) m = fake_Returns r m"
| "method_step (SetReturnsOnCall i r) m = fake_ReturnsOnCall i r m"

definition method_run :: "('a, 'r) method_op list \<Rightarrow> ('a, 'r) fake_method \<Rightarrow> ('a, 'r) fake_method" where
  "method_run ops m = fold method_step ops m"

text \<open>
  The contract, read off the history (most recent operation first): which stub is in force,
  the fixed result, the result set for a call number, and the calls made.
\<close>

fun stub_of :: "('a, 'r) method_op list \<Rightarrow> ('a \<Rightarrow> 'r) option" where
  "stub_of [] = None"
| "stub_of (Call a # h) = stub_of h"
| "stub_of (SetCalls stub # h) = stub"
| "stub_of (SetReturns r # h) = None"
| "stub_of (SetReturnsOnCall i r # h) = None"

fun fixed_of :: "'r \<Rightarrow> ('a, 'r) method_op list \<Rightarrow> 'r" where
  "fixed_of zero [] = zero"
| "fixed_of zero (SetReturns r # h) = r"
| "fixed_of zero (op # h) = fixed_of zero h"

fun on_call_of :: "int \<Rightarrow> ('a, 'r) method_op list \<Rightarrow> 'r option" where
  "on_call_of n [] = None"
| "on_call_of n (SetReturnsOnCall i r # h) = (if i = n then Some r else on_call_of n h)"
| "on_call_of n (op # h) = on_call_of n h"

fun calls_of :: "('a, 'r) method_op list \<Rightarrow> 'a list" where
  "calls_of [] = []"
| "calls_of (Call a # h) = calls_of h @ [a]"
| "calls_of (op # h) = calls_of h"

definition promised_result :: "'r \<Rightarrow> ('a, 'r) method_op list \<Rightarrow> 'a \<Rightarrow> 'r" where
  "promised_result zero h a =
     (case stub_of h of Some f \<Rightarrow> f a
      | None \<Rightarrow> (case on_call_of (int (length (calls_of h))) h of Some r \<Rightarrow> r | None \<Rightarrow> fixed_of zero h))"

lemma method_run_fields:
  "Stub (method_run ops (zero_method zero)) = stub_of (rev ops)
   \<and> ArgsForCall (method_run ops (zero_method zero)) = calls_of (rev ops)
   \<and> Returns (method_run ops (zero_method zero)) = fixed_of zero (rev ops)
   \<and> (\<forall>n. Option.bind (ReturnsOnCall (method_run ops (zero_method zero))) (\<lambda>on. on n) = on_call_of n (rev ops))"
proof (induction ops rule: rev_induct)
  case Nil
  then show ?case by (simp add: method_run_def zero_method_def)
next
  case (snoc op ops)
  then show ?case
    by (cases op) (auto simp: method_run_def fake_method_defs Let_def split: option.splits)
qed

lemma fake_call_value:
  "fst (fake_call a m) =
     (case Stub m of Some f \<Rightarrow> f a
      | None \<Rightarrow> (case Option.bind (ReturnsOnCall m) (\<lambda>on. on (int (length (ArgsForCall m)))) of
                   Some r \<Rightarrow> r | None \<Rightarrow> Returns m))"
  by (simp add: fake_call_def Let_def split: option.split)

lemma fake_call_state [simp]: "snd (fake_call a m) = m\<lparr>ArgsForCall := ArgsForCall m @ [a]\<rparr>"
  by (simp add: fake_call_def Let_def split: option.split)

text \<open>
  A faked method keeps its contract over every history: a call returns what the stub set last
  returns, unless results were set after it; otherwise the result set last for its call
  number, and otherwise the fixed result set last. The recorded arguments are those of the
  calls, in order, and an index out of range panics.
\<close>

lemma method_contract:
  "fst (fake_call a (method_run ops (zero_method zero))) = promised_result zero (rev ops) a"
  "fake_CallCount (method_run ops (zero_method zero)) = length (calls_of (rev ops))"
  "fake_ArgsForCall i (method_run ops (zero_method zero))
      = (if 0 \<le> i \<and> i < int (length (calls_of (rev ops))) then Inr (calls_of (rev ops) ! nat i)
         else Inl IndexOutOfRange)"
proof -
  note f = method_run_fields [of ops zero]
  show "fst (fake_call a (method_run ops (zero_method zero))) = promised_result zero (rev ops) a"
    by (cases "stub_of (rev ops)"; cases "on_call_of (int (length (calls_of (rev ops)))) (rev ops)")
      (use f in \<open>simp_all add: fake_call_value promised_result_def\<close>)
qed (use method_run_fields [of ops zero] in \<open>simp_all add: fake_CallCount_def fake_ArgsForCall_def\<close>)

end
