(* ===== verification/Metadata.thy ===== *)
theory Metadata
  imports GoFmt Sizes
begin

text \<open>
  Package metadata: the node's zone, region, worker and account, read from the labels and the
  provider ID of its Kubernetes node (metadata.go), and the static values of fakemetadata.go.
  The Kubernetes client is a parameter: each of its three calls gives an error or a result.
\<close>

section \<open>metadata.go\<close>

record nodeMetadataManager =
  zone :: string
  region :: string
  workerID :: string
  accountID :: string

record NodeInfoManager =
  NodeName :: string

text \<open>The two fields of a Kubernetes node the source reads.\<close>

record Node =
  Labels :: "string go_map"
  ProviderID :: string

text \<open>\<open>s[6], s[2]\<close> are in range because the branch is taken with seven parts only.\<close>

definition fetchInstanceAndAccountID :: "string \<Rightarrow> string \<times> string" where
  "fetchInstanceAndAccountID providerID =
     (let s = strings_Split providerID (CHR ''/'') in
      if length s \<noteq> 7 then ([], []) else (s ! 6, s ! 2))"

text \<open>Reading the label map, with the zero value for a missing label.\<close>

definition label :: "string go_map \<Rightarrow> string \<Rightarrow> string" where
  "label = map_read []"

definition map_arg :: "string go_map \<Rightarrow> go_arg" where
  "map_arg m = Arg ''map[string]string'' (\<lambda>verb. fmt_map m)"

definition missing_labels_error :: "string go_map \<Rightarrow> go_error" where
  "missing_labels_error nodeLabels = GoError (sprintf
     ''One or few required node label(s) is/are missing [%s, %s]. Node Labels Found = [#%v]''
     [string_arg NodeRegionLabel, string_arg NodeZoneLabel, map_arg nodeLabels])"

definition provider_id_error :: "string \<Rightarrow> go_error" where
  "provider_id_error providerID =
     GoError (sprintf ''Unable to fetch instance ID from node provider ID - %s'' [string_arg providerID])"

text \<open>The part of NewNodeMetadata after the node has been fetched.\<close>

definition metadata_of_node :: "Node \<Rightarrow> go_error + nodeMetadataManager" where
  "metadata_of_node node =
     (let nodeLabels = Labels node in
      if length (label nodeLabels NodeRegionLabel) = 0 \<or> length (label nodeLabels NodeZoneLabel) = 0
      then Inl (missing_labels_error nodeLabels)
      else if label nodeLabels MachineTypeLabel = UPI
      then Inr \<lparr>zone = label nodeLabels NodeZoneLabel, region = label nodeLabels NodeRegionLabel,
                workerID = label nodeLabels NodeInstanceIDLabel, accountID = []\<rparr>
      else (let (worker, account) = fetchInstanceAndAccountID (ProviderID node) in
            if worker = [] then Inl (provider_id_error (ProviderID node))
            else Inr \<lparr>zone = label nodeLabels NodeZoneLabel, region = label nodeLabels NodeRegionLabel,
                      workerID = worker, accountID = account\<rparr>))"

definition NewNodeMetadata ::
  "go_error + 'cfg \<Rightarrow> ('cfg \<Rightarrow> go_error + 'client) \<Rightarrow> ('client \<Rightarrow> string \<Rightarrow> go_error + Node)
   \<Rightarrow> NodeInfoManager \<Rightarrow> go_error + nodeMetadataManager" where
  "NewNodeMetadata InClusterConfig NewForConfig GetNode nodeManager =
     (case InClusterConfig of Inl err \<Rightarrow> Inl err
      | Inr config \<Rightarrow>
        (case NewForConfig config of Inl err \<Rightarrow> Inl err
         | Inr clientset \<Rightarrow>
           (case GetNode clientset (NodeName nodeManager) of Inl err \<Rightarrow> Inl err
            | Inr node \<Rightarrow> metadata_of_node node)))"

definition GetZone :: "nodeMetadataManager \<Rightarrow> string" where "GetZone manager = zone manager"
definition GetRegion :: "nodeMetadataManager \<Rightarrow> string" where "GetRegion manager = region manager"
definition GetWorkerID :: "nodeMetadataManager \<Rightarrow> string" where "GetWorkerID manager = workerID manager"
definition GetAccountID :: "nodeMetadataManager \<Rightarrow> string" where "GetAccountID manager = accountID manager"

lemmas getter_defs = GetZone_def GetRegion_def GetWorkerID_def GetAccountID_def

section \<open>fakemetadata.go\<close>

definition InitMetadata :: "string \<Rightarrow> go_error + nodeMetadataManager" where
  "InitMetadata nodeName =
     Inr \<lparr>zone = ''testzone'', region = ''testregion'', workerID = ''testworkerid'', accountID = ''testaccountid''\<rparr>"

section \<open>The interface NodeMetadata\<close>

text \<open>
  A client of the interface calls its four getters. An implementation is a state and, per
  getter, the value returned and the state after the call.
\<close>

datatype getter = CallGetZone | CallGetRegion | CallGetWorkerID | CallGetAccountID

fun field :: "nodeMetadataManager \<Rightarrow> getter \<Rightarrow> string" where
  "field v CallGetZone = zone v"
| "field v CallGetRegion = region v"
| "field v CallGetWorkerID = workerID v"
| "field v CallGetAccountID = accountID v"

fun read_all :: "(getter \<Rightarrow> 's \<Rightarrow> string \<times> 's) \<Rightarrow> getter list \<Rightarrow> 's \<Rightarrow> string list \<times> 's" where
  "read_all call [] s = ([], s)"
| "read_all call (g # gs) s =
     (fst (call g s) # fst (read_all call gs (snd (call g s))), snd (read_all call gs (snd (call g s))))"

text \<open>
  What a client may rely on: the getters return the fields of one fixed node, and calling
  them does not change it.
\<close>

locale node_metadata =
  fixes call :: "getter \<Rightarrow> 's \<Rightarrow> string \<times> 's"
    and view :: "'s \<Rightarrow> nodeMetadataManager"
    and invar :: "'s \<Rightarrow> bool"
  assumes call_value: "invar s \<Longrightarrow> fst (call g s) = field (view s) g"
    and call_view: "invar s \<Longrightarrow> view (snd (call g s)) = view s"
    and call_invar: "invar s \<Longrightarrow> invar (snd (call g s))"
begin

lemma read_all_invar: "invar s \<Longrightarrow> invar (snd (read_all call gs s))"
  by (induction gs arbitrary: s) (simp_all add: call_invar)

lemma read_all_view: "invar s \<Longrightarrow> view (snd (read_all call gs s)) = view s"
  by (induction gs arbitrary: s) (simp_all add: call_invar call_view)

lemma read_all_value: "invar s \<Longrightarrow> fst (read_all call gs s) = map (field (view s)) gs"
  by (induction gs arbitrary: s) (simp_all add: call_invar call_view call_value)

lemma reads_agree:
  "invar s \<Longrightarrow> view s = v \<Longrightarrow> fst (read_all call gs (snd (read_all call gs' s))) = map (field v) gs"
  by (simp add: read_all_value read_all_invar read_all_view)

end

text \<open>nodeMetadataManager implements it without changing anything.\<close>

fun manager_call :: "getter \<Rightarrow> nodeMetadataManager \<Rightarrow> string \<times> nodeMetadataManager" where
  "manager_call CallGetZone m = (GetZone m, m)"
| "manager_call CallGetRegion m = (GetRegion m, m)"
| "manager_call CallGetWorkerID m = (GetWorkerID m, m)"
| "manager_call CallGetAccountID m = (GetAccountID m, m)"

interpretation manager: node_metadata manager_call "\<lambda>m. m" "\<lambda>m. True"
proof
  fix g s
  show "fst (manager_call g s) = field s g" and "snd (manager_call g s) = s"
    by (cases g; simp add: getter_defs)+
qed simp

section \<open>Facts\<close>

text \<open>Seven parts: the provider ID has exactly six slashes.\<close>

lemma fetch_parts:
  "fetchInstanceAndAccountID p =
     (case strings_Split p (CHR ''/'') of
        [a, b, account, d, e, f, worker] \<Rightarrow> (worker, account)
      | _ \<Rightarrow> ([], []))"
  by (auto simp: fetchInstanceAndAccountID_def Let_def numeral_eq_Suc split: list.splits)

lemma fetch_no_seven:
  "count_list p (CHR ''/'') \<noteq> 6 \<Longrightarrow> fetchInstanceAndAccountID p = ([], [])"
  by (simp add: fetchInstanceAndAccountID_def go_split)

lemma fetch_of_parts:
  assumes "CHR ''/'' \<notin> set account" and "CHR ''/'' \<notin> set cluster" and "CHR ''/'' \<notin> set worker"
  shows "fetchInstanceAndAccountID (''ibm://'' @ account @ ''///'' @ cluster @ ''/'' @ worker) = (worker, account)"
  using assms by (simp add: fetchInstanceAndAccountID_def go_split)

lemma metadata_of_node_iff:
  "metadata_of_node node = Inr md \<longleftrightarrow>
     zone md = label (Labels node) NodeZoneLabel \<and> zone md \<noteq> []
     \<and> region md = label (Labels node) NodeRegionLabel \<and> region md \<noteq> []
     \<and> (if label (Labels node) MachineTypeLabel = UPI
        then workerID md = label (Labels node) NodeInstanceIDLabel \<and> accountID md = []
        else (workerID md, accountID md) = fetchInstanceAndAccountID (ProviderID node) \<and> workerID md \<noteq> [])"
proof (cases "fetchInstanceAndAccountID (ProviderID node)")
  case (Pair w a)
  show ?thesis by (cases md) (auto simp: metadata_of_node_def Let_def Pair)
qed

section \<open>Properties\<close>

text \<open>The provider ID \<open>ibm://account///cluster/worker\<close> is taken apart into its worker and its
  account, whatever they are as long as no part contains a slash.\<close>

lemma fetchInstanceAndAccountID_roundtrip:
  assumes "CHR ''/'' \<notin> set account" and "CHR ''/'' \<notin> set cluster" and "CHR ''/'' \<notin> set worker"
  shows "fetchInstanceAndAccountID (''ibm://'' @ account @ ''///'' @ cluster @ ''/'' @ worker) = (worker, account)"
  using assms by (rule fetch_of_parts)

lemma fetchInstanceAndAccountID_roundtrip_witness:
  "fetchInstanceAndAccountID ''ibm://acc///cl/kube-1'' = (''kube-1'', ''acc'')"
  using fetchInstanceAndAccountID_roundtrip [of "''acc''" "''cl''" "''kube-1''"] by simp

text \<open>FetchInstanceAndAccountID returns a pair of parts of any string with exactly six slashes
  (the third and the seventh part) and two empty strings for every other string; it never
  reads out of range.\<close>

lemma fetchInstanceAndAccountID_total:
  "if count_list p (CHR ''/'') = 6
   then \<exists>a b d e f. p = a @ ''/'' @ b @ ''/'' @ snd (fetchInstanceAndAccountID p) @ ''/'' @ d @ ''/'' @ e
          @ ''/'' @ f @ ''/'' @ fst (fetchInstanceAndAccountID p)
   else fetchInstanceAndAccountID p = ([], [])"
proof (cases "count_list p (CHR ''/'') = 6")
  case True
  then have "length (strings_Split p (CHR ''/'')) = 7" by (simp add: strings_Split_length)
  then obtain a b c d e f g where s: "strings_Split p (CHR ''/'') = [a, b, c, d, e, f, g]"
    by (auto simp: numeral_eq_Suc length_Suc_conv)
  have fg: "fst (fetchInstanceAndAccountID p) = g" "snd (fetchInstanceAndAccountID p) = c"
    by (simp_all add: fetch_parts s)
  have "p = a @ ''/'' @ b @ ''/'' @ c @ ''/'' @ d @ ''/'' @ e @ ''/'' @ f @ ''/'' @ g"
    using strings_Join_Split [of p "CHR ''/''"] by (simp add: s)
  then have "\<exists>a b d e f. p = a @ ''/'' @ b @ ''/'' @ c @ ''/'' @ d @ ''/'' @ e @ ''/'' @ f @ ''/'' @ g"
    by (intro exI)
  then show ?thesis using True by (simp only: fg if_True simp_thms)
qed (simp add: fetch_no_seven)

text \<open>C25: NewNodeMetadata succeeds exactly when the three client calls succeed, the region and zone
  labels are not empty, and the node is a satellite host (machine type upi) or its provider
  ID has a worker part; the result then holds those labels and parts.\<close>

theorem NewNodeMetadata_succeeds_iff:
  "NewNodeMetadata cfg newc get nm = Inr md \<longleftrightarrow>
     (\<exists>c cs node. cfg = Inr c \<and> newc c = Inr cs \<and> get cs (NodeName nm) = Inr node
        \<and> zone md = label (Labels node) NodeZoneLabel \<and> zone md \<noteq> []
        \<and> region md = label (Labels node) NodeRegionLabel \<and> region md \<noteq> []
        \<and> (if label (Labels node) MachineTypeLabel = UPI
           then workerID md = label (Labels node) NodeInstanceIDLabel \<and> accountID md = []
           else (workerID md, accountID md) = fetchInstanceAndAccountID (ProviderID node) \<and> workerID md \<noteq> []))"
  by (auto simp: NewNodeMetadata_def metadata_of_node_iff split: sum.split)

text \<open>On a satellite host the worker ID is not checked: with the two required labels present
  NewNodeMetadata succeeds with an empty worker ID when the vpc-instance-id label is missing,
  where every other kind of node without a worker ID is refused with an error.\<close>

lemma NewNodeMetadata_satellite_worker_unchecked:
  assumes "cfg = Inr c" and "newc c = Inr cs" and "get cs (NodeName nm) = Inr node"
    and "label (Labels node) NodeZoneLabel \<noteq> []" and "label (Labels node) NodeRegionLabel \<noteq> []"
    and "map_of (Labels node) NodeInstanceIDLabel = None"
    and "fst (fetchInstanceAndAccountID (ProviderID node)) = []"
  shows "if label (Labels node) MachineTypeLabel = UPI
    then \<exists>md. NewNodeMetadata cfg newc get nm = Inr md \<and> workerID md = []
    else NewNodeMetadata cfg newc get nm = Inl (provider_id_error (ProviderID node))"
proof -
  have "label (Labels node) NodeInstanceIDLabel = []" using assms(6) by (simp add: label_def map_read_def)
  then show ?thesis using assms
    by (auto simp: NewNodeMetadata_def metadata_of_node_def Let_def split: prod.splits)
qed

lemma NewNodeMetadata_satellite_worker_unchecked_witness:
  "\<exists>md. NewNodeMetadata (Inr ()) (\<lambda>c. Inr ()) (\<lambda>cs name. Inr
      \<lparr>Labels = [(NodeZoneLabel, ''z1''), (NodeRegionLabel, ''r1''), (MachineTypeLabel, UPI)], ProviderID = []\<rparr>)
      \<lparr>NodeName = ''host''\<rparr> = Inr md \<and> workerID md = []"
proof -
  let ?n = "\<lparr>Labels = [(NodeZoneLabel, ''z1''), (NodeRegionLabel, ''r1''), (MachineTypeLabel, UPI)], ProviderID = []\<rparr>"
  have "if label (Labels ?n) MachineTypeLabel = UPI
    then \<exists>md. NewNodeMetadata (Inr ()) (\<lambda>c. Inr ()) (\<lambda>cs name. Inr ?n) \<lparr>NodeName = ''host''\<rparr> = Inr md \<and> workerID md = []
    else NewNodeMetadata (Inr ()) (\<lambda>c. Inr ()) (\<lambda>cs name. Inr ?n) \<lparr>NodeName = ''host''\<rparr>
       = Inl (provider_id_error (ProviderID ?n))"
    by (rule NewNodeMetadata_satellite_worker_unchecked)
      (simp_all add: label_def node_label_defs fetchInstanceAndAccountID_def)
  then show ?thesis by (simp add: label_def node_label_defs)
qed

end
