(* ===== verification/FakeMetadata.thy ===== *)
theory FakeMetadata
  imports FakeMethod Metadata
begin

text \<open>
  The generated fakes of the two interfaces of package metadata: FakeNodeMetadata
  (fake\_node\_metadata.go) with its four getters and FakeNodeInfo (fake/fake\_node\_info.go)
  with NewNodeMetadata. Each method is an instance of the faked method of the theory
  FakeMethod, next to the map of recorded invocations.
\<close>

section \<open>FakeNodeMetadata\<close>

text \<open>A getter has no arguments: its recorded arguments are units and its invocations are empty lists.\<close>

record FakeNodeMetadata =
  getAccountID :: "(unit, string) fake_method"
  getRegion :: "(unit, string) fake_method"
  getWorkerID :: "(unit, string) fake_method"
  getZone :: "(unit, string) fake_method"
  invocations :: "unit invocation_map"

definition zero_FakeNodeMetadata :: FakeNodeMetadata where
  "zero_FakeNodeMetadata = \<lparr>getAccountID = zero_method [], getRegion = zero_method [],
     getWorkerID = zero_method [], getZone = zero_method [], invocations = None\<rparr>"

definition FakeNodeMetadata_recordInvocation :: "string \<Rightarrow> unit list \<Rightarrow> FakeNodeMetadata \<Rightarrow> FakeNodeMetadata" where
  "FakeNodeMetadata_recordInvocation key args fake =
     fake\<lparr>invocations := record_invocation key args (invocations fake)\<rparr>"

definition Fake_GetAccountID :: "FakeNodeMetadata \<Rightarrow> string \<times> FakeNodeMetadata" where
  "Fake_GetAccountID fake =
     (let (result1, m) = fake_call () (getAccountID fake) in
      (result1, FakeNodeMetadata_recordInvocation ''GetAccountID'' [] (fake\<lparr>getAccountID := m\<rparr>)))"

definition Fake_GetAccountIDCallCount :: "FakeNodeMetadata \<Rightarrow> nat" where
  "Fake_GetAccountIDCallCount fake = fake_CallCount (getAccountID fake)"

definition Fake_GetAccountIDCalls :: "(unit \<Rightarrow> string) option \<Rightarrow> FakeNodeMetadata \<Rightarrow> FakeNodeMetadata" where
  "Fake_GetAccountIDCalls stub fake = fake\<lparr>getAccountID := fake_Calls stub (getAccountID fake)\<rparr>"

definition Fake_GetAccountIDReturns :: "string \<Rightarrow> FakeNodeMetadata \<Rightarrow> FakeNodeMetadata" where
  "Fake_GetAccountIDReturns result1 fake = fake\<lparr>getAccountID := fake_Returns result1 (getAccountID fake)\<rparr>"

definition Fake_GetAccountIDReturnsOnCall :: "int \<Rightarrow> string \<Rightarrow> FakeNodeMetadata \<Rightarrow> FakeNodeMetadata" where
  "Fake_GetAccountIDReturnsOnCall i result1 fake =
     fake\<lparr>getAccountID := fake_ReturnsOnCall i result1 (getAccountID fake)\<rparr>"

definition Fake_GetRegion :: "FakeNodeMetadata \<Rightarrow> string \<times> FakeNodeMetadata" where
  "Fake_GetRegion fake =
     (let (result1, m) = fake_call () (getRegion fake) in
      (result1, FakeNodeMetadata_recordInvocation ''GetRegion'' [] (fake\<lparr>getRegion := m\<rparr>)))"

definition Fake_GetRegionCallCount :: "FakeNodeMetadata \<Rightarrow> nat" where
  "Fake_GetRegionCallCount fake = fake_CallCount (getRegion fake)"

definition Fake_GetRegionCalls :: "(unit \<Rightarrow> string) option \<Rightarrow> FakeNodeMetadata \<Rightarrow> FakeNodeMetadata" where
  "Fake_GetRegionCalls stub fake = fake\<lparr>getRegion := fake_Calls stub (getRegion fake)\<rparr>"

definition Fake_GetRegionReturns :: "string \<Rightarrow> FakeNodeMetadata \<Rightarrow> FakeNodeMetadata" where
  "Fake_GetRegionReturns result1 fake = fake\<lparr>getRegion := fake_Returns result1 (getRegion fake)\<rparr>"

definition Fake_GetRegionReturnsOnCall :: "int \<Rightarrow> string \<Rightarrow> FakeNodeMetadata \<Rightarrow> FakeNodeMetadata" where
  "Fake_GetRegionReturnsOnCall i result1 fake =
     fake\<lparr>getRegion := fake_ReturnsOnCall i result1 (getRegion fake)\<rparr>"

definition Fake_GetWorkerID :: "FakeNodeMetadata \<Rightarrow> string \<times> FakeNodeMetadata" where
  "Fake_GetWorkerID fake =
     (let (result1, m) = fake_call () (getWorkerID fake) in
      (result1, FakeNodeMetadata_recordInvocation ''GetWorkerID'' [] (fake\<lparr>getWorkerID := m\<rparr>)))"

definition Fake_GetWorkerIDCallCount :: "FakeNodeMetadata \<Rightarrow> nat" where
  "Fake_GetWorkerIDCallCount fake = fake_CallCount (getWorkerID fake)"

definition Fake_GetWorkerIDCalls :: "(unit \<Rightarrow> string) option \<Rightarrow> FakeNodeMetadata \<Rightarrow> FakeNodeMetadata" where
  "Fake_GetWorkerIDCalls stub fake = fake\<lparr>getWorkerID := fake_Calls stub (getWorkerID fake)\<rparr>"

definition Fake_GetWorkerIDReturns :: "string \<Rightarrow> FakeNodeMetadata \<Rightarrow> FakeNodeMetadata" where
  "Fake_GetWorkerIDReturns result1 fake = fake\<lparr>getWorkerID := fake_Returns result1 (getWorkerID fake)\<rparr>"

definition Fake_GetWorkerIDReturnsOnCall :: "int \<Rightarrow> string \<Rightarrow> FakeNodeMetadata \<Rightarrow> FakeNodeMetadata" where
  "Fake_GetWorkerIDReturnsOnCall i result1 fake =
     fake\<lparr>getWorkerID := fake_ReturnsOnCall i result1 (getWorkerID fake)\<rparr>"

definition Fake_GetZone :: "FakeNodeMetadata \<Rightarrow> string \<times> FakeNodeMetadata" where
  "Fake_GetZone fake =
     (let (result1, m) = fake_call () (getZone fake) in
      (result1, FakeNodeMetadata_recordInvocation ''GetZone'' [] (fake\<lparr>getZone := m\<rparr>)))"

definition Fake_GetZoneCallCount :: "FakeNodeMetadata \<Rightarrow> nat" where
  "Fake_GetZoneCallCount fake = fake_CallCount (getZone fake)"

definition Fake_GetZoneCalls :: "(unit \<Rightarrow> string) option \<Rightarrow> FakeNodeMetadata \<Rightarrow> FakeNodeMetadata" where
  "Fake_GetZoneCalls stub fake = fake\<lparr>getZone := fake_Calls stub (getZone fake)\<rparr>"

definition Fake_GetZoneReturns :: "string \<Rightarrow> FakeNodeMetadata \<Rightarrow> FakeNodeMetadata" where
  "Fake_GetZoneReturns result1 fake = fake\<lparr>getZone := fake_Returns result1 (getZone fake)\<rparr>"

definition Fake_GetZoneReturnsOnCall :: "int \<Rightarrow> string \<Rightarrow> FakeNodeMetadata \<Rightarrow> FakeNodeMetadata" where
  "Fake_GetZoneReturnsOnCall i result1 fake =
     fake\<lparr>getZone := fake_ReturnsOnCall i result1 (getZone fake)\<rparr>"

definition FakeNodeMetadata_Invocations :: "FakeNodeMetadata \<Rightarrow> unit list list go_map" where
  "FakeNodeMetadata_Invocations fake = copy_invocations (invocations fake)"

lemmas fake_get_defs =
  Fake_GetAccountID_def Fake_GetAccountIDCallCount_def Fake_GetAccountIDCalls_def Fake_GetAccountIDReturns_def Fake_GetAccountIDReturnsOnCall_def
  Fake_GetRegion_def Fake_GetRegionCallCount_def Fake_GetRegionCalls_def Fake_GetRegionReturns_def Fake_GetRegionReturnsOnCall_def
  Fake_GetWorkerID_def Fake_GetWorkerIDCallCount_def Fake_GetWorkerIDCalls_def Fake_GetWorkerIDReturns_def Fake_GetWorkerIDReturnsOnCall_def
  Fake_GetZone_def Fake_GetZoneCallCount_def Fake_GetZoneCalls_def Fake_GetZoneReturns_def Fake_GetZoneReturnsOnCall_def
  FakeNodeMetadata_recordInvocation_def

section \<open>FakeNodeInfo\<close>

text \<open>
  NewNodeMetadata takes the logger and returns a NodeMetadata value and an error, so its result
  is a pair; the interface values are type parameters with \<open>None\<close> for nil.
\<close>

record ('log, 'md) FakeNodeInfo =
  newNodeMetadata :: "('log, 'md option go_result) fake_method"
  info_invocations :: "'log invocation_map"

definition zero_FakeNodeInfo :: "('log, 'md) FakeNodeInfo" where
  "zero_FakeNodeInfo = \<lparr>newNodeMetadata = zero_method (None, None), info_invocations = None\<rparr>"

definition FakeNodeInfo_recordInvocation ::
  "string \<Rightarrow> 'log list \<Rightarrow> ('log, 'md) FakeNodeInfo \<Rightarrow> ('log, 'md) FakeNodeInfo" where
  "FakeNodeInfo_recordInvocation key args fake =
     fake\<lparr>info_invocations := record_invocation key args (info_invocations fake)\<rparr>"

definition Fake_NewNodeMetadata ::
  "'log \<Rightarrow> ('log, 'md) FakeNodeInfo \<Rightarrow> 'md option go_result \<times> ('log, 'md) FakeNodeInfo" where
  "Fake_NewNodeMetadata arg1 fake =
     (let (result, m) = fake_call arg1 (newNodeMetadata fake) in
      (result, FakeNodeInfo_recordInvocation ''NewNodeMetadata'' [arg1] (fake\<lparr>newNodeMetadata := m\<rparr>)))"

definition Fake_NewNodeMetadataCallCount :: "('log, 'md) FakeNodeInfo \<Rightarrow> nat" where
  "Fake_NewNodeMetadataCallCount fake = fake_CallCount (newNodeMetadata fake)"

definition Fake_NewNodeMetadataCalls ::
  "('log \<Rightarrow> 'md option go_result) option \<Rightarrow> ('log, 'md) FakeNodeInfo \<Rightarrow> ('log, 'md) FakeNodeInfo" where
  "Fake_NewNodeMetadataCalls stub fake = fake\<lparr>newNodeMetadata := fake_Calls stub (newNodeMetadata fake)\<rparr>"

definition Fake_NewNodeMetadataArgsForCall :: "int \<Rightarrow> ('log, 'md) FakeNodeInfo \<Rightarrow> 'log can_panic" where
  "Fake_NewNodeMetadataArgsForCall i fake = fake_ArgsForCall i (newNodeMetadata fake)"

definition Fake_NewNodeMetadataReturns ::
  "'md option \<Rightarrow> go_error option \<Rightarrow> ('log, 'md) FakeNodeInfo \<Rightarrow> ('log, 'md) FakeNodeInfo" where
  "Fake_NewNodeMetadataReturns result1 result2 fake =
     fake\<lparr>newNodeMetadata := fake_Returns (result1, result2) (newNodeMetadata fake)\<rparr>"

definition Fake_NewNodeMetadataReturnsOnCall ::
  "int \<Rightarrow> 'md option \<Rightarrow> go_error option \<Rightarrow> ('log, 'md) FakeNodeInfo \<Rightarrow> ('log, 'md) FakeNodeInfo" where
  "Fake_NewNodeMetadataReturnsOnCall i result1 result2 fake =
     fake\<lparr>newNodeMetadata := fake_ReturnsOnCall i (result1, result2) (newNodeMetadata fake)\<rparr>"

definition FakeNodeInfo_Invocations :: "('log, 'md) FakeNodeInfo \<Rightarrow> 'log list list go_map" where
  "FakeNodeInfo_Invocations fake = copy_invocations (info_invocations fake)"

lemmas fake_info_defs =
  Fake_NewNodeMetadata_def Fake_NewNodeMetadataCallCount_def Fake_NewNodeMetadataCalls_def
  Fake_NewNodeMetadataArgsForCall_def Fake_NewNodeMetadataReturns_def
  Fake_NewNodeMetadataReturnsOnCall_def FakeNodeInfo_recordInvocation_def

section \<open>Histories of a FakeNodeMetadata\<close>

text \<open>The getters of the interface, and all operations, selected by the getter they are for.\<close>

fun fake_getter :: "getter \<Rightarrow> FakeNodeMetadata \<Rightarrow> string \<times> FakeNodeMetadata" where
  "fake_getter CallGetZone fake = Fake_GetZone fake"
| "fake_getter CallGetRegion fake = Fake_GetRegion fake"
| "fake_getter CallGetWorkerID fake = Fake_GetWorkerID fake"
| "fake_getter CallGetAccountID fake = Fake_GetAccountID fake"

fun getter_name :: "getter \<Rightarrow> string" where
  "getter_name CallGetZone = ''GetZone''"
| "getter_name CallGetRegion = ''GetRegion''"
| "getter_name CallGetWorkerID = ''GetWorkerID''"
| "getter_name CallGetAccountID = ''GetAccountID''"

fun part :: "getter \<Rightarrow> FakeNodeMetadata \<Rightarrow> (unit, string) fake_method" where
  "part CallGetZone fake = getZone fake"
| "part CallGetRegion fake = getRegion fake"
| "part CallGetWorkerID fake = getWorkerID fake"
| "part CallGetAccountID fake = getAccountID fake"

fun fake_count :: "getter \<Rightarrow> FakeNodeMetadata \<Rightarrow> nat" where
  "fake_count CallGetZone fake = Fake_GetZoneCallCount fake"
| "fake_count CallGetRegion fake = Fake_GetRegionCallCount fake"
| "fake_count CallGetWorkerID fake = Fake_GetWorkerIDCallCount fake"
| "fake_count CallGetAccountID fake = Fake_GetAccountIDCallCount fake"

fun set_calls :: "getter \<Rightarrow> (unit \<Rightarrow> string) option \<Rightarrow> FakeNodeMetadata \<Rightarrow> FakeNodeMetadata" where
  "set_calls CallGetZone stub fake = Fake_GetZoneCalls stub fake"
| "set_calls CallGetRegion stub fake = Fake_GetRegionCalls stub fake"
| "set_calls CallGetWorkerID stub fake = Fake_GetWorkerIDCalls stub fake"
| "set_calls CallGetAccountID stub fake = Fake_GetAccountIDCalls stub fake"

fun set_returns :: "getter \<Rightarrow> string \<Rightarrow> FakeNodeMetadata \<Rightarrow> FakeNodeMetadata" where
  "set_returns CallGetZone r fake = Fake_GetZoneReturns r fake"
| "set_returns CallGetRegion r fake = Fake_GetRegionReturns r fake"
| "set_returns CallGetWorkerID r fake = Fake_GetWorkerIDReturns r fake"
| "set_returns CallGetAccountID r fake = Fake_GetAccountIDReturns r fake"

fun set_on_call :: "getter \<Rightarrow> int \<Rightarrow> string \<Rightarrow> FakeNodeMetadata \<Rightarrow> FakeNodeMetadata" where
  "set_on_call CallGetZone i r fake = Fake_GetZoneReturnsOnCall i r fake"
| "set_on_call CallGetRegion i r fake = Fake_GetRegionReturnsOnCall i r fake"
| "set_on_call CallGetWorkerID i r fake = Fake_GetWorkerIDReturnsOnCall i r fake"
| "set_on_call CallGetAccountID i r fake = Fake_GetAccountIDReturnsOnCall i r fake"

fun fake_step :: "getter \<times> (unit, string) method_op \<Rightarrow> FakeNodeMetadata \<Rightarrow> FakeNodeMetadata" where
  "fake_step (g, Call u) fake = snd (fake_getter g fake)"
| "fake_step (g, SetCalls stub) fake = set_calls g stub fake"
| "fake_step (g, SetReturns r) fake = set_returns g r fake"
| "fake_step (g, SetReturnsOnCall i r) fake = set_on_call g i r fake"

definition fake_run :: "(getter \<times> (unit, string) method_op) list \<Rightarrow> FakeNodeMetadata \<Rightarrow> FakeNodeMetadata" where
  "fake_run ops fake = fold fake_step ops fake"

text \<open>The operations of a history that are for one getter.\<close>

definition ops_for :: "getter \<Rightarrow> (getter \<times> 'o) list \<Rightarrow> 'o list" where
  "ops_for g ops = map snd (filter (\<lambda>op. fst op = g) ops)"

lemma getter_name_inj [simp]: "getter_name g = getter_name g' \<longleftrightarrow> g = g'"
  by (cases g; cases g') simp_all

lemma fake_getter_value: "fst (fake_getter g fake) = fst (fake_call () (part g fake))"
  by (cases g) (simp_all add: fake_get_defs split_beta)

lemma fake_getter_invocations:
  "invocations (snd (fake_getter g fake)) = record_invocation (getter_name g) [] (invocations fake)"
  by (cases g) (simp_all add: fake_get_defs split_beta)

lemma fake_getter_part:
  "part g' (snd (fake_getter g fake)) = (if g' = g then snd (fake_call () (part g fake)) else part g' fake)"
  by (cases g; cases g') (simp_all add: fake_get_defs split_beta)

lemma fake_count_part: "fake_count g fake = fake_CallCount (part g fake)"
  by (cases g) (simp_all add: fake_get_defs)

lemma set_part:
  "part g' (set_calls g stub fake) = (if g' = g then fake_Calls stub (part g fake) else part g' fake)"
  "part g' (set_returns g r fake) = (if g' = g then fake_Returns r (part g fake) else part g' fake)"
  "part g' (set_on_call g i r fake) = (if g' = g then fake_ReturnsOnCall i r (part g fake) else part g' fake)"
  by (cases g; cases g'; simp add: fake_get_defs)+

lemma set_invocations:
  "invocations (set_calls g stub fake) = invocations fake"
  "invocations (set_returns g r fake) = invocations fake"
  "invocations (set_on_call g i r fake) = invocations fake"
  by (cases g; simp add: fake_get_defs)+

lemmas fake_parts = fake_getter_part set_part

text \<open>A fake is four independent faked methods.\<close>

lemma fake_step_part:
  "part g (fake_step (g', op) fake) = (if g' = g then method_step op (part g fake) else part g fake)"
  by (cases op) (simp_all add: fake_parts)

lemma fake_run_part: "part g (fake_run ops fake) = method_run (ops_for g ops) (part g fake)"
  by (induction ops arbitrary: fake)
    (auto simp: fake_run_def method_run_def ops_for_def fake_step_part)

lemma part_zero [simp]: "part g zero_FakeNodeMetadata = zero_method []"
  by (cases g) (simp_all add: zero_FakeNodeMetadata_def)

lemma fake_run_snoc: "fake_run (ops @ [op]) fake = fake_step op (fake_run ops fake)"
  by (simp add: fake_run_def)

lemma ops_for_snoc: "ops_for g (ops @ [(g', op)]) = ops_for g ops @ (if g' = g then [op] else [])"
  by (simp add: ops_for_def)

lemma fake_run_invocations:
  "invocations_ok (invocations (fake_run ops zero_FakeNodeMetadata))
   \<and> invocations_of (invocations (fake_run ops zero_FakeNodeMetadata)) (getter_name g)
      = map (\<lambda>u. []) (calls_of (rev (ops_for g ops)))"
proof (induction ops rule: rev_induct)
  case Nil
  then show ?case by (simp add: fake_run_def ops_for_def zero_FakeNodeMetadata_def)
next
  case (snoc gop ops)
  obtain g' op where gop: "gop = (g', op)" by force
  show ?case using snoc
    by (cases op) (auto simp: gop fake_run_snoc ops_for_snoc fake_getter_invocations set_invocations)
qed

section \<open>A fake as a NodeMetadata\<close>

definition fake_view :: "FakeNodeMetadata \<Rightarrow> nodeMetadataManager" where
  "fake_view fake = \<lparr>zone = Returns (getZone fake), region = Returns (getRegion fake),
     workerID = Returns (getWorkerID fake), accountID = Returns (getAccountID fake)\<rparr>"

text \<open>No stub, and no result set for a call still to come.\<close>

definition method_fixed :: "('a, 'r) fake_method \<Rightarrow> bool" where
  "method_fixed m \<longleftrightarrow> Stub m = None
     \<and> (\<forall>n \<ge> length (ArgsForCall m). Option.bind (ReturnsOnCall m) (\<lambda>on. on (int n)) = None)"

definition fake_fixed :: "FakeNodeMetadata \<Rightarrow> bool" where
  "fake_fixed fake \<longleftrightarrow> (\<forall>g. method_fixed (part g fake))"

lemma method_fixed_call: "method_fixed m \<Longrightarrow> fst (fake_call a m) = Returns m"
  by (simp add: method_fixed_def fake_call_value)

lemma method_fixed_after: "method_fixed m \<Longrightarrow> method_fixed (snd (fake_call a m))"
  by (simp add: method_fixed_def)

lemma fake_view_part: "field (fake_view fake) g = Returns (part g fake)"
  by (cases g) (simp_all add: fake_view_def)

lemma fake_getter_view: "fake_view (snd (fake_getter g fake)) = fake_view fake"
  by (cases g) (simp_all add: fake_view_def fake_get_defs split_beta)

interpretation faked: node_metadata fake_getter fake_view fake_fixed
proof
  fix g fake
  assume "fake_fixed fake"
  then have m: "method_fixed (part g' fake)" for g' by (simp add: fake_fixed_def)
  show "fst (fake_getter g fake) = field (fake_view fake) g"
    by (simp add: fake_getter_value method_fixed_call [OF m] fake_view_part)
  show "fake_view (snd (fake_getter g fake)) = fake_view fake" by (rule fake_getter_view)
  show "fake_fixed (snd (fake_getter g fake))"
    using m method_fixed_after [OF m] by (simp add: fake_fixed_def fake_getter_part)
qed

text \<open>A fake set up to stand in for a node.\<close>

definition fake_for :: "nodeMetadataManager \<Rightarrow> FakeNodeMetadata" where
  "fake_for md =
     Fake_GetZoneReturns (zone md) (Fake_GetRegionReturns (region md)
       (Fake_GetWorkerIDReturns (workerID md) (Fake_GetAccountIDReturns (accountID md) zero_FakeNodeMetadata)))"

lemma fake_for_ok: "fake_fixed (fake_for md)" "fake_view (fake_for md) = md"
proof -
  have "method_fixed (part g (fake_for md))" for g
    by (cases g) (simp_all add: fake_for_def fake_get_defs fake_Returns_def zero_FakeNodeMetadata_def
        zero_method_def method_fixed_def)
  then show "fake_fixed (fake_for md)" by (simp add: fake_fixed_def)
  show "fake_view (fake_for md) = md"
    by (simp add: fake_for_def fake_view_def fake_get_defs fake_Returns_def zero_FakeNodeMetadata_def)
qed

section \<open>Histories of a FakeNodeInfo\<close>

fun info_step ::
  "('log, 'md option go_result) method_op \<Rightarrow> ('log, 'md) FakeNodeInfo \<Rightarrow> ('log, 'md) FakeNodeInfo" where
  "info_step (Call logger) fake = snd (Fake_NewNodeMetadata logger fake)"
| "info_step (SetCalls stub) fake = Fake_NewNodeMetadataCalls stub fake"
| "info_step (SetReturns r) fake = Fake_NewNodeMetadataReturns (fst r) (snd r) fake"
| "info_step (SetReturnsOnCall i r) fake = Fake_NewNodeMetadataReturnsOnCall i (fst r) (snd r) fake"

definition info_run ::
  "('log, 'md option go_result) method_op list \<Rightarrow> ('log, 'md) FakeNodeInfo \<Rightarrow> ('log, 'md) FakeNodeInfo" where
  "info_run ops fake = fold info_step ops fake"

lemma info_run_snoc: "info_run (ops @ [op]) fake = info_step op (info_run ops fake)"
  by (simp add: info_run_def)

lemma info_run_method:
  "newNodeMetadata (info_run ops zero_FakeNodeInfo) = method_run ops (zero_method (None, None))"
proof (induction ops rule: rev_induct)
  case Nil
  then show ?case by (simp add: info_run_def method_run_def zero_FakeNodeInfo_def)
next
  case (snoc op ops)
  then show ?case
    by (cases op) (simp_all add: info_run_snoc method_run_def fake_info_defs split_beta)
qed

lemma info_run_invocations:
  "invocations_ok (info_invocations (info_run ops zero_FakeNodeInfo))
   \<and> invocations_of (info_invocations (info_run ops zero_FakeNodeInfo)) ''NewNodeMetadata''
      = map (\<lambda>logger. [logger]) (calls_of (rev ops))"
proof (induction ops rule: rev_induct)
  case Nil
  then show ?case by (simp add: info_run_def zero_FakeNodeInfo_def)
next
  case (snoc op ops)
  then show ?case by (cases op) (simp_all add: info_run_snoc fake_info_defs split_beta)
qed

section \<open>The interface NodeInfo\<close>

text \<open>
  An implementation of NodeInfo is a receiver and the method NewNodeMetadata on it, which
  returns a NodeMetadata value, or nil, with an error, or nil. A driver makes the value at its
  start and calls getters of it; nothing else of the two interfaces is visible to it.
\<close>

type_synonym ('log, 'md, 's) NodeInfo = "'log \<Rightarrow> 's \<Rightarrow> 'md option go_result \<times> 's"

definition NodeInfoManager_impl ::
  "go_error + 'cfg \<Rightarrow> ('cfg \<Rightarrow> go_error + 'client) \<Rightarrow> ('client \<Rightarrow> string \<Rightarrow> go_error + Node)
   \<Rightarrow> ('log, nodeMetadataManager, NodeInfoManager) NodeInfo" where
  "NodeInfoManager_impl InClusterConfig NewForConfig GetNode logger nodeManager =
     (case NewNodeMetadata InClusterConfig NewForConfig GetNode nodeManager of
        Inl err \<Rightarrow> (None, Some err)
      | Inr md \<Rightarrow> (Some md, None), nodeManager)"

fun driver_start ::
  "('log, 'md, 's) NodeInfo \<Rightarrow> (getter \<Rightarrow> 'md \<Rightarrow> string \<times> 'md) \<Rightarrow> 'log \<Rightarrow> getter list \<Rightarrow> 's
   \<Rightarrow> string list option go_result" where
  "driver_start new call logger gs s =
     (case fst (new logger s) of
        (Some md, None) \<Rightarrow> (Some (fst (read_all call gs md)), None)
      | (r, err) \<Rightarrow> (None, err))"

text \<open>What the fakes are set to so that they stand in for a node manager.\<close>

definition fake_info_for ::
  "go_error + nodeMetadataManager \<Rightarrow> ('log, FakeNodeMetadata) FakeNodeInfo" where
  "fake_info_for r =
     (case r of
        Inl err \<Rightarrow> Fake_NewNodeMetadataReturns None (Some err) zero_FakeNodeInfo
      | Inr md \<Rightarrow> Fake_NewNodeMetadataReturns (Some (fake_for md)) None zero_FakeNodeInfo)"

lemma fake_info_for_value:
  "fst (Fake_NewNodeMetadata logger (fake_info_for r)) =
     (case r of Inl err \<Rightarrow> (None, Some err) | Inr md \<Rightarrow> (Some (fake_for md), None))"
  by (cases r) (simp_all add: fake_info_for_def fake_info_defs split_beta fake_call_value
      fake_Returns_def zero_FakeNodeInfo_def zero_method_def)

text \<open>A driver started over the two fakes sees what it sees over the real implementations: the
  same error, or the same answers to any sequence of getter calls.\<close>

lemma fakes_stand_in_at_start:
  "driver_start Fake_NewNodeMetadata fake_getter logger gs
      (fake_info_for (NewNodeMetadata InClusterConfig NewForConfig GetNode nodeManager))
   = driver_start (NodeInfoManager_impl InClusterConfig NewForConfig GetNode) manager_call logger gs nodeManager"
  by (cases "NewNodeMetadata InClusterConfig NewForConfig GetNode nodeManager")
    (simp_all add: fake_info_for_value NodeInfoManager_impl_def faked.read_all_value [OF fake_for_ok(1)]
      fake_for_ok(2) manager.read_all_value)

section \<open>Properties\<close>

text \<open>C35: over every history of calls and settings of its four methods, a FakeNodeMetadata answers a
  getter by the operations on that getter alone, as the contract of a faked method says, and
  the call count and the recorded invocations of the getter are the number of its calls.\<close>

theorem FakeNodeMetadata_contract:
  "fst (fake_getter g (fake_run ops zero_FakeNodeMetadata)) = promised_result [] (rev (ops_for g ops)) ()
   \<and> fake_count g (fake_run ops zero_FakeNodeMetadata) = length (calls_of (rev (ops_for g ops)))
   \<and> map_read [] (FakeNodeMetadata_Invocations (fake_run ops zero_FakeNodeMetadata)) (getter_name g)
      = replicate (length (calls_of (rev (ops_for g ops)))) []"
  using fake_run_invocations [of ops g]
  by (simp add: fake_getter_value fake_count_part fake_run_part method_contract
      FakeNodeMetadata_Invocations_def copy_invocations_read map_replicate_const)

text \<open>A FakeNodeMetadata whose four results are set to the fields of a node answers every sequence
  of getter calls as the nodeMetadataManager of that node does.\<close>

lemma FakeNodeMetadata_stands_in:
  "fst (read_all fake_getter gs (fake_for md)) = fst (read_all manager_call gs md)"
  by (simp add: faked.read_all_value [OF fake_for_ok(1)] fake_for_ok(2) manager.read_all_value)

text \<open>Over every history a FakeNodeInfo answers NewNodeMetadata by the contract of a faked method,
  with the nil value and the nil error when nothing was set, and records the loggers it was
  called with, in order, both as arguments and as invocations.\<close>

lemma FakeNodeInfo_contract:
  "fst (Fake_NewNodeMetadata logger (info_run ops zero_FakeNodeInfo))
      = promised_result (None, None) (rev ops) logger
   \<and> Fake_NewNodeMetadataCallCount (info_run ops zero_FakeNodeInfo) = length (calls_of (rev ops))
   \<and> Fake_NewNodeMetadataArgsForCall i (info_run ops zero_FakeNodeInfo)
      = (if 0 \<le> i \<and> i < int (length (calls_of (rev ops))) then Inr (calls_of (rev ops) ! nat i)
         else Inl IndexOutOfRange)
   \<and> map_read [] (FakeNodeInfo_Invocations (info_run ops zero_FakeNodeInfo)) ''NewNodeMetadata''
      = map (\<lambda>logger. [logger]) (calls_of (rev ops))"
  using info_run_invocations [of ops]
  by (simp add: Fake_NewNodeMetadata_def Fake_NewNodeMetadataCallCount_def
      Fake_NewNodeMetadataArgsForCall_def FakeNodeInfo_Invocations_def split_beta info_run_method
      method_contract copy_invocations_read)

end
