(* ===== verification/Threads.thy ===== *)
theory Threads
  imports Prelude
begin

text \<open>
  Threads that take steps in any order. A program with threads is a partial step function: the
  state after the next step of a thread, or nothing when that thread is blocked or finished.
  The locales say what makes every schedule end, and what makes every schedule end well; the
  lock store and its clients, the fakes, the watcher and the calls of Descriptor interpret them.
\<close>

section \<open>Schedules\<close>

text \<open>The threads that take a step, in order; \<open>None\<close> when one of them cannot.\<close>

fun run_schedule :: "(nat \<Rightarrow> 's \<Rightarrow> 's option) \<Rightarrow> nat list \<Rightarrow> 's \<Rightarrow> 's option" where
  "run_schedule step [] s = Some s"
| "run_schedule step (t # ts) s = Option.bind (step t s) (run_schedule step ts)"

definition quiet :: "(nat \<Rightarrow> 's \<Rightarrow> 's option) \<Rightarrow> 's \<Rightarrow> bool" where
  "quiet step s \<longleftrightarrow> (\<forall>t. step t s = None)"

lemma run_schedule_Cons_iff:
  "run_schedule step (t # ts) s = Some s' \<longleftrightarrow> (\<exists>s1. step t s = Some s1 \<and> run_schedule step ts s1 = Some s')"
  by (simp add: Option.bind_eq_Some_conv)

lemma run_schedule_append:
  "run_schedule step (ts @ us) s = Option.bind (run_schedule step ts s) (run_schedule step us)"
  by (induction ts arbitrary: s) (auto split: Option.bind_splits)

lemma run_schedule_induct [consumes 1, case_names start step]:
  assumes "run_schedule step ts s = Some s'" and "P s"
    and "\<And>s t s'. P s \<Longrightarrow> step t s = Some s' \<Longrightarrow> P s'"
  shows "P s'"
  using assms(1,2)
  by (induction ts arbitrary: s) (auto simp: Option.bind_eq_Some_conv intro: assms(3))

section \<open>Schedules that end\<close>

text \<open>Every step of a state that satisfies the invariant keeps it and costs potential.\<close>

locale bounded_threads =
  fixes step :: "nat \<Rightarrow> 's \<Rightarrow> 's option"
    and potential :: "'s \<Rightarrow> nat"
    and good :: "'s \<Rightarrow> bool"
  assumes good_step: "good s \<Longrightarrow> step t s = Some s' \<Longrightarrow> good s'"
    and potential_step: "good s \<Longrightarrow> step t s = Some s' \<Longrightarrow> potential s' < potential s"
begin

lemma schedule_good: "run_schedule step ts s = Some s' \<Longrightarrow> good s \<Longrightarrow> good s'"
  by (induction rule: run_schedule_induct) (auto intro: good_step)

lemma schedule_bound:
  "good s \<Longrightarrow> run_schedule step ts s = Some s' \<Longrightarrow> length ts + potential s' \<le> potential s"
proof (induction ts arbitrary: s)
  case (Cons t ts)
  then obtain s1 where s1: "step t s = Some s1" "run_schedule step ts s1 = Some s'"
    by (auto simp: Option.bind_eq_Some_conv)
  have "length ts + potential s' \<le> potential s1"
    using Cons.IH [of s1] s1 Cons.prems(1) good_step by blast
  moreover have "potential s1 < potential s" using Cons.prems(1) s1(1) by (rule potential_step)
  ultimately show ?case by simp
qed simp

lemma reaches_quiet: "good s \<Longrightarrow> \<exists>ts s'. run_schedule step ts s = Some s' \<and> quiet step s'"
proof (induction "potential s" arbitrary: s rule: less_induct)
  case less
  show ?case
  proof (cases "quiet step s")
    case True
    then show ?thesis by (intro exI [of _ "[]"]) simp
  next
    case False
    then obtain t s1 where s1: "step t s = Some s1" by (auto simp: quiet_def)
    then obtain ts s' where "run_schedule step ts s1 = Some s'" "quiet step s'"
      using less.hyps [OF potential_step [OF less.prems s1]] good_step [OF less.prems s1] by blast
    then show ?thesis using s1 by (intro exI [of _ "t # ts"]) simp
  qed
qed

lemma no_infinite_run: "good (f 0) \<Longrightarrow> \<exists>n. step (sched n) (f n) \<noteq> Some (f (Suc n))"
proof (rule ccontr)
  assume good: "good (f 0)" and "\<not> (\<exists>n. step (sched n) (f n) \<noteq> Some (f (Suc n)))"
  then have steps: "step (sched n) (f n) = Some (f (Suc n))" for n by blast
  have "good (f n) \<and> n + potential (f n) \<le> potential (f 0)" for n
  proof (induction n)
    case (Suc n)
    then show ?case using steps [of n] good_step potential_step by fastforce
  qed (use good in simp)
  from this [of "Suc (potential (f 0))"] show False by simp
qed

end

text \<open>And as long as the work is not finished some thread can move.\<close>

locale live_threads = bounded_threads +
  fixes finished :: "'s \<Rightarrow> bool"
  assumes progress: "good s \<Longrightarrow> \<not> finished s \<Longrightarrow> \<exists>t s'. step t s = Some s'"
begin

lemma quiet_finished: "good s \<Longrightarrow> quiet step s \<Longrightarrow> finished s"
  using progress by (fastforce simp: quiet_def)

lemma all_finish:
  assumes "good s" and "run_schedule step ts s = Some s1"
  shows "\<exists>us s2. run_schedule step (ts @ us) s = Some s2 \<and> finished s2 \<and> length (ts @ us) \<le> potential s"
proof -
  have "good s1" using assms by (blast intro: schedule_good)
  then obtain us s2 where "run_schedule step us s1 = Some s2" "quiet step s2"
    using reaches_quiet by blast
  then have run: "run_schedule step (ts @ us) s = Some s2" and "finished s2"
    using assms \<open>good s1\<close> quiet_finished schedule_good by (auto simp: run_schedule_append)
  with schedule_bound [OF assms(1) run] show ?thesis by (intro exI [of _ us] exI [of _ s2]) simp
qed

end

section \<open>Threads with a rank each\<close>

text \<open>
  The steps a thread has left bound it alone: its own step lowers them, the steps of others
  leave them. With finitely many threads the sum is a potential.
\<close>

locale ranked_threads =
  fixes step :: "nat \<Rightarrow> 's \<Rightarrow> 's option"
    and rank :: "nat \<Rightarrow> 's \<Rightarrow> nat"
    and good :: "'s \<Rightarrow> bool"
    and threads :: nat
  assumes rank_good: "good s \<Longrightarrow> step t s = Some s' \<Longrightarrow> good s'"
    and rank_own: "step t s = Some s' \<Longrightarrow> rank t s' < rank t s"
    and rank_other: "step t s = Some s' \<Longrightarrow> u \<noteq> t \<Longrightarrow> rank u s' = rank u s"
begin

definition total :: "'s \<Rightarrow> nat" where
  "total s = (\<Sum>t<threads. rank t s)"

lemma total_step:
  assumes "\<forall>t\<ge>threads. rank t s = 0" and "step t s = Some s'"
  shows "total s' < total s"
proof -
  have "rank t s' < rank t s" using assms(2) by (rule rank_own)
  moreover from this have t: "t < threads" using assms(1) by (metis not_less less_nat_zero_code)
  moreover have "rank u s' \<le> rank u s" for u
    using rank_other [OF assms(2), of u] rank_own [OF assms(2)] by (cases "u = t") auto
  ultimately show ?thesis unfolding total_def by (intro sum_strict_mono_ex1) auto
qed

lemma beyond_step:
  assumes "\<forall>t\<ge>threads. rank t s = 0" and "step t s = Some s'"
  shows "\<forall>t\<ge>threads. rank t s' = 0"
  using assms rank_other [OF assms(2)] rank_own [OF assms(2)] by (metis less_nat_zero_code)

lemma thread_bound: "run_schedule step ts s = Some s' \<Longrightarrow> count_list ts t + rank t s' \<le> rank t s"
proof (induction ts arbitrary: s)
  case (Cons u ts)
  then obtain s1 where s1: "step u s = Some s1" "run_schedule step ts s1 = Some s'"
    by (auto simp: Option.bind_eq_Some_conv)
  then show ?case using Cons.IH [of s1] rank_own [OF s1(1)] rank_other [OF s1(1), of t] by fastforce
qed simp

end

sublocale ranked_threads \<subseteq> bounded_threads step total "\<lambda>s. good s \<and> (\<forall>t\<ge>threads. rank t s = 0)"
  using rank_good beyond_step total_step by unfold_locales blast+

locale live_ranked_threads = ranked_threads +
  assumes rank_progress: "good s \<Longrightarrow> rank t s \<noteq> 0 \<Longrightarrow> \<exists>u s'. step u s = Some s'"

sublocale live_ranked_threads \<subseteq> live_threads step total "\<lambda>s. good s \<and> (\<forall>t\<ge>threads. rank t s = 0)"
  "\<lambda>s. \<forall>t. rank t s = 0"
  using rank_progress by unfold_locales blast

end
