(* ===== verification/FakeLocks.thy ===== *)
theory FakeLocks
  imports FakeMetadata Threads
begin

text \<open>
  The mutexes of the generated fakes. Each method has a sync.RWMutex and the map of invocations
  has one more; an operation of the fake is the sequence of lock operations its body makes,
  with the deferred ones at the end, and threads run their operations interleaved. The type
  of methods is a parameter, \<open>getter\<close> for FakeNodeMetadata and \<open>unit\<close> for FakeNodeInfo.
\<close>

section \<open>Threads and mutexes\<close>

datatype 'g fake_mutex = Meth 'g | Inv

text \<open>
  RWMutex.Lock first announces the writer, which keeps later readers and writers out, and
  then waits until the readers that are in have left. RLock waits while there is a writer.
\<close>

datatype 'g lock_action =
    Announce (mutex_of: "'g fake_mutex")
  | Enter (mutex_of: "'g fake_mutex")
  | RLock (mutex_of: "'g fake_mutex")
  | Unlock (mutex_of: "'g fake_mutex")
  | RUnlock (mutex_of: "'g fake_mutex")

record 'g rw_state =
  writer :: "'g fake_mutex \<Rightarrow> nat option"
  readers :: "'g fake_mutex \<Rightarrow> nat set"
  rest :: "nat \<Rightarrow> 'g lock_action list"

fun do_action :: "nat \<Rightarrow> 'g lock_action \<Rightarrow> 'g rw_state \<Rightarrow> 'g rw_state option" where
  "do_action t (Announce m) s =
     (if writer s m = None then Some (s\<lparr>writer := (writer s)(m := Some t)\<rparr>) else None)"
| "do_action t (Enter m) s = (if readers s m = {} then Some s else None)"
| "do_action t (RLock m) s =
     (if writer s m = None then Some (s\<lparr>readers := (readers s)(m := insert t (readers s m))\<rparr>) else None)"
| "do_action t (Unlock m) s = Some (s\<lparr>writer := (writer s)(m := None)\<rparr>)"
| "do_action t (RUnlock m) s = Some (s\<lparr>readers := (readers s)(m := readers s m - {t})\<rparr>)"

fun_cases do_actionE: "do_action t a s = Some s'"

definition rw_step :: "nat \<Rightarrow> 'g rw_state \<Rightarrow> 'g rw_state option" where
  "rw_step t s =
     (case rest s t of [] \<Rightarrow> None
      | a # as \<Rightarrow> map_option (\<lambda>s'. s'\<lparr>rest := (rest s')(t := as)\<rparr>) (do_action t a s))"

section \<open>The operations of a fake\<close>

datatype 'g fake_op = CallOp 'g | SetOp 'g | CountOp 'g | InvocationsOp

text \<open>
  A call records its invocation while it holds its own mutex; a setter and CallCount hold the
  mutex of the method only; Invocations takes the mutex of the map and then those of all
  methods, in the order \<open>gs\<close>, and releases them the other way round.
\<close>

definition record_locks :: "'g lock_action list" where
  "record_locks = [Announce Inv, Enter Inv, Unlock Inv]"

definition call_locks :: "'g \<Rightarrow> 'g lock_action list" where
  "call_locks g = [Announce (Meth g), Enter (Meth g)] @ record_locks @ [Unlock (Meth g)]"

definition set_locks :: "'g \<Rightarrow> 'g lock_action list" where
  "set_locks g = [Announce (Meth g), Enter (Meth g), Unlock (Meth g)]"

definition count_locks :: "'g \<Rightarrow> 'g lock_action list" where
  "count_locks g = [RLock (Meth g), RUnlock (Meth g)]"

definition invocations_locks :: "'g list \<Rightarrow> 'g lock_action list" where
  "invocations_locks gs =
     map RLock (Inv # map Meth gs) @ map RUnlock (rev (Inv # map Meth gs))"

fun op_locks :: "'g list \<Rightarrow> 'g fake_op \<Rightarrow> 'g lock_action list" where
  "op_locks gs (CallOp g) = call_locks g"
| "op_locks gs (SetOp g) = set_locks g"
| "op_locks gs (CountOp g) = count_locks g"
| "op_locks gs InvocationsOp = invocations_locks gs"

lemmas op_locks_defs = record_locks_def call_locks_def set_locks_def count_locks_def invocations_locks_def

definition getters :: "getter list" where
  "getters = [CallGetAccountID, CallGetRegion, CallGetWorkerID, CallGetZone]"

definition rw_init :: "'g list \<Rightarrow> (nat \<Rightarrow> 'g fake_op list) \<Rightarrow> 'g rw_state" where
  "rw_init gs ops = \<lparr>writer = \<lambda>m. None, readers = \<lambda>m. {}, rest = \<lambda>t. concat (map (op_locks gs) (ops t))\<rparr>"

inductive rw_reach :: "'g list \<Rightarrow> (nat \<Rightarrow> 'g fake_op list) \<Rightarrow> 'g rw_state \<Rightarrow> bool"
  for gs ops where
  start: "rw_reach gs ops (rw_init gs ops)"
| step: "rw_reach gs ops s \<Longrightarrow> rw_step t s = Some s' \<Longrightarrow> rw_reach gs ops s'"

lemma run_schedule_reach: "run_schedule rw_step ts s = Some s' \<Longrightarrow> rw_reach gs ops s \<Longrightarrow> rw_reach gs ops s'"
  by (induction rule: run_schedule_induct) (auto intro: rw_reach.step)

section \<open>Who holds what\<close>

text \<open>A thread holds a mutex when the next thing it does with it is to enter or to release it.\<close>

definition next_on :: "'g fake_mutex \<Rightarrow> 'g lock_action list \<Rightarrow> 'g lock_action option" where
  "next_on m as = find (\<lambda>a. mutex_of a = m) as"

definition holds_w :: "'g fake_mutex \<Rightarrow> 'g lock_action list \<Rightarrow> bool" where
  "holds_w m as \<longleftrightarrow> next_on m as \<in> {Some (Enter m), Some (Unlock m)}"

definition holds_r :: "'g fake_mutex \<Rightarrow> 'g lock_action list \<Rightarrow> bool" where
  "holds_r m as \<longleftrightarrow> next_on m as = Some (RUnlock m)"

text \<open>The effect of an action on what its thread holds, as its program announces it.\<close>

fun action_ok :: "'g lock_action \<Rightarrow> 'g lock_action list \<Rightarrow> bool" where
  "action_ok (Announce m) as = (holds_w m as \<and> \<not> holds_r m as)"
| "action_ok (Enter m) as = (holds_w m as \<and> \<not> holds_r m as)"
| "action_ok (RLock m) as = (holds_r m as \<and> \<not> holds_w m as)"
| "action_ok (Unlock m) as = (\<not> holds_w m as \<and> \<not> holds_r m as)"
| "action_ok (RUnlock m) as = (\<not> holds_w m as \<and> \<not> holds_r m as)"

text \<open>
  And the order: the mutex of the map is taken last and released first, and only by writers,
  so what holds it is about to enter or release it.
\<close>

definition ordered :: "'g lock_action list \<Rightarrow> bool" where
  "ordered as \<longleftrightarrow>
     (holds_w Inv as \<longrightarrow> hd as \<in> {Enter Inv, Unlock Inv}) \<and> \<not> holds_r Inv as
     \<and> (\<forall>g. holds_r (Meth g) as \<longrightarrow> hd as = RUnlock (Meth g))
     \<and> (\<forall>g. holds_w (Meth g) as \<longrightarrow>
          hd as \<in> {Enter (Meth g), Announce Inv, Enter Inv, Unlock Inv, Unlock (Meth g)})"

fun well_locked :: "'g lock_action list \<Rightarrow> bool" where
  "well_locked [] = True"
| "well_locked (a # as) = (action_ok a as \<and> ordered (a # as) \<and> well_locked as)"

lemma next_on_simps [simp]:
  "next_on m [] = None"
  "next_on m (a # as) = (if mutex_of a = m then Some a else next_on m as)"
  by (simp_all add: next_on_def)

lemma holds_Nil [simp]: "\<not> holds_w m []" "\<not> holds_r m []"
  by (simp_all add: holds_w_def holds_r_def)

lemma holds_Cons:
  "holds_w m (a # as) = (if mutex_of a = m then a \<in> {Enter m, Unlock m} else holds_w m as)"
  "holds_r m (a # as) = (if mutex_of a = m then a = RUnlock m else holds_r m as)"
  by (simp_all add: holds_w_def holds_r_def)

lemma op_locks_well:
  assumes "op \<noteq> InvocationsOp" and "well_locked as" and "\<And>m. \<not> holds_w m as \<and> \<not> holds_r m as"
  shows "well_locked (op_locks gs op @ as) \<and> (\<forall>m. \<not> holds_w m (op_locks gs op @ as) \<and> \<not> holds_r m (op_locks gs op @ as))"
  using assms by (cases op) (auto simp: op_locks_defs holds_Cons ordered_def)

lemma program_well:
  "InvocationsOp \<notin> set ops \<Longrightarrow>
     well_locked (concat (map (op_locks gs) ops))
     \<and> (\<forall>m. \<not> holds_w m (concat (map (op_locks gs) ops)) \<and> \<not> holds_r m (concat (map (op_locks gs) ops)))"
proof (induction ops)
  case (Cons op ops)
  then show ?case using op_locks_well [of op "concat (map (op_locks gs) ops)" gs] by auto
qed simp

definition rw_good :: "'g rw_state \<Rightarrow> bool" where
  "rw_good s \<longleftrightarrow>
     (\<forall>t m. (writer s m = Some t \<longleftrightarrow> holds_w m (rest s t)) \<and> (t \<in> readers s m \<longleftrightarrow> holds_r m (rest s t)))
     \<and> (\<forall>t. well_locked (rest s t))"

lemma rw_good_init:
  assumes "\<And>t. InvocationsOp \<notin> set (ops t)"
  shows "rw_good (rw_init gs ops)"
proof -
  have "\<forall>t. well_locked (rest (rw_init gs ops) t)
      \<and> (\<forall>m. \<not> holds_w m (rest (rw_init gs ops) t) \<and> \<not> holds_r m (rest (rw_init gs ops) t))"
    by (simp add: rw_init_def program_well [OF assms])
  then show ?thesis by (simp add: rw_good_def rw_init_def)
qed

lemma rw_good_step:
  assumes "rw_good s" and "rw_step t s = Some s'"
  shows "rw_good s'"
proof -
  obtain a as where r: "rest s t = a # as" using assms(2) by (auto simp: rw_step_def split: list.splits)
  then obtain s1 where s1: "do_action t a s = Some s1" and s': "s' = s1\<lparr>rest := (rest s1)(t := as)\<rparr>"
    using assms(2) by (auto simp: rw_step_def)
  have ok: "action_ok a as" "well_locked as"
    using assms(1) r by (auto simp: rw_good_def dest: spec [where x = t])
  have w: "writer s m = Some u \<longleftrightarrow> holds_w m (rest s u)" for m u using assms(1) by (simp add: rw_good_def)
  have d: "u \<in> readers s m \<longleftrightarrow> holds_r m (rest s u)" for m u using assms(1) by (simp add: rw_good_def)
  have l: "well_locked (rest s u)" for u using assms(1) by (simp add: rw_good_def)
  have wt: "writer s m = Some t \<longleftrightarrow> holds_w m (a # as)" and dt: "t \<in> readers s m \<longleftrightarrow> holds_r m (a # as)" for m
    using w [of m t] d [of t m] r by simp_all
  have "(writer s' m = Some u \<longleftrightarrow> holds_w m (rest s' u)) \<and> (u \<in> readers s' m \<longleftrightarrow> holds_r m (rest s' u))" for m u
    using s1
    by (rule do_actionE; cases "u = t")
      (use ok(1) w [of m u] d [of u m] wt [of m] dt [of m] in \<open>auto simp: s' holds_Cons split: if_splits\<close>)
  moreover have "rest s' = (rest s)(t := as)"
    using s1 by (rule do_actionE) (auto simp: s' split: if_splits)
  then have "well_locked (rest s' u)" for u using l ok(2) by simp
  ultimately show ?thesis by (simp add: rw_good_def)
qed

lemma rw_good_reach:
  assumes "rw_reach gs ops s" and "\<And>t. InvocationsOp \<notin> set (ops t)"
  shows "rw_good s"
  using assms(1)
proof induction
  case start
  show ?case by (rule rw_good_init) (rule assms(2))
next
  case (step s t s')
  then show ?case by (blast intro: rw_good_step)
qed

text \<open>A thread that is about to release, or to enter a mutex nobody reads, can move.\<close>

lemma can_move:
  assumes "rest s t = a # as" and "do_action t a s \<noteq> None"
  shows "\<exists>s'. rw_step t s = Some s'"
  using assms by (auto simp: rw_step_def)

lemma well_locked_ordered: "well_locked as \<Longrightarrow> ordered as"
  by (cases as) (auto simp: ordered_def)

lemma holds_nonempty: "holds_w m as \<Longrightarrow> \<exists>a bs. as = a # bs" "holds_r m as \<Longrightarrow> \<exists>a bs. as = a # bs"
  by (cases as; simp)+

lemma inv_writer_moves:
  assumes "rw_good s" and "writer s Inv = Some u"
  shows "\<exists>s'. rw_step u s = Some s'"
proof -
  have h: "holds_w Inv (rest s u)" and o: "ordered (rest s u)"
    using assms by (auto simp: rw_good_def intro: well_locked_ordered)
  then obtain a bs where r: "rest s u = a # bs" using holds_nonempty(1) by blast
  have "v \<notin> readers s Inv" for v
    using assms(1) well_locked_ordered [of "rest s v"] by (auto simp: rw_good_def ordered_def)
  then have "readers s Inv = {}" by blast
  moreover have "a = Enter Inv \<or> a = Unlock Inv" using h o r by (auto simp: ordered_def)
  ultimately show ?thesis by (intro can_move [OF r]) auto
qed

lemma reader_moves:
  assumes "rw_good s" and "u \<in> readers s m"
  shows "\<exists>s'. rw_step u s = Some s'"
proof -
  have h: "holds_r m (rest s u)" and o: "ordered (rest s u)"
    using assms by (auto simp: rw_good_def intro: well_locked_ordered)
  then obtain a bs where r: "rest s u = a # bs" using holds_nonempty(2) by blast
  have "a = RUnlock m" using h o r by (cases m) (auto simp: ordered_def)
  then show ?thesis by (intro can_move [OF r]) simp
qed

lemma enter_moves:
  assumes "rw_good s" and "rest s t = Enter m # as"
  shows "\<exists>u s'. rw_step u s = Some s'"
proof (cases "readers s m = {}")
  case True
  then show ?thesis using can_move [OF assms(2)] by auto
next
  case False
  then show ?thesis using reader_moves [OF assms(1)] by blast
qed

lemma writer_moves:
  assumes "rw_good s" and "writer s m = Some u"
  shows "\<exists>u s'. rw_step u s = Some s'"
proof (cases m)
  case Inv
  then show ?thesis using inv_writer_moves assms by blast
next
  case (Meth g)
  have h: "holds_w (Meth g) (rest s u)" and o: "ordered (rest s u)"
    using assms Meth by (auto simp: rw_good_def intro: well_locked_ordered)
  then obtain a bs where r: "rest s u = a # bs" using holds_nonempty(1) by blast
  then have "a \<in> {Enter (Meth g), Announce Inv, Enter Inv, Unlock Inv, Unlock (Meth g)}"
    using h o by (simp add: ordered_def)
  then consider "\<exists>m. a = Enter m" | "a = Announce Inv" | "\<exists>m. a = Unlock m" by blast
  then show ?thesis
  proof cases
    case 1
    then show ?thesis using enter_moves [OF assms(1)] r by blast
  next
    case 2
    then show ?thesis
      using inv_writer_moves [OF assms(1)] can_move [OF r] by (cases "writer s Inv") auto
  next
    case 3
    then show ?thesis using can_move [OF r] by auto
  qed
qed

lemma some_thread_moves:
  assumes "rw_good s" and "rest s t \<noteq> []"
  shows "\<exists>u s'. rw_step u s = Some s'"
proof -
  obtain a as where r: "rest s t = a # as" using assms(2) by (cases "rest s t") auto
  show ?thesis
  proof (cases a)
    case (Announce m)
    then show ?thesis using writer_moves [OF assms(1)] can_move [OF r] by (cases "writer s m") auto
  next
    case (Enter m)
    then show ?thesis using enter_moves [OF assms(1)] r by blast
  next
    case (RLock m)
    then show ?thesis using writer_moves [OF assms(1)] can_move [OF r] by (cases "writer s m") auto
  qed (use can_move [OF r] in auto)
qed

text \<open>The lock operations a thread has left are its rank.\<close>

lemma rw_step_rest: "rw_step t s = Some s' \<Longrightarrow> \<exists>a. rest s t = a # rest s' t"
  by (auto simp: rw_step_def split: list.splits)

lemma rw_step_rest_other: "rw_step t s = Some s' \<Longrightarrow> u \<noteq> t \<Longrightarrow> rest s' u = rest s u"
  by (auto simp: rw_step_def split: list.splits elim!: do_actionE split: if_splits)

interpretation fake_threads: live_ranked_threads rw_step "\<lambda>t s. length (rest s t)" rw_good n
  for n
proof
  show "length (rest s' t) < length (rest s t)" if "rw_step t s = Some s'" for t and s s' :: "'a rw_state"
    using rw_step_rest [OF that] by auto
qed (auto simp: rw_step_rest_other intro: rw_good_step some_thread_moves)

text \<open>How many lock operations an operation of the fake makes.\<close>

fun op_cost :: "'g list \<Rightarrow> 'g fake_op \<Rightarrow> nat" where
  "op_cost gs (CallOp g) = 6"
| "op_cost gs (SetOp g) = 3"
| "op_cost gs (CountOp g) = 2"
| "op_cost gs InvocationsOp = 2 * Suc (length gs)"

lemma op_locks_cost: "length (op_locks gs op) = op_cost gs op"
  by (cases op) (simp_all add: op_locks_defs)

lemma program_cost: "length (concat (map (op_locks gs) ops)) = (\<Sum>op\<leftarrow>ops. op_cost gs op)"
  by (induction ops) (simp_all add: op_locks_cost)

text \<open>Thread 0 calls a method once and thread 1 calls Invocations once; and the state in which both hang.\<close>

definition call_against_Invocations :: "'g \<Rightarrow> nat \<Rightarrow> 'g fake_op list" where
  "call_against_Invocations g t = (if t = 0 then [CallOp g] else if t = 1 then [InvocationsOp] else [])"

definition stuck_pair :: "'g rw_state \<Rightarrow> bool" where
  "stuck_pair s \<longleftrightarrow> rest s 0 \<noteq> [] \<and> rest s 1 \<noteq> [] \<and> (\<forall>t. rw_step t s = None)"

section \<open>Properties\<close>

text \<open>As long as no thread calls Invocations, the operations of a fake never deadlock: whatever
  threads call, set and count concurrently, while one of them has not finished some thread
  can take its next step.\<close>

lemma fake_progress_without_Invocations:
  assumes "rw_reach gs ops s" and "\<forall>t. InvocationsOp \<notin> set (ops t)" and "rest s t \<noteq> []"
  shows "\<exists>u s'. rw_step u s = Some s'"
  using some_thread_moves rw_good_reach assms by blast

lemma fake_progress_without_Invocations_witness:
  "\<exists>u s'. rw_step u (rw_init getters (\<lambda>t. [CallOp CallGetZone])) = Some s'"
  using fake_progress_without_Invocations [OF rw_reach.start [of getters "\<lambda>t. [CallOp CallGetZone]"], of 0]
  by (simp add: rw_init_def op_locks_defs)

text \<open>C33: both fakes can deadlock: with one thread calling a method (for FakeNodeMetadata whichever
  of the four getters it is) and another calling Invocations, a state is reachable in which
  neither has finished and no thread can ever move again, because the two operations take
  their mutexes in opposite orders.\<close>

theorem fake_Invocations_deadlock:
  "(\<exists>s. rw_reach getters (call_against_Invocations g) s \<and> stuck_pair s)
   \<and> (\<exists>s. rw_reach [()] (call_against_Invocations ()) s \<and> stuck_pair s)"
proof
  let ?sched = "[1, 0, 0, 0] @ replicate (case g of CallGetAccountID \<Rightarrow> 0 | CallGetRegion \<Rightarrow> 1
    | CallGetWorkerID \<Rightarrow> 2 | CallGetZone \<Rightarrow> 3) 1"
  have "\<exists>s. run_schedule rw_step ?sched (rw_init getters (call_against_Invocations g)) = Some s \<and> stuck_pair s"
    by (cases g) (simp_all add: rw_init_def getters_def op_locks_defs rw_step_def numeral_eq_Suc
        call_against_Invocations_def stuck_pair_def)
  then show "\<exists>s. rw_reach getters (call_against_Invocations g) s \<and> stuck_pair s"
    using run_schedule_reach [OF _ rw_reach.start] by blast
  have "\<exists>s. run_schedule rw_step [1, 0, 0, 0] (rw_init [()] (call_against_Invocations ())) = Some s \<and> stuck_pair s"
    by (simp add: rw_init_def op_locks_defs rw_step_def call_against_Invocations_def stuck_pair_def)
  then show "\<exists>s. rw_reach [()] (call_against_Invocations ()) s \<and> stuck_pair s"
    using run_schedule_reach [OF _ rw_reach.start] by blast
qed

text \<open>C34: the operations of a fake end: without Invocations, whatever some of n threads have done so far
  in any order can be completed so that every thread has finished all its operations; and no
  order takes more than six steps for each call, three for each setting and two for each
  count, so there is no starvation either.\<close>

theorem fake_operations_end:
  assumes "\<forall>t. InvocationsOp \<notin> set (ops t)" and "\<forall>t\<ge>n. ops t = []"
    and "run_schedule rw_step ts (rw_init gs ops) = Some s"
  shows "length ts \<le> (\<Sum>t<n. \<Sum>op\<leftarrow>ops t. op_cost gs op)
    \<and> (\<exists>us s'. run_schedule rw_step us s = Some s' \<and> (\<forall>t. rest s' t = []))"
proof -
  have good: "rw_good (rw_init gs ops) \<and> (\<forall>t\<ge>n. length (rest (rw_init gs ops) t) = 0)"
    using rw_good_init [of ops gs] assms(1,2) by (simp add: rw_init_def)
  have total: "fake_threads.total n (rw_init gs ops) = (\<Sum>t<n. \<Sum>op\<leftarrow>ops t. op_cost gs op)"
    by (simp add: fake_threads.total_def rw_init_def program_cost)
  obtain us s' where "run_schedule rw_step (ts @ us) (rw_init gs ops) = Some s'" "\<forall>t. length (rest s' t) = 0"
    using fake_threads.all_finish [OF good assms(3)] by blast
  moreover have "length ts \<le> (\<Sum>t<n. \<Sum>op\<leftarrow>ops t. op_cost gs op)"
    using fake_threads.schedule_bound [OF good assms(3)] total by simp
  ultimately show ?thesis using assms(3) by (auto simp: run_schedule_append)
qed

theorem fake_operations_end_witness:
  "\<exists>us s'. run_schedule rw_step us
       (the (run_schedule rw_step [0, 1, 0] (rw_init getters (\<lambda>t. if t < 2 then [CountOp CallGetZone] else [])))) = Some s'
     \<and> (\<forall>t. rest s' t = [])"
proof -
  let ?s = "rw_init getters (\<lambda>t. if t < 2 then [CountOp CallGetZone] else [])"
  have "\<exists>s. run_schedule rw_step [0, 1, 0] ?s = Some s"
    by (simp add: rw_init_def op_locks_defs rw_step_def)
  then have "run_schedule rw_step [0, 1, 0] ?s = Some (the (run_schedule rw_step [0, 1, 0] ?s))" by auto
  from fake_operations_end [OF _ _ this, of 2] show ?thesis by simp
qed

end
