(* ===== verification/FileSystem.thy ===== *)
theory FileSystem
  imports Prelude
begin

text \<open>
  The part of package os the mount manager uses: a tree of directories, files and symbolic
  links, path resolution with the kernel's limit of 40 links, and Stat, Lstat, Mkdir,
  MkdirAll, OpenFile with O\_CREATE, Close and IsExist over it. A path is the list of its
  names from the root. Failures of the environment (permissions, a full disk) come from the
  parameter \<open>fault\<close>, which says for a call and its path whether it fails.
\<close>

section \<open>The tree and the errors\<close>

type_synonym path = "string list"

datatype node = Dir | File | Link path

type_synonym fs = "path \<Rightarrow> node option"

datatype errno = EEXIST | ENOENT | ENOTDIR | EISDIR | ELOOP | EnvFault string

datatype os_error = PathError string path errno | ErrInvalid

fun os_IsExist :: "os_error \<Rightarrow> bool" where
  "os_IsExist (PathError call p e) = (e = EEXIST)"
| "os_IsExist ErrInvalid = False"

type_synonym fault = "string \<Rightarrow> path \<Rightarrow> string option"

definition no_fault :: fault where
  "no_fault call p = None"

section \<open>Path resolution\<close>

text \<open>
  \<open>dir\<close> is where the walk is, the list what is still to walk, \<open>n\<close> the links that may still be
  followed. The last name is followed only if \<open>follow\<close>; it need not exist.
\<close>

function (sequential) resolve :: "nat \<Rightarrow> bool \<Rightarrow> fs \<Rightarrow> path \<Rightarrow> path \<Rightarrow> errno + path" where
  "resolve n follow fs dir [] = Inr dir"
| "resolve n follow fs dir (c # cs) =
     (case fs (dir @ [c]) of
        None \<Rightarrow> if cs = [] then Inr (dir @ [c]) else Inl ENOENT
      | Some Dir \<Rightarrow> resolve n follow fs (dir @ [c]) cs
      | Some File \<Rightarrow> if cs = [] then Inr (dir @ [c]) else Inl ENOTDIR
      | Some (Link target) \<Rightarrow>
          if cs = [] \<and> \<not> follow then Inr (dir @ [c])
          else if n = 0 then Inl ELOOP
          else resolve (n - 1) follow fs [] (target @ cs))"
  by pat_completeness auto
termination
  by (relation "(\<lambda>(n, follow, fs, dir, cs). n) <*mlex*> measure (\<lambda>(n, follow, fs, dir, cs). length cs)")
    (auto intro: wf_mlex mlex_less mlex_leq)

declare resolve.simps(2) [simp del]

definition max_links :: nat where "max_links = 40"

section \<open>Calls\<close>

definition os_Stat :: "fs \<Rightarrow> path \<Rightarrow> errno + node" where
  "os_Stat fs p =
     (case resolve max_links True fs [] p of Inl e \<Rightarrow> Inl e
      | Inr q \<Rightarrow> (case fs q of None \<Rightarrow> Inl ENOENT | Some nd \<Rightarrow> Inr nd))"

definition os_Lstat :: "fs \<Rightarrow> path \<Rightarrow> errno + node" where
  "os_Lstat fs p =
     (case resolve max_links False fs [] p of Inl e \<Rightarrow> Inl e
      | Inr q \<Rightarrow> (case fs q of None \<Rightarrow> Inl ENOENT | Some nd \<Rightarrow> Inr nd))"

definition os_Mkdir :: "fault \<Rightarrow> path \<Rightarrow> fs \<Rightarrow> os_error option \<times> fs" where
  "os_Mkdir fault p fs =
     (case fault ''mkdir'' p of Some e \<Rightarrow> (Some (PathError ''mkdir'' p (EnvFault e)), fs)
      | None \<Rightarrow>
        (case resolve max_links False fs [] p of
           Inl e \<Rightarrow> (Some (PathError ''mkdir'' p e), fs)
         | Inr q \<Rightarrow> (case fs q of None \<Rightarrow> (None, fs(q \<mapsto> Dir))
                     | Some nd \<Rightarrow> (Some (PathError ''mkdir'' p EEXIST), fs))))"

text \<open>A path that is a directory is fine; otherwise the parent is made first, and then the path.\<close>

function os_MkdirAll :: "fault \<Rightarrow> path \<Rightarrow> fs \<Rightarrow> os_error option \<times> fs" where
  "os_MkdirAll fault p fs =
     (case os_Stat fs p of
        Inr nd \<Rightarrow> (if nd = Dir then None else Some (PathError ''mkdir'' p ENOTDIR), fs)
      | Inl e \<Rightarrow>
        (case (if 1 < length p then os_MkdirAll fault (butlast p) fs else (None, fs)) of
           (Some err, fs1) \<Rightarrow> (Some err, fs1)
         | (None, fs1) \<Rightarrow>
           (case os_Mkdir fault p fs1 of
              (None, fs2) \<Rightarrow> (None, fs2)
            | (Some err, fs2) \<Rightarrow>
              (if os_Lstat fs2 p = Inr Dir then None else Some err, fs2))))"
  by pat_completeness auto
termination
  by (relation "measure (\<lambda>(fault, p, fs). length p)") auto

declare os_MkdirAll.simps [simp del]

text \<open>
  OpenFile with the flag O\_CREATE alone: reading, and creating what is missing. \<open>None\<close> is the
  nil file that comes with an error.
\<close>

definition os_OpenFile_create :: "fault \<Rightarrow> path \<Rightarrow> fs \<Rightarrow> (path option \<times> os_error option) \<times> fs" where
  "os_OpenFile_create fault p fs =
     (case fault ''open'' p of Some e \<Rightarrow> ((None, Some (PathError ''open'' p (EnvFault e))), fs)
      | None \<Rightarrow>
        (case resolve max_links True fs [] p of
           Inl e \<Rightarrow> ((None, Some (PathError ''open'' p e)), fs)
         | Inr q \<Rightarrow>
           (case fs q of
              None \<Rightarrow> ((Some p, None), fs(q \<mapsto> File))
            | Some nd \<Rightarrow> if nd = Dir then ((None, Some (PathError ''open'' p EISDIR)), fs)
                         else ((Some p, None), fs))))"

text \<open>Closing the nil file is the error os.ErrInvalid.\<close>

definition os_Close :: "fault \<Rightarrow> path option \<Rightarrow> os_error option" where
  "os_Close fault f =
     (case f of None \<Rightarrow> Some ErrInvalid
      | Some p \<Rightarrow> map_option (\<lambda>e. PathError ''close'' p (EnvFault e)) (fault ''close'' p))"

section \<open>Facts on resolution\<close>

text \<open>Adding a directory or a file where nothing was leaves the resolution of every path alone.\<close>

lemma resolve_add:
  assumes "resolve n follow fs dir cs = Inr q" and "fs x = None" and "nd = Dir \<or> nd = File"
    and "fs q \<noteq> None \<or> q = x"
  shows "resolve n follow (fs(x \<mapsto> nd)) dir cs = Inr q"
  using assms
proof (induction n follow fs dir cs rule: resolve.induct)
  case (2 n follow fs dir c cs)
  show ?case
  proof (cases "fs (dir @ [c])")
    case None
    with 2 show ?thesis by (auto simp: resolve.simps(2) split: if_splits)
  next
    case (Some k)
    then have "dir @ [c] \<noteq> x" using 2 by auto
    with Some 2 show ?thesis by (cases k) (auto simp: resolve.simps(2) split: if_splits)
  qed
qed simp

lemma resolve_no_link: "resolve n True fs dir cs = Inr q \<Longrightarrow> fs dir \<noteq> Some (Link t) \<Longrightarrow> fs [] \<noteq> Some (Link t)
   \<Longrightarrow> fs q \<noteq> Some (Link t)"
  by (induction n True fs dir cs rule: resolve.induct)
    (auto simp: resolve.simps(2) split: if_splits option.splits node.splits)

text \<open>A walk to the last name passes through the directory it is in.\<close>

lemma resolve_butlast:
  assumes "resolve n False fs dir (cs @ [c]) = Inr q" and "fs dir = Some Dir" and "fs [] = Some Dir"
  shows "\<exists>d. resolve n True fs dir cs = Inr d \<and> fs d = Some Dir \<and> q = d @ [c]"
  using assms
proof (induction n True fs dir cs rule: resolve.induct)
  case (1 n fs dir)
  then show ?case by (auto simp: resolve.simps(2) split: option.splits node.splits)
next
  case (2 n fs dir b cs)
  then show ?case by (auto simp: resolve.simps(2) split: if_splits option.splits node.splits)
qed

lemma os_Stat_add:
  assumes "os_Stat fs p = Inr k" and "fs x = None" and "nd = Dir \<or> nd = File"
  shows "os_Stat (fs(x \<mapsto> nd)) p = Inr k"
proof -
  obtain q where "resolve max_links True fs [] p = Inr q" and q: "fs q = Some k"
    using assms(1) by (auto simp: os_Stat_def split: sum.splits option.splits)
  then have "resolve max_links True (fs(x \<mapsto> nd)) [] p = Inr q"
    using assms(2,3) by (intro resolve_add) auto
  then show ?thesis using q assms(2) by (auto simp: os_Stat_def)
qed

section \<open>Trees without links\<close>

text \<open>The root is a directory, what there is is in directories, and there are no links.\<close>

definition plain_tree :: "fs \<Rightarrow> bool" where
  "plain_tree fs \<longleftrightarrow> fs [] = Some Dir \<and> (\<forall>p c. fs (p @ [c]) \<noteq> None \<longrightarrow> fs p = Some Dir)
     \<and> (\<forall>p t. fs p \<noteq> Some (Link t))"

lemma plain_tree_add:
  assumes "plain_tree fs" and "fs p = Some Dir" and "fs (p @ [c]) = None" and "nd = Dir \<or> nd = File"
  shows "plain_tree (fs(p @ [c] \<mapsto> nd))"
proof -
  have "fs ((p @ [c]) @ [d]) = None" for d
    using assms(1,3) unfolding plain_tree_def by (metis option.distinct(1))
  then show ?thesis using assms unfolding plain_tree_def by (auto split: if_splits)
qed

lemma plain_tree_prefix:
  assumes "plain_tree fs" and "fs p \<noteq> None" and "strict_prefix q p"
  shows "fs q = Some Dir"
  using assms(2,3)
proof (induction p rule: rev_induct)
  case (snoc c p)
  then have "fs p = Some Dir" using assms(1) by (auto simp: plain_tree_def)
  moreover have "q = p \<or> strict_prefix q p" using snoc(3) by (auto simp: strict_prefix_def)
  ultimately show ?case using snoc.IH by auto
qed simp

lemma resolve_plain_Inr:
  "resolve n follow fs dir cs = Inr q \<Longrightarrow> plain_tree fs \<Longrightarrow> q = dir @ cs"
  by (induction n follow fs dir cs rule: resolve.induct)
    (auto simp: resolve.simps(2) plain_tree_def split: if_splits option.splits node.splits)

lemma resolve_plain_dir:
  assumes "plain_tree fs" and "fs (dir @ butlast cs) = Some Dir"
  shows "resolve n follow fs dir cs = Inr (dir @ cs)"
  using assms(2)
proof (induction cs arbitrary: dir)
  case (Cons c cs)
  show ?case
  proof (cases "cs = []")
    case True
    then show ?thesis using assms(1)
      by (auto simp: resolve.simps(2) plain_tree_def split: option.split node.split)
  next
    case False
    then have "fs (dir @ c # butlast cs) = Some Dir" using Cons.prems by simp
    then have "fs (dir @ [c]) = Some Dir"
      using plain_tree_prefix [OF assms(1), of "dir @ c # butlast cs" "dir @ [c]"]
      by (cases "butlast cs = []") (auto simp: strict_prefix_def)
    then show ?thesis using Cons False by (simp add: resolve.simps(2))
  qed
qed simp

lemma os_Stat_plain:
  assumes "plain_tree fs"
  shows "os_Stat fs p = Inr nd \<longleftrightarrow> fs p = Some nd"
proof
  assume "os_Stat fs p = Inr nd"
  then obtain q where "resolve max_links True fs [] p = Inr q" "fs q = Some nd"
    by (auto simp: os_Stat_def split: sum.splits option.splits)
  then show "fs p = Some nd" using resolve_plain_Inr [OF _ assms] by fastforce
next
  assume p: "fs p = Some nd"
  have "fs (butlast p) = Some Dir"
    using assms p by (cases p rule: rev_cases) (auto simp: plain_tree_def)
  then have "resolve max_links True fs [] p = Inr p" using resolve_plain_dir [OF assms, of "[]" p] by simp
  then show "os_Stat fs p = Inr nd" using p by (simp add: os_Stat_def)
qed

lemma os_Lstat_plain:
  assumes "plain_tree fs" and "fs p = Some nd"
  shows "os_Lstat fs p = Inr nd"
proof -
  have "fs (butlast p) = Some Dir"
    using assms by (cases p rule: rev_cases) (auto simp: plain_tree_def)
  then have "resolve max_links False fs [] p = Inr p" using resolve_plain_dir [OF assms(1), of "[]" p] by simp
  then show ?thesis using assms(2) by (simp add: os_Lstat_def)
qed

lemma resolve_plain_parent:
  "resolve n follow fs dir cs = Inr q \<Longrightarrow> plain_tree fs \<Longrightarrow> fs dir = Some Dir \<Longrightarrow> fs (dir @ butlast cs) = Some Dir"
  by (induction n follow fs dir cs rule: resolve.induct)
    (auto simp: resolve.simps(2) plain_tree_def split: if_splits option.splits node.splits)

lemma plain_tree_root [simp]: "plain_tree fs \<Longrightarrow> fs [] = Some Dir"
  by (simp add: plain_tree_def)

lemma os_Mkdir_plain:
  assumes "plain_tree fs" and "fs p = None" and "fs (butlast p) = Some Dir"
  shows "os_Mkdir fault p fs =
    (case fault ''mkdir'' p of Some e \<Rightarrow> (Some (PathError ''mkdir'' p (EnvFault e)), fs) | None \<Rightarrow> (None, fs(p \<mapsto> Dir)))"
proof -
  have "resolve max_links False fs [] p = Inr p"
    using resolve_plain_dir [OF assms(1), of "[]" p] assms(3) by simp
  then show ?thesis using assms(2) by (simp add: os_Mkdir_def split: option.split)
qed

text \<open>
  What MkdirAll does to a plain tree, whatever fails: it keeps the tree plain and every entry
  it had, adds directories on the way to the path only, and reports success only when the
  path is a directory. It never reports that something exists.
\<close>

definition mkdir_effect :: "path \<Rightarrow> fs \<Rightarrow> os_error option \<Rightarrow> fs \<Rightarrow> bool" where
  "mkdir_effect p fs err fs' \<longleftrightarrow>
     plain_tree fs' \<and> (\<forall>q. fs q \<noteq> None \<longrightarrow> fs' q = fs q)
     \<and> (\<forall>q. fs' q \<noteq> fs q \<longrightarrow> fs' q = Some Dir \<and> prefix q p)
     \<and> (err = None \<longrightarrow> fs' p = Some Dir) \<and> (\<forall>e. err = Some e \<longrightarrow> \<not> os_IsExist e)"

lemma os_MkdirAll_snoc:
  assumes "os_Stat fs (p @ [c]) = Inl e"
  shows "os_MkdirAll fault (p @ [c]) fs =
    (case (if p = [] then (None, fs) else os_MkdirAll fault p fs) of
       (Some err, fs1) \<Rightarrow> (Some err, fs1)
     | (None, fs1) \<Rightarrow>
       (case os_Mkdir fault (p @ [c]) fs1 of
          (None, fs2) \<Rightarrow> (None, fs2)
        | (Some err, fs2) \<Rightarrow> (if os_Lstat fs2 (p @ [c]) = Inr Dir then None else Some err, fs2)))"
  using assms by (subst os_MkdirAll.simps) simp

lemma mkdir_effect_snoc:
  assumes "mkdir_effect p fs None fs1" and "fs (p @ [c]) = None" and "fs1 (p @ [c]) = None"
  shows "mkdir_effect (p @ [c]) fs None (fs1(p @ [c] \<mapsto> Dir))"
proof -
  define fs2 where "fs2 = fs1(p @ [c] \<mapsto> Dir)"
  have "plain_tree fs2"
    using assms plain_tree_add [of fs1 p c Dir] by (simp add: fs2_def mkdir_effect_def)
  moreover have "fs2 q = fs q" if "fs q \<noteq> None" for q
    using that assms by (auto simp: fs2_def mkdir_effect_def)
  moreover have "fs2 q = Some Dir \<and> prefix q (p @ [c])" if "fs2 q \<noteq> fs q" for q
    using that assms(1) by (auto simp: fs2_def mkdir_effect_def split: if_splits)
  moreover have "fs2 (p @ [c]) = Some Dir" by (simp add: fs2_def)
  ultimately show ?thesis unfolding mkdir_effect_def fs2_def [symmetric] by blast
qed

text \<open>The last directory of the path, after its parent has been made.\<close>

lemma mkdir_effect_last:
  assumes fs: "fs (p @ [c]) = None" "os_Stat fs (p @ [c]) = Inl e"
    and r: "(if p = [] then (None, fs) else os_MkdirAll fault p fs) = (None, fs1)"
    and eff: "mkdir_effect p fs None fs1"
  shows "mkdir_effect (p @ [c]) fs (fst (os_MkdirAll fault (p @ [c]) fs)) (snd (os_MkdirAll fault (p @ [c]) fs))"
proof -
  have t: "plain_tree fs1" "fs1 p = Some Dir" using eff by (simp_all add: mkdir_effect_def)
  have n: "fs1 (p @ [c]) = None"
  proof (rule ccontr)
    assume "fs1 (p @ [c]) \<noteq> None"
    then have "fs1 (p @ [c]) \<noteq> fs (p @ [c])" using fs(1) by simp
    then have "prefix (p @ [c]) p" using eff unfolding mkdir_effect_def by blast
    then show False by (auto dest: prefix_length_le)
  qed
  show ?thesis
  proof (cases "fault ''mkdir'' (p @ [c])")
    case None
    have "os_MkdirAll fault (p @ [c]) fs = (None, fs1(p @ [c] \<mapsto> Dir))"
      by (simp only: os_MkdirAll_snoc [OF fs(2)] r) (simp add: os_Mkdir_plain t n None)
    moreover have "mkdir_effect (p @ [c]) fs None (fs1(p @ [c] \<mapsto> Dir))"
      using mkdir_effect_snoc [of p fs fs1 c] fs(1) n eff by simp
    ultimately show ?thesis by (simp only: fst_conv snd_conv)
  next
    case (Some e2)
    have "os_Lstat fs1 (p @ [c]) \<noteq> Inr Dir"
      using resolve_plain_dir [OF t(1), of "[]" "p @ [c]" max_links False] t(2) n by (simp add: os_Lstat_def)
    then have "os_MkdirAll fault (p @ [c]) fs = (Some (PathError ''mkdir'' (p @ [c]) (EnvFault e2)), fs1)"
      using \<open>os_Lstat fs1 (p @ [c]) \<noteq> Inr Dir\<close>
      by (simp only: os_MkdirAll_snoc [OF fs(2)] r) (simp add: os_Mkdir_plain t n Some)
    then show ?thesis using eff by (auto simp: mkdir_effect_def)
  qed
qed

lemma os_MkdirAll_plain:
  assumes "plain_tree fs"
  shows "mkdir_effect p fs (fst (os_MkdirAll fault p fs)) (snd (os_MkdirAll fault p fs))"
proof (induction p rule: rev_induct)
  case Nil
  then show ?case using assms
    by (subst (1 2) os_MkdirAll.simps) (simp add: os_Stat_plain [THEN iffD2] mkdir_effect_def)
next
  case (snoc c p)
  show ?case
  proof (cases "fs (p @ [c])")
    case (Some nd)
    then have "os_Stat fs (p @ [c]) = Inr nd" using assms by (simp add: os_Stat_plain)
    then show ?thesis using assms Some
      by (subst (1 2) os_MkdirAll.simps) (simp add: mkdir_effect_def)
  next
    case missing: None
    then obtain e where st: "os_Stat fs (p @ [c]) = Inl e"
      using os_Stat_plain [OF assms] by (cases "os_Stat fs (p @ [c])") auto
    obtain err1 fs1 where r: "(if p = [] then (None, fs) else os_MkdirAll fault p fs) = (err1, fs1)"
      by force
    then have eff: "mkdir_effect p fs err1 fs1"
      using snoc assms by (auto simp: mkdir_effect_def split: if_splits)
    show ?thesis
    proof (cases err1)
      case (Some e1)
      then show ?thesis using eff by (simp add: os_MkdirAll_snoc [OF st] r) (simp add: mkdir_effect_def)
    next
      case None
      then show ?thesis using mkdir_effect_last [OF missing st] r eff by simp
    qed
  qed
qed

text \<open>Without failures it is total: a file on the way stops it before anything is made.\<close>

lemma os_MkdirAll_file:
  assumes "plain_tree fs" and "prefix q p" and "fs q = Some File"
  shows "os_MkdirAll fault p fs = (Some (PathError ''mkdir'' q ENOTDIR), fs)"
  using assms(2)
proof (induction p rule: rev_induct)
  case Nil
  then show ?case using assms by simp
next
  case (snoc c p)
  show ?case
  proof (cases "q = p @ [c]")
    case True
    then have "os_Stat fs q = Inr File" using assms by (simp add: os_Stat_plain)
    then show ?thesis using True by (subst os_MkdirAll.simps) simp
  next
    case False
    then have q: "prefix q p" using snoc.prems by simp
    have "fs (p @ [c]) = None"
      using plain_tree_prefix [OF assms(1), of "p @ [c]" q] False snoc.prems assms(3)
      by (cases "fs (p @ [c])") (auto simp: strict_prefix_def)
    then obtain e where "os_Stat fs (p @ [c]) = Inl e"
      using os_Stat_plain [OF assms(1)] by (cases "os_Stat fs (p @ [c])") auto
    moreover have "p \<noteq> []" using q assms by auto
    ultimately show ?thesis using snoc.IH [OF q] by (subst os_MkdirAll.simps) simp
  qed
qed

lemma os_MkdirAll_makes:
  assumes "plain_tree fs" and "\<And>q. prefix q p \<Longrightarrow> fs q \<noteq> Some File"
  shows "os_MkdirAll no_fault p fs = (None, \<lambda>q. if prefix q p then Some Dir else fs q)"
  using assms(2)
proof (induction p rule: rev_induct)
  case Nil
  have "(\<lambda>q. if prefix q [] then Some Dir else fs q) = fs" using assms(1) by auto
  then show ?case using assms(1) by (subst os_MkdirAll.simps) (simp add: os_Stat_plain [THEN iffD2])
next
  case (snoc c p)
  have IH: "os_MkdirAll no_fault p fs = (None, \<lambda>q. if prefix q p then Some Dir else fs q)"
    using snoc by simp
  show ?case
  proof (cases "fs (p @ [c])")
    case (Some nd)
    then have nd: "nd = Dir" using snoc.prems [of "p @ [c]"] assms(1) by (cases nd) (auto simp: plain_tree_def)
    have "fs q = Some Dir" if "prefix q (p @ [c])" for q
      using plain_tree_prefix [OF assms(1), of "p @ [c]" q] Some nd that
      by (cases "q = p @ [c]") (auto simp: strict_prefix_def)
    then have "(\<lambda>q. if prefix q (p @ [c]) then Some Dir else fs q) = fs" by auto
    then show ?thesis using Some nd assms(1) by (subst os_MkdirAll.simps) (simp add: os_Stat_plain [THEN iffD2])
  next
    case None
    then obtain e where st: "os_Stat fs (p @ [c]) = Inl e"
      using os_Stat_plain [OF assms(1)] by (cases "os_Stat fs (p @ [c])") auto
    let ?fs1 = "\<lambda>q. if prefix q p then Some Dir else fs q"
    have t: "plain_tree ?fs1"
      using os_MkdirAll_plain [OF assms(1), of p no_fault] IH by (simp add: mkdir_effect_def)
    have r: "(if p = [] then (None, fs) else os_MkdirAll no_fault p fs) = (None, ?fs1)"
      using IH assms(1) by auto
    have "os_MkdirAll no_fault (p @ [c]) fs = (None, ?fs1(p @ [c] \<mapsto> Dir))"
      using None os_Mkdir_plain [OF t, of "p @ [c]" no_fault]
      by (simp only: os_MkdirAll_snoc [OF st] r) (simp add: no_fault_def)
    then show ?thesis by auto
  qed
qed

end
