(* ===== verification/Json.thy ===== *)
theory Json
  imports Prelude
begin

text \<open>
  JSON as package encoding/json reads it: the grammar with its nesting limit, string literals
  with their escapes, and the decoding of an object into the string fields of a struct.
  Bytes of 128 and more in a string are copied, as the package does for valid UTF-8.
\<close>

section \<open>Values and their syntax\<close>

datatype json =
    JNull
  | JBool bool
  | JNum string
  | JStr string
  | JArr "json list"
  | JObj "(string \<times> json) list"

definition json_space :: "char \<Rightarrow> bool" where
  "json_space c \<longleftrightarrow> c = CHR '' '' \<or> c = CHR 0x09 \<or> c = CHR 0x0D \<or> c = CHR 0x0A"

definition skip_space :: "string \<Rightarrow> string" where
  "skip_space s = dropWhile json_space s"

definition is_digit :: "char \<Rightarrow> bool" where
  "is_digit c \<longleftrightarrow> 48 \<le> (of_char c :: nat) \<and> (of_char c :: nat) \<le> 57"

fun hex_value :: "char \<Rightarrow> nat option" where
  "hex_value c =
     (let n = of_char c :: nat in
      if 48 \<le> n \<and> n \<le> 57 then Some (n - 48)
      else if 97 \<le> n \<and> n \<le> 102 then Some (n - 87)
      else if 65 \<le> n \<and> n \<le> 70 then Some (n - 55) else None)"

declare hex_value.simps [simp del]

text \<open>The contents of a string literal up to its closing quote, escapes kept, and the rest.\<close>

fun scan_string :: "string \<Rightarrow> (string \<times> string) option" where
  "scan_string [] = None"
| "scan_string (c # s) =
     (if c = CHR 0x22 then Some ([], s)
      else if c = CHR 0x5C then
        (case s of [] \<Rightarrow> None
         | e # s' \<Rightarrow>
           if e \<in> set [CHR 0x22, CHR 0x5C, CHR ''/'', CHR ''b'', CHR ''f'', CHR ''n'', CHR ''r'', CHR ''t'']
           then map_option (\<lambda>(r, t). (c # e # r, t)) (scan_string s')
           else if e = CHR ''u'' then
             (case s' of
                x1 # x2 # x3 # x4 # s'' \<Rightarrow>
                  if list_all (\<lambda>x. hex_value x \<noteq> None) [x1, x2, x3, x4]
                  then map_option (\<lambda>(r, t). (c # e # x1 # x2 # x3 # x4 # r, t)) (scan_string s'')
                  else None
              | _ \<Rightarrow> None)
           else None)
      else if (of_char c :: nat) < 32 then None
      else map_option (\<lambda>(r, t). (c # r, t)) (scan_string s))"

text \<open>The UTF-8 bytes of a code point.\<close>

definition utf8 :: "nat \<Rightarrow> string" where
  "utf8 n =
     (if n < 0x80 then [byte n]
      else if n < 0x800 then [byte (0xC0 + n div 64), byte (0x80 + n mod 64)]
      else if n < 0x10000 then
        [byte (0xE0 + n div 4096), byte (0x80 + n div 64 mod 64), byte (0x80 + n mod 64)]
      else
        [byte (0xF0 + n div 262144), byte (0x80 + n div 4096 mod 64), byte (0x80 + n div 64 mod 64),
         byte (0x80 + n mod 64)])"

definition hex4 :: "string \<Rightarrow> nat" where
  "hex4 xs = foldl (\<lambda>n x. 16 * n + (case hex_value x of None \<Rightarrow> 0 | Some d \<Rightarrow> d)) 0 xs"

definition simple_escape :: "char \<Rightarrow> char" where
  "simple_escape e =
     (if e = CHR ''b'' then CHR 0x08 else if e = CHR ''f'' then CHR 0x0C
      else if e = CHR ''n'' then CHR 0x0A else if e = CHR ''r'' then CHR 0x0D
      else if e = CHR ''t'' then CHR 0x09 else e)"

text \<open>Two escaped surrogates make one code point; a lone surrogate reads as U+FFFD.\<close>

fun unquote :: "string \<Rightarrow> string" where
  "unquote [] = []"
| "unquote (c # s) =
     (if c \<noteq> CHR 0x5C then c # unquote s
      else (case s of [] \<Rightarrow> []
        | e # s' \<Rightarrow>
          if e \<noteq> CHR ''u'' then simple_escape e # unquote s'
          else (case s' of
              x1 # x2 # x3 # x4 # t \<Rightarrow>
                (let r = hex4 [x1, x2, x3, x4] in
                 if r < 0xD800 \<or> 0xE000 \<le> r then utf8 r @ unquote t
                 else (case t of
                     b # u # y1 # y2 # y3 # y4 # t' \<Rightarrow>
                       (let r' = hex4 [y1, y2, y3, y4] in
                        if b = CHR 0x5C \<and> u = CHR ''u'' \<and> r < 0xDC00 \<and> 0xDC00 \<le> r' \<and> r' < 0xE000
                        then utf8 (0x10000 + (r - 0xD800) * 1024 + (r' - 0xDC00)) @ unquote t'
                        else utf8 0xFFFD @ unquote t)
                   | _ \<Rightarrow> utf8 0xFFFD @ unquote t))
            | _ \<Rightarrow> [])))"

text \<open>Numbers: an optional sign, an integer part without leading zeros, fraction, exponent.\<close>

definition scan_digits :: "string \<Rightarrow> (string \<times> string) option" where
  "scan_digits s = (let ds = takeWhile is_digit s in if ds = [] then None else Some (ds, drop (length ds) s))"

definition scan_int :: "string \<Rightarrow> (string \<times> string) option" where
  "scan_int s = (case s of c # t \<Rightarrow> if c = CHR ''0'' then Some ([c], t) else scan_digits s | [] \<Rightarrow> None)"

definition scan_frac :: "string \<Rightarrow> (string \<times> string) option" where
  "scan_frac s =
     (case s of c # t \<Rightarrow> if c = CHR ''.'' then map_option (\<lambda>(r, u). (c # r, u)) (scan_digits t) else Some ([], s)
      | [] \<Rightarrow> Some ([], s))"

definition scan_exp :: "string \<Rightarrow> (string \<times> string) option" where
  "scan_exp s =
     (case s of
        c # t \<Rightarrow>
          if c = CHR ''e'' \<or> c = CHR ''E'' then
            (case t of
               d # u \<Rightarrow> if d = CHR ''+'' \<or> d = CHR ''-''
                         then map_option (\<lambda>(r, v). (c # d # r, v)) (scan_digits u)
                         else map_option (\<lambda>(r, v). (c # r, v)) (scan_digits t)
             | [] \<Rightarrow> None)
          else Some ([], s)
      | [] \<Rightarrow> Some ([], s))"

definition scan_number :: "string \<Rightarrow> (string \<times> string) option" where
  "scan_number s =
     (let (sign, s0) = (case s of c # t \<Rightarrow> if c = CHR ''-'' then ([c], t) else ([], s) | [] \<Rightarrow> ([], s)) in
      Option.bind (scan_int s0) (\<lambda>(i, s1).
      Option.bind (scan_frac s1) (\<lambda>(f, s2).
      map_option (\<lambda>(e, s3). (sign @ i @ f @ e, s3)) (scan_exp s2))))"

definition scan_word :: "string \<Rightarrow> 'v \<Rightarrow> string \<Rightarrow> ('v \<times> string) option" where
  "scan_word w v s = (if prefix w s then Some (v, drop (length w) s) else None)"

text \<open>Numbers and the three words.\<close>

definition scan_atom :: "string \<Rightarrow> (json \<times> string) option" where
  "scan_atom s =
     (case scan_word ''null'' JNull s of Some r \<Rightarrow> Some r
      | None \<Rightarrow> (case scan_word ''true'' (JBool True) s of Some r \<Rightarrow> Some r
        | None \<Rightarrow> (case scan_word ''false'' (JBool False) s of Some r \<Rightarrow> Some r
          | None \<Rightarrow> map_option (\<lambda>(n, t). (JNum n, t)) (scan_number s))))"

section \<open>The parser\<close>

lemma skip_space_length: "length (skip_space s) \<le> length s"
  by (simp add: skip_space_def length_dropWhile_le)

lemma skip_space_length_Cons: "skip_space s = c # t \<Longrightarrow> length t < length s"
  using skip_space_length [of s] by simp

lemma scan_string_length: "scan_string s = Some (r, t) \<Longrightarrow> length t < length s"
  by (induction s arbitrary: r t rule: scan_string.induct)
    (fastforce split: if_splits list.splits)+

text \<open>
  Values, and the elements of an array or the members of an object after its opening bracket.
  \<open>d\<close> is the nesting still allowed; what a value leaves over is always shorter than what it
  read, which the two loops test to make their recursion well founded.
\<close>

function (sequential) parse_value :: "nat \<Rightarrow> string \<Rightarrow> (json \<times> string) option"
  and parse_elements :: "nat \<Rightarrow> string \<Rightarrow> (json list \<times> string) option"
  and parse_members :: "nat \<Rightarrow> string \<Rightarrow> ((string \<times> json) list \<times> string) option" where
  "parse_value d s =
     (case skip_space s of [] \<Rightarrow> None
      | c # t \<Rightarrow>
        if c = CHR 0x22 then map_option (\<lambda>(r, u). (JStr (unquote r), u)) (scan_string t)
        else if c = CHR ''['' then
          (if d = 0 then None
           else (case skip_space t of [] \<Rightarrow> None
             | b # u \<Rightarrow> if b = CHR '']'' then Some (JArr [], u)
                        else map_option (\<lambda>(vs, r). (JArr vs, r)) (parse_elements (d - 1) t)))
        else if c = CHR ''{'' then
          (if d = 0 then None
           else (case skip_space t of [] \<Rightarrow> None
             | b # u \<Rightarrow> if b = CHR ''}'' then Some (JObj [], u)
                        else map_option (\<lambda>(ms, r). (JObj ms, r)) (parse_members (d - 1) t)))
        else scan_atom (c # t))"
| "parse_elements d s =
     (case parse_value d s of None \<Rightarrow> None
      | Some (v, w) \<Rightarrow>
        (case skip_space w of [] \<Rightarrow> None
         | c # t \<Rightarrow> if c = CHR '']'' then Some ([v], t)
                    else if c = CHR '','' \<and> length t < length s
                    then map_option (\<lambda>(vs, r). (v # vs, r)) (parse_elements d t)
                    else None))"
| "parse_members d s =
     (case skip_space s of [] \<Rightarrow> None
      | q # s1 \<Rightarrow>
        if q \<noteq> CHR 0x22 then None
        else (case scan_string s1 of None \<Rightarrow> None
          | Some (k, s2) \<Rightarrow>
            (case skip_space s2 of [] \<Rightarrow> None
             | c # s3 \<Rightarrow>
               if c \<noteq> CHR '':'' then None
               else (case parse_value d s3 of None \<Rightarrow> None
                 | Some (v, w) \<Rightarrow>
                   (case skip_space w of [] \<Rightarrow> None
                    | c' # t \<Rightarrow>
                      if c' = CHR ''}'' then Some ([(unquote k, v)], t)
                      else if c' = CHR '','' \<and> length t < length s
                      then map_option (\<lambda>(ms, r). ((unquote k, v) # ms, r)) (parse_members d t)
                      else None)))))"
  by pat_completeness auto
termination
proof (relation "measure (\<lambda>x. case x of Inl (d, s) \<Rightarrow> 2 * length s
      | Inr (Inl (d, s)) \<Rightarrow> 2 * length s + 1 | Inr (Inr (d, s)) \<Rightarrow> 2 * length s + 1)", goal_cases)
  case (6 d s q s1 x k s2 c s3)
  then have "length s1 < length s" "length s2 < length s1" "length s3 < length s2"
    by (auto dest: skip_space_length_Cons scan_string_length)
  then show ?case by simp
qed (auto dest: skip_space_length_Cons)

declare parse_value.simps [simp del] parse_elements.simps [simp del] parse_members.simps [simp del]

definition max_nesting :: nat where "max_nesting = 10000"

text \<open>A document is one value with nothing but space after it.\<close>

definition parse_json :: "string \<Rightarrow> json option" where
  "parse_json s =
     (case parse_value max_nesting s of None \<Rightarrow> None
      | Some (v, t) \<Rightarrow> if skip_space t = [] then Some v else None)"

section \<open>Decoding into a struct of strings\<close>

text \<open>
  json.Unmarshal into a struct whose fields are strings. A key selects the field of its name,
  upper and lower case alike (with the two other letters that fold to k and s); a string is
  stored, so the last of several wins; null leaves the field; any other value is a type
  error, reported after the rest has been read. Unknown keys are ignored.
\<close>

datatype json_error = SyntaxError | UnmarshalTypeError

fun fold_name :: "string \<Rightarrow> string" where
  "fold_name [] = []"
| "fold_name (c # s) =
     (case s of
        d # t \<Rightarrow>
          if c = byte 0xC5 \<and> d = byte 0xBF then CHR ''s'' # fold_name t
          else (case t of
              e # u \<Rightarrow> if c = byte 0xE2 \<and> d = byte 0x84 \<and> e = byte 0xAA then CHR ''k'' # fold_name u
                       else lower_byte c # fold_name s
            | [] \<Rightarrow> lower_byte c # fold_name s)
      | [] \<Rightarrow> [lower_byte c])"

text \<open>The struct's fields that were set, by name; the others are empty strings.\<close>

definition select_field :: "string list \<Rightarrow> string \<Rightarrow> string option" where
  "select_field names key =
     (case find (\<lambda>n. n = key) names of Some n \<Rightarrow> Some n
      | None \<Rightarrow> find (\<lambda>n. fold_name n = fold_name key) names)"

definition decode_member ::
  "string list \<Rightarrow> string go_map \<times> bool \<Rightarrow> string \<times> json \<Rightarrow> string go_map \<times> bool" where
  "decode_member names acc member =
     (case select_field names (fst member) of None \<Rightarrow> acc
      | Some n \<Rightarrow>
        (case snd member of
           JStr x \<Rightarrow> (map_write (fst acc) n x, snd acc)
         | JNull \<Rightarrow> acc
         | _ \<Rightarrow> (fst acc, True)))"

definition decode_struct :: "string list \<Rightarrow> json \<Rightarrow> json_error + string go_map" where
  "decode_struct names v =
     (case v of
        JObj ms \<Rightarrow>
          (case foldl (decode_member names) ([], False) ms of
             (fields, bad) \<Rightarrow> if bad then Inl UnmarshalTypeError else Inr fields)
      | JNull \<Rightarrow> Inr []
      | _ \<Rightarrow> Inl UnmarshalTypeError)"

definition json_Unmarshal :: "string list \<Rightarrow> string \<Rightarrow> json_error + string go_map" where
  "json_Unmarshal names body =
     (case parse_json body of None \<Rightarrow> Inl SyntaxError | Some v \<Rightarrow> decode_struct names v)"

section \<open>Objects of plain strings\<close>

text \<open>A plain string is its own literal: no quote, no backslash, no control character.\<close>

definition json_plain :: "string \<Rightarrow> bool" where
  "json_plain x \<longleftrightarrow> list_all (\<lambda>c. c \<noteq> CHR 0x22 \<and> c \<noteq> CHR 0x5C \<and> \<not> (of_char c :: nat) < 32) x"

fun members_text :: "(string \<times> string) list \<Rightarrow> string" where
  "members_text [] = []"
| "members_text [(k, v)] = CHR 0x22 # k @ CHR 0x22 # CHR '':'' # CHR 0x22 # v @ [CHR 0x22]"
| "members_text ((k, v) # kv # ms) =
     CHR 0x22 # k @ CHR 0x22 # CHR '':'' # CHR 0x22 # v @ CHR 0x22 # CHR '','' # members_text (kv # ms)"

definition object_text :: "(string \<times> string) list \<Rightarrow> string" where
  "object_text ms = CHR ''{'' # members_text ms @ ''}''"

lemma json_plain_simps [simp]:
  "json_plain []"
  "json_plain (c # x) \<longleftrightarrow> c \<noteq> CHR 0x22 \<and> c \<noteq> CHR 0x5C \<and> \<not> (of_char c :: nat) < 32 \<and> json_plain x"
  "json_plain (x @ y) \<longleftrightarrow> json_plain x \<and> json_plain y"
  by (auto simp: json_plain_def)

lemma scan_plain: "json_plain x \<Longrightarrow> scan_string (x @ CHR 0x22 # t) = Some (x, t)"
  by (induction x) simp_all

lemma unquote_plain: "json_plain x \<Longrightarrow> unquote x = x"
  by (induction x) simp_all

lemma skip_space_Cons [simp]: "skip_space (c # s) = (if json_space c then skip_space s else c # s)"
  and skip_space_Nil [simp]: "skip_space [] = []"
  by (simp_all add: skip_space_def)

lemma json_space_simps [simp]:
  "\<not> json_space (CHR 0x22)" "\<not> json_space (CHR '':'')" "\<not> json_space (CHR '','')"
  "\<not> json_space (CHR ''{'')" "\<not> json_space (CHR ''}'')"
  by (simp_all add: json_space_def)

lemma parse_value_plain:
  "json_plain x \<Longrightarrow> parse_value d (CHR 0x22 # x @ CHR 0x22 # t) = Some (JStr x, t)"
  by (simp add: parse_value.simps scan_plain unquote_plain)

lemma parse_members_plain:
  assumes "ms \<noteq> []" and "list_all (\<lambda>(k, v). json_plain k \<and> json_plain v) ms"
  shows "parse_members d (members_text ms @ CHR ''}'' # t) = Some (map (\<lambda>(k, v). (k, JStr v)) ms, t)"
  using assms
proof (induction ms rule: members_text.induct)
  case (2 k v)
  then show ?case
    by (subst parse_members.simps) (simp add: scan_plain unquote_plain parse_value_plain)
next
  case (3 k v kv ms)
  then show ?case
    by (subst parse_members.simps) (simp add: scan_plain unquote_plain parse_value_plain)
qed simp

lemma parse_object_text:
  assumes "ms \<noteq> []" and "list_all (\<lambda>(k, v). json_plain k \<and> json_plain v) ms"
  shows "parse_json (object_text ms) = Some (JObj (map (\<lambda>(k, v). (k, JStr v)) ms))"
proof -
  have hd: "\<exists>u. members_text ms = CHR 0x22 # u"
    using assms(1) by (cases ms rule: members_text.cases) auto
  then obtain u where u: "members_text ms = CHR 0x22 # u" by blast
  have "parse_members (max_nesting - 1) (CHR 0x22 # u @ ''}'') = Some (map (\<lambda>(k, v). (k, JStr v)) ms, [])"
    using parse_members_plain [OF assms, of "max_nesting - 1" "[]"] by (simp add: u)
  then show ?thesis
    by (simp add: parse_json_def object_text_def parse_value.simps u max_nesting_def)
qed

end
