(* ===== verification/MountManager.thy ===== *)
theory MountManager
  imports FileSystem Json GoFmt
begin

text \<open>
  Package mountmanager: the NodeMounter of mount\_linux.go with its file operations, Resize and
  the request to the mount helper, its construction in safe-mounter.go, the stubs of
  mount\_unsupported.go and the two fakes of fake-safe-mounter.go. The mount and exec
  libraries of Kubernetes and the helper at the other end of the socket are parameters.
\<close>

section \<open>safe-mounter.go\<close>

record ('i, 'e) SafeFormatAndMount =
  Interface :: 'i
  Exec :: 'e

text \<open>NodeMounter embeds the pointer; \<open>None\<close> is nil.\<close>

record ('i, 'e) NodeMounter =
  SafeFormatAndMount_of :: "('i, 'e) SafeFormatAndMount option"

definition newSafeMounter :: "(string \<Rightarrow> 'i) \<Rightarrow> 'e \<Rightarrow> ('i, 'e) SafeFormatAndMount" where
  "newSafeMounter mount_New exec_New = \<lparr>Interface = mount_New [], Exec = exec_New\<rparr>"

definition NewNodeMounter :: "(string \<Rightarrow> 'i) \<Rightarrow> 'e \<Rightarrow> ('i, 'e) NodeMounter" where
  "NewNodeMounter mount_New exec_New =
     \<lparr>SafeFormatAndMount_of = Some (newSafeMounter mount_New exec_New)\<rparr>"

section \<open>mount\_linux.go: files and sizes\<close>

text \<open>
  Closing what OpenFile returned. An error that says the file exists is passed over; the file
  is nil then, and closing it is an error.
\<close>

definition close_opened :: "fault \<Rightarrow> path option \<Rightarrow> os_error option \<Rightarrow> os_error option" where
  "close_opened fault f err =
     (case err of
        Some e \<Rightarrow> if \<not> os_IsExist e then Some e else os_Close fault f
      | None \<Rightarrow> os_Close fault f)"

definition MakeFile :: "fault \<Rightarrow> path \<Rightarrow> fs \<Rightarrow> os_error option \<times> fs" where
  "MakeFile fault path fs =
     (case os_OpenFile_create fault path fs of ((f, err), fs') \<Rightarrow> (close_opened fault f err, fs'))"

definition MakeDir :: "fault \<Rightarrow> path \<Rightarrow> fs \<Rightarrow> os_error option \<times> fs" where
  "MakeDir fault path fs =
     (case os_MkdirAll fault path fs of
        (Some err, fs') \<Rightarrow> if \<not> os_IsExist err then (Some err, fs') else (None, fs')
      | (None, fs') \<Rightarrow> (None, fs'))"

definition PathExists :: "(string \<Rightarrow> bool go_result) \<Rightarrow> string \<Rightarrow> bool go_result" where
  "PathExists mount_PathExists path = mount_PathExists path"

definition GetSafeFormatAndMount :: "('i, 'e) NodeMounter \<Rightarrow> ('i, 'e) SafeFormatAndMount option" where
  "GetSafeFormatAndMount m = SafeFormatAndMount_of m"

text \<open>
  Resize and its twin in the fake with custom actions: the two calls of ResizeFs act on the
  world \<open>'w\<close> through the mounter's Exec.
\<close>

type_synonym 'w resize_call = "string \<Rightarrow> string \<Rightarrow> 'w \<Rightarrow> bool go_result \<times> 'w"

definition Resize ::
  "('e \<Rightarrow> 'w resize_call) \<Rightarrow> ('e \<Rightarrow> 'w resize_call) \<Rightarrow> ('i, 'e) NodeMounter \<Rightarrow> string \<Rightarrow> string \<Rightarrow> 'w
   \<Rightarrow> (bool go_result \<times> 'w) can_panic" where
  "Resize NeedResize ResizeFs_Resize m devicePath deviceMountPath w =
     bind_panic (deref (GetSafeFormatAndMount m)) (\<lambda>sfm.
       case NeedResize (Exec sfm) devicePath deviceMountPath w of
         ((needResize, Some err), w1) \<Rightarrow> Inr ((False, Some err), w1)
       | ((needResize, None), w1) \<Rightarrow>
           if needResize then
             (case ResizeFs_Resize (Exec sfm) devicePath deviceMountPath w1 of
                ((r, Some err), w2) \<Rightarrow> Inr ((False, Some err), w2)
              | ((r, None), w2) \<Rightarrow> Inr ((True, None), w2))
           else Inr ((True, None), w1))"

section \<open>mount\_linux.go: the mount helper\<close>

definition defaultSocketPath :: string where "defaultSocketPath = ''/tmp/mysocket.sock''"
definition urlMountPath :: string where "urlMountPath = ''http://unix/api/mount''"
definition urlDebugPath :: string where "urlDebugPath = ''http://unix/api/debugLogs''"

text \<open>In nanoseconds.\<close>

definition timeout :: int where "timeout = 3 * (60 * 10 ^ 9)"

record http_client =
  SocketPath :: string
  Timeout :: int

record http_request =
  Method :: string
  Url :: string
  ContentType :: string
  Payload :: string

text \<open>A response: its status, and its body or the error of reading it.\<close>

record http_response =
  StatusCode :: int
  Body :: "go_error + string"

fun show_nat :: "nat \<Rightarrow> string" where
  "show_nat n = (if n < 10 then [char_of (48 + n)] else show_nat (n div 10) @ [char_of (48 + n mod 10)])"

declare show_nat.simps [simp del]

definition show_int :: "int \<Rightarrow> string" where
  "show_int i = (if i < 0 then CHR ''-'' # show_nat (nat (- i)) else show_nat (nat i))"

definition int_arg :: "int \<Rightarrow> go_arg" where
  "int_arg i = Arg ''int'' (\<lambda>verb. show_int i)"

text \<open>The client for the socket of the environment, or for the default one.\<close>

definition helper_client :: "(string \<Rightarrow> string) \<Rightarrow> http_client" where
  "helper_client Getenv =
     (let socketPath = Getenv ''SOCKET_PATH'';
          socketPath = (if socketPath = [] then defaultSocketPath else socketPath)
      in \<lparr>SocketPath = socketPath, Timeout = timeout\<rparr>)"

text \<open>
  What is made of the answer: the error of the exchange, of reading the body or of decoding
  it, and then the status.
\<close>

definition read_answer ::
  "(json_error \<Rightarrow> string \<Rightarrow> go_error) \<Rightarrow> go_error + http_response \<Rightarrow> string go_result" where
  "read_answer json_text answer =
     (case answer of
        Inl err \<Rightarrow> ([], Some err)
      | Inr response \<Rightarrow>
        (case Body response of Inl err \<Rightarrow> ([], Some err)
         | Inr body \<Rightarrow>
           (case json_Unmarshal [''MountExitCode'', ''Description''] body of
              Inl err \<Rightarrow> ([], Some (json_text err body))
            | Inr responseBody \<Rightarrow>
              if StatusCode response \<noteq> 200 then
                (map_read [] responseBody ''Description'',
                 Some (GoError (sprintf
                   ''Response from mount-helper-container -> Exit Status Code: %s ,ResponseCode: %v''
                   [string_arg (map_read [] responseBody ''MountExitCode''), int_arg (StatusCode response)])))
              else ([], None))))"

text \<open>
  client.Do acts on the world \<open>'w\<close>; \<open>url_error\<close> is the error http.NewRequest has for a URL it
  cannot parse.
\<close>

type_synonym 'w exchange = "http_client \<Rightarrow> http_request \<Rightarrow> 'w \<Rightarrow> (go_error + http_response) \<times> 'w"

definition createMountHelperContainerRequest ::
  "(string \<Rightarrow> string) \<Rightarrow> (string \<Rightarrow> go_error option) \<Rightarrow> 'w exchange \<Rightarrow> (json_error \<Rightarrow> string \<Rightarrow> go_error)
   \<Rightarrow> string \<Rightarrow> string \<Rightarrow> 'w \<Rightarrow> string go_result \<times> 'w" where
  "createMountHelperContainerRequest Getenv url_error Do json_text payload url w =
     (let client = helper_client Getenv in
      case url_error url of Some err \<Rightarrow> (([], Some err), w)
      | None \<Rightarrow>
        (let req = \<lparr>Method = ''POST'', Url = url, ContentType = ''application/json'', Payload = payload\<rparr> in
         case Do client req w of (answer, w') \<Rightarrow> (read_answer json_text answer, w')))"

definition payload_format :: string where
  \<open>payload_format =
     ''{"mountPath":"%s","targetPath":"%s","fsType":"%s","transitEncryption":"%s","requestID":"%s"}''\<close>

definition payload_of :: "string \<Rightarrow> string \<Rightarrow> string \<Rightarrow> string \<Rightarrow> string \<Rightarrow> string" where
  "payload_of mountPath targetPath fsType transitEncryption requestID =
     sprintf payload_format
       [string_arg mountPath, string_arg targetPath, string_arg fsType, string_arg transitEncryption,
        string_arg requestID]"

definition MountEITBasedFileShare ::
  "(string \<Rightarrow> string) \<Rightarrow> (string \<Rightarrow> go_error option) \<Rightarrow> 'w exchange \<Rightarrow> (json_error \<Rightarrow> string \<Rightarrow> go_error)
   \<Rightarrow> string \<Rightarrow> string \<Rightarrow> string \<Rightarrow> string \<Rightarrow> string \<Rightarrow> 'w \<Rightarrow> string go_result \<times> 'w" where
  "MountEITBasedFileShare Getenv url_error Do json_text mountPath targetPath fsType transitEncryption requestID w =
     (let payload = payload_of mountPath targetPath fsType transitEncryption requestID in
      case createMountHelperContainerRequest Getenv url_error Do json_text payload urlMountPath w of
        ((errResponse, Some err), w') \<Rightarrow> ((errResponse, Some err), w')
      | ((errResponse, None), w') \<Rightarrow> (([], None), w'))"

section \<open>mount\_unsupported.go\<close>

definition errUnsupported :: go_error where
  "errUnsupported = GoError ''util/mount on this platform is not supported''"

definition unsupported_MakeFile :: "string \<Rightarrow> go_error option" where
  "unsupported_MakeFile pathname = Some errUnsupported"

definition unsupported_MakeDir :: "string \<Rightarrow> go_error option" where
  "unsupported_MakeDir pathname = Some errUnsupported"

definition unsupported_PathExists :: "string \<Rightarrow> bool go_result" where
  "unsupported_PathExists pathname = (True, Some (GoError ''not implemented''))"

definition unsupported_GetSafeFormatAndMount :: "('i, 'e) NodeMounter \<Rightarrow> ('i, 'e) SafeFormatAndMount option" where
  "unsupported_GetSafeFormatAndMount m = None"

definition unsupported_Resize :: "string \<Rightarrow> string \<Rightarrow> bool go_result" where
  "unsupported_Resize devicePath deviceMountPath = (True, Some (GoError ''not implemented''))"

definition unsupported_MountEITBasedFileShare ::
  "string \<Rightarrow> string \<Rightarrow> string \<Rightarrow> string \<Rightarrow> string \<Rightarrow> string go_result" where
  "unsupported_MountEITBasedFileShare mountPath targetPath fsType transitEncryption requestID = ([], None)"

section \<open>fake-safe-mounter.go\<close>

record MountPoint =
  Device :: string
  MountPath :: string
  FsType :: string
  Opts :: "string list"
  Freq :: int
  Pass :: int

record 'act FakeExec =
  DisableScripts :: bool
  CommandScript :: "'act list"

definition NewFakeSafeMounter :: "(MountPoint list, 'act FakeExec) SafeFormatAndMount" where
  "NewFakeSafeMounter =
     \<lparr>Interface = [\<lparr>Device = ''valid-devicePath'', MountPath = ''valid-vol-path'', FsType = ''ext4'',
                   Opts = [''defaults''], Freq = 1, Pass = 2\<rparr>],
      Exec = \<lparr>DisableScripts = True, CommandScript = []\<rparr>\<rparr>"

definition NewFakeNodeMounter :: "(MountPoint list, 'act FakeExec) NodeMounter" where
  "NewFakeNodeMounter = \<lparr>SafeFormatAndMount_of = Some NewFakeSafeMounter\<rparr>"

definition fake_MountEITBasedFileShare ::
  "string \<Rightarrow> string \<Rightarrow> string \<Rightarrow> string \<Rightarrow> string \<Rightarrow> string go_result" where
  "fake_MountEITBasedFileShare mountPath targetPath fsType transitEncryption requestID = ([], None)"

definition fake_MakeDir :: "string \<Rightarrow> go_error option" where
  "fake_MakeDir pathname =
     (if pathname = ''invalid-volPath-dir'' then Some (GoError ''Path Creation failed'') else None)"

definition fake_MakeFile :: "string \<Rightarrow> go_error option" where
  "fake_MakeFile pathname = None"

definition fake_PathExists :: "string \<Rightarrow> bool go_result" where
  "fake_PathExists pathname = (if pathname = ''fake'' then (True, None) else (False, None))"

definition fake_Resize :: "string \<Rightarrow> string \<Rightarrow> bool go_result" where
  "fake_Resize devicePath deviceMountPath = (if devicePath = ''fake'' then (True, None) else (False, None))"

definition fake_GetSafeFormatAndMount ::
  "(MountPoint list, 'act FakeExec) NodeMounter \<Rightarrow> (MountPoint list, 'act FakeExec) SafeFormatAndMount option" where
  "fake_GetSafeFormatAndMount f = SafeFormatAndMount_of f"

record 'act FakeNodeMounterWithCustomActions = "(MountPoint list, 'act FakeExec) NodeMounter" +
  actionList :: "'act list"

definition NewFakeSafeMounterWithCustomActions :: "'act list \<Rightarrow> (MountPoint list, 'act FakeExec) SafeFormatAndMount" where
  "NewFakeSafeMounterWithCustomActions actions =
     \<lparr>Interface = [\<lparr>Device = ''devicePath'', MountPath = ''vol-path'', FsType = ''ext4'',
                   Opts = [''defaults''], Freq = 1, Pass = 2\<rparr>],
      Exec = \<lparr>DisableScripts = False, CommandScript = actions\<rparr>\<rparr>"

definition NewFakeNodeMounterWithCustomActions :: "'act list \<Rightarrow> 'act FakeNodeMounterWithCustomActions" where
  "NewFakeNodeMounterWithCustomActions actions =
     \<lparr>SafeFormatAndMount_of = Some (NewFakeSafeMounterWithCustomActions actions), actionList = actions\<rparr>"

definition custom_MountEITBasedFileShare ::
  "string \<Rightarrow> string \<Rightarrow> string \<Rightarrow> string \<Rightarrow> string \<Rightarrow> string go_result" where
  "custom_MountEITBasedFileShare mountPath targetPath fsType transitEncryption requestID = ([], None)"

definition custom_MakeDir :: "string \<Rightarrow> go_error option" where
  "custom_MakeDir pathname = None"

definition custom_MakeFile :: "string \<Rightarrow> go_error option" where
  "custom_MakeFile pathname = None"

definition custom_PathExists :: "string \<Rightarrow> bool go_result" where
  "custom_PathExists pathname = (if pathname = ''fake'' then (True, None) else (False, None))"

definition custom_GetSafeFormatAndMount ::
  "'act FakeNodeMounterWithCustomActions \<Rightarrow> (MountPoint list, 'act FakeExec) SafeFormatAndMount option" where
  "custom_GetSafeFormatAndMount f = SafeFormatAndMount_of f"

definition custom_Resize ::
  "('act FakeExec \<Rightarrow> 'w resize_call) \<Rightarrow> ('act FakeExec \<Rightarrow> 'w resize_call) \<Rightarrow> 'act FakeNodeMounterWithCustomActions
   \<Rightarrow> string \<Rightarrow> string \<Rightarrow> 'w \<Rightarrow> (bool go_result \<times> 'w) can_panic" where
  "custom_Resize NeedResize ResizeFs_Resize f devicePath deviceMountPath w =
     bind_panic (deref (custom_GetSafeFormatAndMount f)) (\<lambda>sfm.
       case NeedResize (Exec sfm) devicePath deviceMountPath w of
         ((needResize, Some err), w1) \<Rightarrow> Inr ((False, Some err), w1)
       | ((needResize, None), w1) \<Rightarrow>
           if needResize then
             (case ResizeFs_Resize (Exec sfm) devicePath deviceMountPath w1 of
                ((r, Some err), w2) \<Rightarrow> Inr ((False, Some err), w2)
              | ((r, None), w2) \<Rightarrow> Inr ((True, None), w2))
           else Inr ((True, None), w1))"

section \<open>Making paths\<close>

text \<open>
  The contract MakeFile and MakeDir share: success means the path is there as it should be,
  what was made stays made, and making it again changes nothing.
\<close>

fun make_all :: "(path \<Rightarrow> fs \<Rightarrow> os_error option \<times> fs) \<Rightarrow> path list \<Rightarrow> fs \<Rightarrow> os_error option list \<times> fs" where
  "make_all mk [] fs = ([], fs)"
| "make_all mk (p # ps) fs =
     (fst (mk p fs) # fst (make_all mk ps (snd (mk p fs))), snd (make_all mk ps (snd (mk p fs))))"

locale path_maker =
  fixes mk :: "path \<Rightarrow> fs \<Rightarrow> os_error option \<times> fs"
    and made :: "fs \<Rightarrow> path \<Rightarrow> bool"
    and invar :: "fs \<Rightarrow> bool"
  assumes make_ok: "invar fs \<Longrightarrow> fst (mk p fs) = None \<Longrightarrow> made (snd (mk p fs)) p"
    and make_keeps: "invar fs \<Longrightarrow> made fs q \<Longrightarrow> made (snd (mk p fs)) q"
    and make_again: "invar fs \<Longrightarrow> made fs p \<Longrightarrow> snd (mk p fs) = fs"
    and make_invar: "invar fs \<Longrightarrow> invar (snd (mk p fs))"
begin

lemma make_all_keeps: "invar fs \<Longrightarrow> made fs q \<Longrightarrow> made (snd (make_all mk ps fs)) q"
  by (induction ps arbitrary: fs) (simp_all add: make_keeps make_invar)

lemma make_all_ok:
  "invar fs \<Longrightarrow> list_all (\<lambda>e. e = None) (fst (make_all mk ps fs)) \<Longrightarrow>
     list_all (made (snd (make_all mk ps fs))) ps"
  by (induction ps arbitrary: fs) (simp_all add: make_ok make_invar make_all_keeps)

lemma make_all_again: "invar fs \<Longrightarrow> list_all (made fs) ps \<Longrightarrow> snd (make_all mk ps fs) = fs"
  by (induction ps arbitrary: fs) (simp_all add: make_again)

lemma make_all_invar: "invar fs \<Longrightarrow> invar (snd (make_all mk ps fs))"
  by (induction ps arbitrary: fs) (simp_all add: make_invar)

lemma make_all_twice:
  assumes "invar fs" and "list_all (\<lambda>e. e = None) (fst (make_all mk ps fs))"
  shows "snd (make_all mk ps (snd (make_all mk ps fs))) = snd (make_all mk ps fs)"
  using make_all_again [OF make_all_invar [OF assms(1)] make_all_ok [OF assms]] .

end

lemma MakeDir_plain:
  "plain_tree fs \<Longrightarrow> MakeDir fault p fs = os_MkdirAll fault p fs"
  using os_MkdirAll_plain [of fs p fault]
  by (auto simp: MakeDir_def mkdir_effect_def split: prod.split option.split)

lemma failed_or_exists:
  assumes "fs' = fs" and "err \<noteq> None" and "\<And>e. fs' = fs \<Longrightarrow> err = Some e \<Longrightarrow> thesis"
  shows thesis
  using assms by (cases err) auto

lemma MakeFile_cases:
  assumes "MakeFile fault p fs = (err, fs')"
  obtains (opened) q where "resolve max_links True fs [] p = Inr q" and "fs q \<noteq> Some Dir"
      and "fs' = (if fs q = None then fs(q \<mapsto> File) else fs)"
      and "err = map_option (\<lambda>e. PathError ''close'' p (EnvFault e)) (fault ''close'' p)"
  | (failed) e where "fs' = fs" and "err = Some e"
proof (cases "fault ''open'' p")
  case (Some e)
  with assms show thesis
    by (intro failed) (auto simp: MakeFile_def os_OpenFile_create_def close_opened_def)
next
  case None
  show thesis
  proof (cases "resolve max_links True fs [] p")
    case (Inl e)
    show thesis
    proof (rule failed_or_exists)
      show "fs' = fs" using assms None Inl by (simp add: MakeFile_def os_OpenFile_create_def)
      show "err \<noteq> None" using assms None Inl
        by (auto simp: MakeFile_def os_OpenFile_create_def close_opened_def os_Close_def)
    qed (rule failed)
  next
    case (Inr q)
    show thesis
    proof (cases "fs q = Some Dir")
      case True
      with assms None Inr show thesis
        by (intro failed) (auto simp: MakeFile_def os_OpenFile_create_def close_opened_def)
    next
      case False
      with assms None Inr show thesis
        by (intro opened [OF Inr False])
          (auto simp: MakeFile_def os_OpenFile_create_def close_opened_def os_Close_def split: option.splits)
    qed
  qed
qed

lemma MakeFile_stat:
  assumes "MakeFile fault p fs = (err, fs')" and "fs [] = Some Dir" and "err = None"
  shows "os_Stat fs' p = Inr File"
  using assms(1)
proof (cases rule: MakeFile_cases)
  case (opened q)
  have nl: "fs q \<noteq> Some (Link t)" for t
    using resolve_no_link [OF opened(1)] assms(2) by simp
  show ?thesis
  proof (cases "fs q")
    case None
    then have "resolve max_links True (fs(q \<mapsto> File)) [] p = Inr q"
      using resolve_add [OF opened(1), of q File] by simp
    then show ?thesis using opened None by (simp add: os_Stat_def)
  next
    case (Some nd)
    then have "nd = File" using nl opened(2) by (cases nd) auto
    then show ?thesis using opened Some by (simp add: os_Stat_def)
  qed
qed (use assms in simp)

lemma MakeFile_tree:
  assumes "plain_tree fs"
  shows "plain_tree (snd (MakeFile fault p fs))"
    and "fs q \<noteq> None \<Longrightarrow> snd (MakeFile fault p fs) q = fs q"
    and "fs p = Some File \<Longrightarrow> snd (MakeFile fault p fs) = fs"
proof -
  obtain err fs' where r: "MakeFile fault p fs = (err, fs')" by force
  have "plain_tree fs' \<and> (fs q \<noteq> None \<longrightarrow> fs' q = fs q) \<and> (fs p = Some File \<longrightarrow> fs' = fs)"
    using r
  proof (cases rule: MakeFile_cases)
    case (opened x)
    then have x: "x = p" using resolve_plain_Inr [OF _ assms] by fastforce
    show ?thesis
    proof (cases "fs p")
      case None
      have "p \<noteq> []" using None assms by auto
      then obtain d c where p: "p = d @ [c]" by (cases p rule: rev_cases) auto
      then have "fs d = Some Dir" using resolve_plain_parent [OF opened(1) assms] assms by simp
      then have "plain_tree (fs(p \<mapsto> File))" using plain_tree_add [OF assms] None p by simp
      then show ?thesis using opened(3) None x by simp
    qed (use opened x assms in auto)
  qed (use assms in simp)
  then show "plain_tree (snd (MakeFile fault p fs))"
    and "fs q \<noteq> None \<Longrightarrow> snd (MakeFile fault p fs) q = fs q"
    and "fs p = Some File \<Longrightarrow> snd (MakeFile fault p fs) = fs"
    by (simp_all add: r)
qed

interpretation dirs: path_maker "MakeDir fault" "\<lambda>fs p. fs p = Some Dir" plain_tree
proof
  fix fs p q
  assume t: "plain_tree fs"
  note eff = os_MkdirAll_plain [OF t, of p fault, folded MakeDir_plain [OF t], unfolded mkdir_effect_def]
  show "fst (MakeDir fault p fs) = None \<Longrightarrow> snd (MakeDir fault p fs) p = Some Dir"
    and "fs q = Some Dir \<Longrightarrow> snd (MakeDir fault p fs) q = Some Dir"
    and "plain_tree (snd (MakeDir fault p fs))"
    using eff by auto
  show "snd (MakeDir fault p fs) = fs" if "fs p = Some Dir"
    using that by (subst MakeDir_plain [OF t], subst os_MkdirAll.simps) (simp add: os_Stat_plain [OF t, THEN iffD2])
qed

interpretation files: path_maker "MakeFile fault" "\<lambda>fs p. fs p = Some File" plain_tree
proof
  fix fs p q
  assume t: "plain_tree fs"
  show "snd (MakeFile fault p fs) p = Some File" if "fst (MakeFile fault p fs) = None"
  proof -
    have "os_Stat (snd (MakeFile fault p fs)) p = Inr File"
      using MakeFile_stat [of fault p fs] that t by (cases "MakeFile fault p fs") auto
    then show ?thesis using os_Stat_plain MakeFile_tree(1) [OF t] by blast
  qed
qed (simp_all add: MakeFile_tree)

section \<open>The payload\<close>

definition payload_fields :: "string list" where
  "payload_fields = [''mountPath'', ''targetPath'', ''fsType'', ''transitEncryption'', ''requestID'']"

lemma payload_object:
  "payload_of m t f e r = object_text [(''mountPath'', m), (''targetPath'', t), (''fsType'', f),
     (''transitEncryption'', e), (''requestID'', r)]"
  by (simp add: payload_of_def payload_format_def object_text_def)

lemma payload_injected:
  "payload_of m t f e (r @ [CHR 0x22] @ '','' @ [CHR 0x22] @ ''fsType'' @ [CHR 0x22] @ '':'' @ [CHR 0x22] @ x)
    = object_text [(''mountPath'', m), (''targetPath'', t), (''fsType'', f),
        (''transitEncryption'', e), (''requestID'', r), (''fsType'', x)]"
  by (simp add: payload_of_def payload_format_def object_text_def)

lemma select_payload_field:
  "list_all (\<lambda>n. select_field payload_fields n = Some n) payload_fields"
  by (simp add: payload_fields_def select_field_def)

section \<open>The helper's answer\<close>

lemma answer_fields:
  assumes "json_plain c" and "json_plain d"
  shows "json_Unmarshal [''MountExitCode'', ''Description''] (object_text [(''MountExitCode'', c), (''Description'', d)])
     = Inr [(''MountExitCode'', c), (''Description'', d)]"
  using assms by (simp add: json_Unmarshal_def parse_object_text decode_struct_def decode_member_def select_field_def)

section \<open>Lemmas for the properties\<close>

lemma os_MkdirAll_link:
  assumes "fs [] = Some Dir" and "os_Lstat fs p = Inr (Link t)" and "os_Stat fs p = Inl e"
    and "fault ''mkdir'' p = None"
  shows "os_MkdirAll fault p fs = (Some (PathError ''mkdir'' p EEXIST), fs)"
proof -
  obtain x where x: "resolve max_links False fs [] p = Inr x" "fs x = Some (Link t)"
    using assms(2) by (auto simp: os_Lstat_def split: sum.splits option.splits)
  then have "p \<noteq> []" using assms(1) by auto
  then obtain d c where p: "p = d @ [c]" by (cases p rule: rev_cases) auto
  then obtain y where "resolve max_links True fs [] d = Inr y" "fs y = Some Dir"
    using resolve_butlast [of max_links fs "[]" d c x] x assms(1) by auto
  then have "os_MkdirAll fault d fs = (None, fs)"
    by (subst os_MkdirAll.simps) (simp add: os_Stat_def)
  then have parent: "(if d = [] then (None, fs) else os_MkdirAll fault d fs) = (None, fs)" by simp
  have "os_Mkdir fault p fs = (Some (PathError ''mkdir'' p EEXIST), fs)"
    using x assms(4) by (simp add: os_Mkdir_def)
  then show ?thesis using assms(2,3) by (simp only: p os_MkdirAll_snoc parent) simp
qed

lemma make_files_keep:
  "plain_tree fs \<Longrightarrow> fs q \<noteq> None \<Longrightarrow> snd (make_all (MakeFile fault) ps fs) q = fs q"
  by (induction ps arbitrary: fs) (simp_all add: MakeFile_tree)

lemma read_answer_None:
  "snd (read_answer json_text answer) = None \<longleftrightarrow>
     (\<exists>response body found. answer = Inr response \<and> Body response = Inr body \<and> StatusCode response = 200
        \<and> json_Unmarshal [''MountExitCode'', ''Description''] body = Inr found)"
  by (auto simp: read_answer_def split: sum.splits if_splits)

lemma read_answer_text: "snd (read_answer json_text answer) = None \<Longrightarrow> fst (read_answer json_text answer) = []"
  by (auto simp: read_answer_def split: sum.splits if_splits)

text \<open>The request MountEITBasedFileShare makes, and all it does.\<close>

definition mount_request :: "string \<Rightarrow> http_request" where
  "mount_request payload =
     \<lparr>Method = ''POST'', Url = ''http://unix/api/mount'', ContentType = ''application/json'', Payload = payload\<rparr>"

lemma MountEITBasedFileShare_eq:
  "MountEITBasedFileShare env url_error Do json_text m t f e r w =
     (case url_error urlMountPath of Some err \<Rightarrow> (([], Some err), w)
      | None \<Rightarrow> (read_answer json_text (fst (Do (helper_client env) (mount_request (payload_of m t f e r)) w)),
                 snd (Do (helper_client env) (mount_request (payload_of m t f e r)) w)))"
  using read_answer_text [of json_text "fst (Do (helper_client env) (mount_request (payload_of m t f e r)) w)"]
  by (auto simp: MountEITBasedFileShare_def createMountHelperContainerRequest_def Let_def mount_request_def
      urlMountPath_def prod_eq_iff split: prod.splits option.splits)

definition resize_contract :: "('e \<Rightarrow> 'w resize_call) \<Rightarrow> ('e \<Rightarrow> 'w resize_call) \<Rightarrow> bool" where
  "resize_contract need resize \<longleftrightarrow>
     (\<forall>x d p w. snd (need x d p w) = w)
     \<and> (\<forall>x d p w b w'. resize x d p w = ((b, None), w') \<longrightarrow> fst (need x d p w') = (False, None))"

lemma payload_decoded:
  assumes "list_all json_plain [m, t, f, e, r]"
  shows "json_Unmarshal payload_fields (payload_of m t f e r)
     = Inr [(''mountPath'', m), (''targetPath'', t), (''fsType'', f), (''transitEncryption'', e), (''requestID'', r)]"
  using assms
  by (simp add: payload_object json_Unmarshal_def parse_object_text decode_struct_def decode_member_def
      select_field_def payload_fields_def)

section \<open>Properties\<close>

text \<open>C26: the payload MountEITBasedFileShare sends for five plain fields (without quotes, backslashes
  and control characters) is a JSON object that a reader decodes into exactly these fields.\<close>

theorem payload_roundtrip:
  assumes "list_all json_plain [m, t, f, e, r]"
  shows "json_Unmarshal payload_fields (payload_of m t f e r)
     = Inr [(''mountPath'', m), (''targetPath'', t), (''fsType'', f), (''transitEncryption'', e), (''requestID'', r)]"
  by (rule payload_decoded) (rule assms)

theorem payload_roundtrip_witness:
  "json_Unmarshal payload_fields (payload_of ''10.0.0.1:/share'' ''/mnt/a'' ''nfs4'' ''stunnel'' ''42'')
     = Inr [(''mountPath'', ''10.0.0.1:/share''), (''targetPath'', ''/mnt/a''), (''fsType'', ''nfs4''),
            (''transitEncryption'', ''stunnel''), (''requestID'', ''42'')]"
  by (rule payload_roundtrip) simp

text \<open>C27: the fields are not escaped: a request ID that contains a quote adds a member to the object,
  and the reader takes the file system type the request ID asks for instead of the one
  passed as fsType.\<close>

theorem payload_injection:
  assumes "list_all json_plain [m, t, f, e, r, x]"
  shows "\<exists>found. json_Unmarshal payload_fields
        (payload_of m t f e (r @ [CHR 0x22] @ '','' @ [CHR 0x22] @ ''fsType'' @ [CHR 0x22] @ '':'' @ [CHR 0x22] @ x))
      = Inr found \<and> map_read [] found ''fsType'' = x \<and> map_read [] found ''requestID'' = r"
  using assms unfolding payload_injected
  by (simp add: json_Unmarshal_def parse_object_text decode_struct_def decode_member_def
      select_field_def payload_fields_def)

theorem payload_injection_witness:
  "\<exists>found. json_Unmarshal payload_fields
      (payload_of ''a:/b'' ''/mnt/a'' ''nfs4'' ''ipsec''
         (''42'' @ [CHR 0x22] @ '','' @ [CHR 0x22] @ ''fsType'' @ [CHR 0x22] @ '':'' @ [CHR 0x22] @ ''ext4''))
      = Inr found \<and> map_read [] found ''fsType'' = ''ext4'' \<and> map_read [] found ''requestID'' = ''42''"
  by (rule payload_injection) simp

text \<open>MountEITBasedFileShare posts the payload once to the mount URL over the socket of SOCKET\_PATH
  (or the default socket), unless the URL is refused, and does nothing else; it reports
  success exactly when the answer has status 200 and a body that decodes into the struct of
  exit code and description.\<close>

lemma MountEITBasedFileShare_succeeds_iff:
  "(snd (fst (MountEITBasedFileShare env url_error Do json_text m t f e r w)) = None \<longleftrightarrow>
     url_error ''http://unix/api/mount'' = None
     \<and> (\<exists>response body found.
          fst (Do (helper_client env) (mount_request (payload_of m t f e r)) w) = Inr response
          \<and> Body response = Inr body \<and> StatusCode response = 200
          \<and> json_Unmarshal [''MountExitCode'', ''Description''] body = Inr found))
   \<and> snd (MountEITBasedFileShare env url_error Do json_text m t f e r w) =
      (if url_error ''http://unix/api/mount'' = None
       then snd (Do (helper_client env) (mount_request (payload_of m t f e r)) w) else w)
   \<and> SocketPath (helper_client env) = (if env ''SOCKET_PATH'' = [] then ''/tmp/mysocket.sock'' else env ''SOCKET_PATH'')"
  by (auto simp: MountEITBasedFileShare_eq urlMountPath_def read_answer_None helper_client_def defaultSocketPath_def
      Let_def split: option.split)



text \<open>Without failures of the environment MakeDir, on a tree without symbolic links, either finds a
  file on the way, reports it and changes nothing, or succeeds and makes exactly the missing
  directories of the path.\<close>

lemma MakeDir_spec:
  assumes "plain_tree fs"
  shows "if \<exists>q. prefix q p \<and> fs q = Some File
    then \<exists>q. prefix q p \<and> fs q = Some File \<and> MakeDir no_fault p fs = (Some (PathError ''mkdir'' q ENOTDIR), fs)
    else MakeDir no_fault p fs = (None, \<lambda>q. if prefix q p then Some Dir else fs q)"
  using os_MkdirAll_file [OF assms] os_MkdirAll_makes [OF assms] by (auto simp: MakeDir_plain [OF assms])

lemma MakeDir_spec_witness:
  "MakeDir no_fault [''mnt'', ''a''] [[] \<mapsto> Dir] = (None, \<lambda>q. if prefix q [''mnt'', ''a''] then Some Dir else [[] \<mapsto> Dir] q)"
proof -
  have "plain_tree [[] \<mapsto> Dir]" by (simp add: plain_tree_def)
  from MakeDir_spec [OF this, of "[''mnt'', ''a'']"] show ?thesis by simp
qed

text \<open>Whatever call fails on the way, MakeDir on a tree without symbolic links keeps every entry
  there was, adds only directories on the way to the path, and returns nil only if the path
  is a directory.\<close>

lemma MakeDir_under_faults:
  assumes "plain_tree fs"
  shows "case MakeDir fault p fs of (err, fs') \<Rightarrow>
     plain_tree fs' \<and> (\<forall>q. fs' q = fs q \<or> fs q = None \<and> fs' q = Some Dir \<and> prefix q p)
     \<and> (err = None \<longrightarrow> fs' p = Some Dir)"
  using os_MkdirAll_plain [OF assms, of p fault]
  by (auto simp: MakeDir_plain [OF assms] mkdir_effect_def split: prod.split)

lemma MakeDir_under_faults_witness:
  "case MakeDir (\<lambda>call p. if p = [''a'', ''b''] then Some ''permission denied'' else None) [''a'', ''b''] [[] \<mapsto> Dir]
   of (err, fs') \<Rightarrow>
     plain_tree fs' \<and> (\<forall>q. fs' q = [[] \<mapsto> Dir] q \<or> [[] \<mapsto> Dir] q = None \<and> fs' q = Some Dir \<and> prefix q [''a'', ''b''])
     \<and> (err = None \<longrightarrow> fs' [''a'', ''b''] = Some Dir)"
  by (rule MakeDir_under_faults) (simp add: plain_tree_def)

text \<open>A symbolic link to nothing in the place of the directory is taken for the directory: MakeDir
  returns nil and changes nothing, and looking the path up afterwards still fails.\<close>

lemma MakeDir_dangling_link:
  assumes "fs [] = Some Dir" and "os_Lstat fs p = Inr (Link t)" and "os_Stat fs p = Inl e"
    and "fault ''mkdir'' p = None"
  shows "MakeDir fault p fs = (None, fs) \<and> os_Stat (snd (MakeDir fault p fs)) p = Inl e"
  using os_MkdirAll_link [of fs p t e fault] assms by (simp add: MakeDir_def)

lemma MakeDir_dangling_link_witness:
  "MakeDir no_fault [''v''] [[] \<mapsto> Dir, [''v''] \<mapsto> Link [''gone'']] = (None, [[] \<mapsto> Dir, [''v''] \<mapsto> Link [''gone'']])"
  using MakeDir_dangling_link [of "[[] \<mapsto> Dir, [''v''] \<mapsto> Link [''gone'']]" "[''v'']" "[''gone'']" ENOENT no_fault]
  by (simp add: os_Lstat_def os_Stat_def resolve.simps(2) max_links_def no_fault_def)



text \<open>Preparing targets: if a run of MakeDir calls and then a run of MakeFile calls all return nil,
  every directory and every file asked for is there at the end, and repeating both runs
  changes nothing, also when calls fail the second time.\<close>

lemma targets_prepared:
  assumes "plain_tree fs"
    and "make_all (MakeDir fault) ds fs = (errs1, fs1)" and "list_all (\<lambda>e. e = None) errs1"
    and "make_all (MakeFile fault) ps fs1 = (errs2, fs2)" and "list_all (\<lambda>e. e = None) errs2"
  shows "list_all (\<lambda>d. fs2 d = Some Dir) ds \<and> list_all (\<lambda>p. fs2 p = Some File) ps
    \<and> snd (make_all (MakeFile fault') ps (snd (make_all (MakeDir fault') ds fs2))) = fs2"
proof -
  have t1: "plain_tree fs1" using dirs.make_all_invar [OF assms(1), of fault ds] assms(2) by simp
  have t2: "plain_tree fs2" using files.make_all_invar [OF t1, of fault ps] assms(4) by simp
  have "list_all (\<lambda>d. fs1 d = Some Dir) ds"
    using dirs.make_all_ok [OF assms(1), of fault ds] assms(2,3) by simp
  then have d: "list_all (\<lambda>d. fs2 d = Some Dir) ds"
    using make_files_keep [OF t1, of _ fault ps] assms(4) by (auto simp: list_all_iff)
  have f: "list_all (\<lambda>p. fs2 p = Some File) ps"
    using files.make_all_ok [OF t1, of fault ps] assms(4,5) by simp
  show ?thesis using d f dirs.make_all_again [OF t2 d] files.make_all_again [OF t2 f] by simp
qed

lemma targets_prepared_witness:
  "\<exists>fs. fs [''a''] = Some Dir \<and> fs [''a'', ''f''] = Some File
    \<and> snd (make_all (MakeFile no_fault) [[''a'', ''f'']] (snd (make_all (MakeDir no_fault) [[''a'']] fs))) = fs"
proof -
  let ?fs0 = "[[] \<mapsto> Dir]" let ?fs1 = "\<lambda>q. if prefix q [''a''] then Some Dir else [[] \<mapsto> Dir] q"
  have t: "plain_tree ?fs0" by (simp add: plain_tree_def)
  have "MakeDir no_fault [''a''] ?fs0 = (None, ?fs1)"
    unfolding MakeDir_plain [OF t] by (rule os_MkdirAll_makes [OF t]) (simp split: if_splits)
  then have d: "make_all (MakeDir no_fault) [[''a'']] ?fs0 = ([None], ?fs1)" by simp
  have "MakeFile no_fault [''a'', ''f''] ?fs1 = (None, ?fs1([''a'', ''f''] \<mapsto> File))"
    by (simp add: MakeFile_def os_OpenFile_create_def resolve.simps no_fault_def close_opened_def os_Close_def)
  then have f: "make_all (MakeFile no_fault) [[''a'', ''f'']] ?fs1 = ([None], ?fs1([''a'', ''f''] \<mapsto> File))" by simp
  show ?thesis
    using targets_prepared [OF t d _ f, of no_fault] by (intro exI [of _ "?fs1([''a'', ''f''] \<mapsto> File)"]) simp
qed

text \<open>Given a ResizeFs whose successful resize leaves nothing to resize and whose check changes
  nothing, a Resize that succeeded can be repeated: the second call succeeds without resizing
  again, so the world stays as the first call left it.\<close>

lemma Resize_settles:
  assumes "resize_contract need resize" and "Resize need resize m dev mnt w = Inr ((True, None), w')"
  shows "Resize need resize m dev mnt w' = Inr ((True, None), w')"
proof -
  obtain sfm where sfm: "GetSafeFormatAndMount m = Some sfm"
    using assms(2) by (auto simp: Resize_def bind_panic_Inr_iff)
  have pure: "snd (need x d p v) = v" for x d p v using assms(1) by (simp add: resize_contract_def)
  have "fst (need (Exec sfm) dev mnt w') = (False, None)"
  proof (cases "need (Exec sfm) dev mnt w")
    case (Pair r w1)
    then have "w1 = w" using pure [of "Exec sfm" dev mnt w] by simp
    with Pair assms show ?thesis
      by (auto simp: Resize_def sfm resize_contract_def split: prod.splits option.splits if_splits)
  qed
  then show ?thesis using pure [of "Exec sfm" dev mnt w']
    by (cases "need (Exec sfm) dev mnt w'") (simp add: Resize_def sfm)
qed

lemma Resize_settles_witness:
  "Resize (\<lambda>x d p n. ((n < 10, None), n)) (\<lambda>x d p n. ((True, None), 10))
     (NewNodeMounter (\<lambda>path. path) ()) ''/dev/vdb'' ''/mnt'' (10 :: nat) = Inr ((True, None), 10)"
  by (rule Resize_settles [where w = 3])
    (simp_all add: resize_contract_def Resize_def GetSafeFormatAndMount_def NewNodeMounter_def newSafeMounter_def)

end
