(* ===== verification/LockStore.thy ===== *)
theory LockStore
  imports Prelude
begin

text \<open>
  Package utils, lock_store.go: a store of named mutexes. The heap (the maps of the LockStore
  objects and the mutexes they point to), getLock as a sequential operation on it, and then
  the threads that call Lock and Unlock concurrently, one atomic step per shared access of
  the source, with the package mutex lockstoremux between them.
\<close>

section \<open>The heap and getLock\<close>

text \<open>
  A LockStore is named by a number; its field \<open>store\<close> is the nil map (\<open>None\<close>) until
  checkAndInitLockStore makes one. A mutex is named by its address, the position in
  \<open>mutexes\<close>, which says whether it is locked; \<open>&sync.Mutex{}\<close> allocates a new unlocked one.
\<close>

type_synonym store_id = nat
type_synonym mutex_id = nat
type_synonym tid = nat
type_synonym lock_key = "store_id \<times> string"

record lock_heap =
  store :: "store_id \<Rightarrow> (string \<rightharpoonup> mutex_id) option"
  mutexes :: "bool list"

definition checkAndInitLockStore :: "store_id \<Rightarrow> ('z) lock_heap_scheme \<Rightarrow> 'z lock_heap_scheme" where
  "checkAndInitLockStore s h =
     (if store h s = None then h\<lparr>store := (store h)(s := Some Map.empty)\<rparr> else h)"

definition lock_lookup :: "'z lock_heap_scheme \<Rightarrow> lock_key \<Rightarrow> mutex_id option" where
  "lock_lookup h k = Option.bind (store h (fst k)) (\<lambda>m. m (snd k))"

text \<open>Lines 50 to 52; \<open>None\<close> is the panic of a write to a nil map.\<close>

definition createMissing :: "lock_key \<Rightarrow> 'z lock_heap_scheme \<Rightarrow> 'z lock_heap_scheme option" where
  "createMissing k h =
     (if lock_lookup h k = None then
        (case store h (fst k) of
           None \<Rightarrow> None
         | Some m \<Rightarrow> Some (h\<lparr>store := (store h)(fst k := Some (m(snd k \<mapsto> length (mutexes h)))),
                             mutexes := mutexes h @ [False]\<rparr>))
      else Some h)"

text \<open>getLock between the acquisition and the deferred release of lockstoremux.\<close>

definition getLock :: "lock_key \<Rightarrow> 'z lock_heap_scheme \<Rightarrow> (mutex_id option \<times> 'z lock_heap_scheme) option" where
  "getLock k h =
     map_option (\<lambda>h'. (lock_lookup h' k, h')) (createMissing k (checkAndInitLockStore (fst k) h))"

text \<open>Two names never share a mutex, in one store or across stores, and no pointer dangles.\<close>

definition heap_ok :: "'z lock_heap_scheme \<Rightarrow> bool" where
  "heap_ok h \<longleftrightarrow>
     (\<forall>k k' m. lock_lookup h k = Some m \<longrightarrow> lock_lookup h k' = Some m \<longrightarrow> k = k')
     \<and> (\<forall>k m. lock_lookup h k = Some m \<longrightarrow> m < length (mutexes h))"

lemma lock_lookup_init [simp]: "lock_lookup (checkAndInitLockStore s h) k = lock_lookup h k"
  by (cases "store h s") (auto simp: checkAndInitLockStore_def lock_lookup_def)

lemma init_fields [simp]:
  "mutexes (checkAndInitLockStore s h) = mutexes h"
  "store (checkAndInitLockStore s h) s \<noteq> None"
  "store h s' \<noteq> None \<Longrightarrow> store (checkAndInitLockStore s h) s' \<noteq> None"
  by (auto simp: checkAndInitLockStore_def)

lemma heap_ok_init [simp]: "heap_ok (checkAndInitLockStore s h) = heap_ok h"
  by (simp add: heap_ok_def)

lemma createMissing_defined: "store h (fst k) \<noteq> None \<Longrightarrow> \<exists>h'. createMissing k h = Some h'"
  by (auto simp: createMissing_def)

lemma createMissing_cases:
  assumes "createMissing k h = Some h'"
  obtains (present) m where "lock_lookup h k = Some m" and "h' = h"
  | (absent) "lock_lookup h k = None" and "mutexes h' = mutexes h @ [False]"
      and "\<And>j. lock_lookup h' j = (if j = k then Some (length (mutexes h)) else lock_lookup h j)"
      and "\<And>s. (store h' s = None) = (store h s = None)"
proof (cases "lock_lookup h k")
  case None
  with assms obtain m where m: "store h (fst k) = Some m"
    and h': "h' = h\<lparr>store := (store h)(fst k := Some (m(snd k \<mapsto> length (mutexes h)))), mutexes := mutexes h @ [False]\<rparr>"
    by (auto simp: createMissing_def split: option.splits)
  have "lock_lookup h' j = (if j = k then Some (length (mutexes h)) else lock_lookup h j)" for j
    using m by (cases j, cases k) (auto simp: h' lock_lookup_def)
  then show thesis using None m by (intro absent) (auto simp: h')
next
  case (Some m)
  with assms show thesis by (intro present) (auto simp: createMissing_def)
qed

lemma createMissing_store:
  assumes "createMissing k h = Some h'"
  shows "(store h' s = None) = (store h s = None)"
  using assms by (cases rule: createMissing_cases) auto

lemma createMissing_lookup:
  assumes "createMissing k h = Some h'"
  shows "lock_lookup h' k \<noteq> None"
  using assms by (cases rule: createMissing_cases) auto

lemma createMissing_keeps:
  assumes "createMissing k h = Some h'" and "lock_lookup h j = Some m"
  shows "lock_lookup h' j = Some m"
  using assms(1) by (cases rule: createMissing_cases) (use assms(2) in auto)

lemma createMissing_ok:
  assumes "createMissing k h = Some h'" and "heap_ok h"
  shows "heap_ok h'"
  using assms(1)
proof (cases rule: createMissing_cases)
  case absent
  then show ?thesis using assms(2) unfolding heap_ok_def
    by (auto simp: less_Suc_eq split: if_splits) (metis less_irrefl)+
qed (use assms in simp)

section \<open>The registry interface\<close>

text \<open>A sequence of requests to a registry: the mutexes handed out, in order, and the heap at the end.\<close>

fun gets :: "('k \<Rightarrow> 'h \<Rightarrow> 'm \<times> 'h) \<Rightarrow> 'k list \<Rightarrow> 'h \<Rightarrow> ('k \<times> 'm) list \<times> 'h" where
  "gets get [] h = ([], h)"
| "gets get (k # ks) h =
     ((k, fst (get k h)) # fst (gets get ks (snd (get k h))), snd (gets get ks (snd (get k h))))"

text \<open>
  What Lock and Unlock rely on: a registry that hands out a mutex for a key, keeps every
  binding it has made, and never binds two keys to one mutex.
\<close>

locale mutex_registry =
  fixes get :: "'k \<Rightarrow> 'h \<Rightarrow> 'm \<times> 'h"
    and lookup :: "'h \<Rightarrow> 'k \<Rightarrow> 'm option"
    and invar :: "'h \<Rightarrow> bool"
  assumes get_bound: "invar h \<Longrightarrow> lookup (snd (get k h)) k = Some (fst (get k h))"
    and get_keeps: "invar h \<Longrightarrow> lookup h j = Some n \<Longrightarrow> lookup (snd (get k h)) j = Some n"
    and get_invar: "invar h \<Longrightarrow> invar (snd (get k h))"
    and lookup_inj: "invar h \<Longrightarrow> lookup h k = Some m \<Longrightarrow> lookup h k' = Some m \<Longrightarrow> k = k'"
begin

lemma gets_invar: "invar h \<Longrightarrow> invar (snd (gets get ks h))"
  by (induction ks arbitrary: h) (simp_all add: get_invar)

lemma gets_keeps: "invar h \<Longrightarrow> lookup h j = Some n \<Longrightarrow> lookup (snd (gets get ks h)) j = Some n"
  by (induction ks arbitrary: h) (simp_all add: get_invar get_keeps)

lemma gets_bound: "invar h \<Longrightarrow> (k, m) \<in> set (fst (gets get ks h)) \<Longrightarrow> lookup (snd (gets get ks h)) k = Some m"
  by (induction ks arbitrary: h) (auto simp: get_invar get_bound gets_keeps)

lemma same_key_same_mutex:
  "invar h \<Longrightarrow> (k, m) \<in> set (fst (gets get ks h)) \<Longrightarrow> (k', m') \<in> set (fst (gets get ks h)) \<Longrightarrow> k = k' \<longleftrightarrow> m = m'"
  using gets_bound [of h] gets_invar [of h ks] lookup_inj
  by (metis option.inject)

end

text \<open>
  getLock as an operation of that interface: it never fails, because the map is initialised
  before it is written.
\<close>

lemma getLock_total:
  "\<exists>m h'. getLock k h = Some (Some m, h') \<and> createMissing k (checkAndInitLockStore (fst k) h) = Some h'"
proof -
  obtain h' where h': "createMissing k (checkAndInitLockStore (fst k) h) = Some h'"
    using createMissing_defined [of "checkAndInitLockStore (fst k) h" k] by auto
  with createMissing_lookup [OF h'] show ?thesis by (auto simp: getLock_def)
qed

definition getLock_of :: "lock_key \<Rightarrow> lock_heap \<Rightarrow> mutex_id \<times> lock_heap" where
  "getLock_of k h = (case getLock k h of Some (Some m, h') \<Rightarrow> (m, h') | _ \<Rightarrow> (0, h))"

lemma getLock_of_eq:
  "getLock_of k h = (m, h') \<longleftrightarrow> getLock k h = Some (Some m, h')"
  using getLock_total [of k h] by (auto simp: getLock_of_def)

lemma getLock_SomeD:
  assumes "getLock k h = Some (Some m, h')"
  shows "createMissing k (checkAndInitLockStore (fst k) h) = Some h'" and "lock_lookup h' k = Some m"
  using assms by (auto simp: getLock_def)

interpretation lock_registry: mutex_registry getLock_of lock_lookup heap_ok
proof
  fix h :: lock_heap and k
  assume inv: "heap_ok h"
  obtain m h' where mh: "getLock_of k h = (m, h')" by fastforce
  then have "getLock k h = Some (Some m, h')" by (simp add: getLock_of_eq)
  note g = getLock_SomeD [OF this]
  show "lock_lookup (snd (getLock_of k h)) k = Some (fst (getLock_of k h))"
    using g(2) by (simp add: mh)
  show "heap_ok (snd (getLock_of k h))" using createMissing_ok [OF g(1)] inv by (simp add: mh)
  show "lock_lookup h j = Some n \<Longrightarrow> lock_lookup (snd (getLock_of k h)) j = Some n" for j n
    using createMissing_keeps [OF g(1), of j n] by (simp add: mh)
qed (auto simp: heap_ok_def)

section \<open>Threads\<close>

text \<open>
  A call of Lock or Unlock, one step per access to shared state: the test of the flag
  LockEnabled, the acquisition of lockstoremux, checkAndInitLockStore, the lookup that
  creates a missing mutex, the evaluation of the result, the deferred release of
  lockstoremux, and the operation on the named mutex itself.
\<close>

datatype lock_op = OpLock | OpUnlock

datatype pc =
    Idle
  | TestEnabled lock_op lock_key
  | WaitStoreMux lock_op lock_key
  | InitStore lock_op lock_key
  | LookupLock lock_op lock_key
  | ReturnLock lock_op lock_key
  | DeferUnlock lock_op lock_key mutex_id
  | UseMutex lock_op lock_key mutex_id

text \<open>
  The shared state: the heap, the package mutex, the flag, and per thread its program
  counter. \<open>held\<close> is a ghost: the names whose Lock has returned and whose Unlock has not been
  called by that thread. A sync.Mutex does not record who locked it, so \<open>lockstoremux\<close> keeps
  its holder as a ghost too: the steps only test whether there is one.
\<close>

record lock_state = lock_heap +
  lockstoremux :: "tid option"
  LockEnabled :: bool
  pcs :: "tid \<Rightarrow> pc"
  held :: "tid \<Rightarrow> lock_key set"

datatype thread_result = Blocked | Crashed | Moved lock_state

definition goto :: "tid \<Rightarrow> pc \<Rightarrow> lock_state \<Rightarrow> lock_state" where
  "goto t p st = st\<lparr>pcs := (pcs st)(t := p)\<rparr>"

definition hold :: "tid \<Rightarrow> lock_key \<Rightarrow> lock_state \<Rightarrow> lock_state" where
  "hold t k st = st\<lparr>held := (held st)(t := insert k (held st t))\<rparr>"

text \<open>Return from a call whose locking is switched off.\<close>

definition return_disabled :: "tid \<Rightarrow> lock_op \<Rightarrow> lock_key \<Rightarrow> lock_state \<Rightarrow> lock_state" where
  "return_disabled t op k st =
     goto t Idle (case op of OpLock \<Rightarrow> hold t k st | OpUnlock \<Rightarrow> st)"

text \<open>
  Lock of a locked mutex blocks; Unlock of an unlocked one is a fatal error of the Go runtime
  (\<open>Crashed\<close>), as is the write to a nil map and the use of a nil mutex.
\<close>

definition thread_step :: "tid \<Rightarrow> lock_state \<Rightarrow> thread_result" where
  "thread_step t st =
     (case pcs st t of
        Idle \<Rightarrow> Blocked
      | TestEnabled op k \<Rightarrow>
          if LockEnabled st then Moved (goto t (WaitStoreMux op k) st)
          else Moved (return_disabled t op k st)
      | WaitStoreMux op k \<Rightarrow>
          if lockstoremux st = None then Moved (goto t (InitStore op k) (st\<lparr>lockstoremux := Some t\<rparr>))
          else Blocked
      | InitStore op k \<Rightarrow> Moved (goto t (LookupLock op k) (checkAndInitLockStore (fst k) st))
      | LookupLock op k \<Rightarrow>
          (case createMissing k st of None \<Rightarrow> Crashed
           | Some st' \<Rightarrow> Moved (goto t (ReturnLock op k) st'))
      | ReturnLock op k \<Rightarrow>
          (case lock_lookup st k of None \<Rightarrow> Crashed
           | Some m \<Rightarrow> Moved (goto t (DeferUnlock op k m) st))
      | DeferUnlock op k m \<Rightarrow>
          if lockstoremux st = None then Crashed
          else Moved (goto t (UseMutex op k m) (st\<lparr>lockstoremux := None\<rparr>))
      | UseMutex OpLock k m \<Rightarrow>
          if mutexes st ! m then Blocked
          else Moved (goto t Idle (hold t k (st\<lparr>mutexes := (mutexes st)[m := True]\<rparr>)))
      | UseMutex OpUnlock k m \<Rightarrow>
          if mutexes st ! m then Moved (goto t Idle (st\<lparr>mutexes := (mutexes st)[m := False]\<rparr>))
          else Crashed)"

text \<open>A thread running alone for a number of its own steps.\<close>

fun run_thread :: "nat \<Rightarrow> tid \<Rightarrow> lock_state \<Rightarrow> thread_result" where
  "run_thread 0 t st = Moved st"
| "run_thread (Suc n) t st =
     (case thread_step t st of Moved st' \<Rightarrow> run_thread n t st' | r \<Rightarrow> r)"

text \<open>
  The steps of the whole system: an idle thread calls Lock, an idle thread calls Unlock of a
  name it holds (the use \<open>Lock; ...; defer Unlock\<close> of the store's clients), or some thread
  inside a call takes its next step.
\<close>

inductive lock_step :: "lock_state \<Rightarrow> lock_state \<Rightarrow> bool" where
  call_lock: "pcs st t = Idle \<Longrightarrow> lock_step st (goto t (TestEnabled OpLock k) st)"
| call_unlock: "pcs st t = Idle \<Longrightarrow> k \<in> held st t \<Longrightarrow>
     lock_step st (goto t (TestEnabled OpUnlock k) (st\<lparr>held := (held st)(t := held st t - {k})\<rparr>))"
| run: "thread_step t st = Moved st' \<Longrightarrow> lock_step st st'"

definition init_locks :: "bool \<Rightarrow> lock_state" where
  "init_locks enabled = \<lparr>store = (\<lambda>_. None), mutexes = [], lockstoremux = None,
     LockEnabled = enabled, pcs = (\<lambda>_. Idle), held = (\<lambda>_. {})\<rparr>"

inductive lock_reachable :: "bool \<Rightarrow> lock_state \<Rightarrow> bool" for enabled where
  reach_init: "lock_reachable enabled (init_locks enabled)"
| reach_step: "lock_reachable enabled st \<Longrightarrow> lock_step st st' \<Longrightarrow> lock_reachable enabled st'"

text \<open>What a program counter says: inside the section of lockstoremux, and unlocking which name.\<close>

fun in_section :: "pc \<Rightarrow> bool" where
  "in_section (InitStore op k) = True"
| "in_section (LookupLock op k) = True"
| "in_section (ReturnLock op k) = True"
| "in_section (DeferUnlock op k m) = True"
| "in_section _ = False"

fun unlocking :: "pc \<Rightarrow> lock_key option" where
  "unlocking (TestEnabled OpUnlock k) = Some k"
| "unlocking (WaitStoreMux OpUnlock k) = Some k"
| "unlocking (InitStore OpUnlock k) = Some k"
| "unlocking (LookupLock OpUnlock k) = Some k"
| "unlocking (ReturnLock OpUnlock k) = Some k"
| "unlocking (DeferUnlock OpUnlock k m) = Some k"
| "unlocking (UseMutex OpUnlock k m) = Some k"
| "unlocking _ = None"

text \<open>A thread owns a name from the return of its Lock to the end of its Unlock.\<close>

definition owns :: "lock_state \<Rightarrow> tid \<Rightarrow> lock_key \<Rightarrow> bool" where
  "owns st t k \<longleftrightarrow> k \<in> held st t \<or> unlocking (pcs st t) = Some k"

text \<open>What the local variables of a call know about the heap.\<close>

fun pc_knows :: "lock_state \<Rightarrow> pc \<Rightarrow> bool" where
  "pc_knows st (LookupLock op k) = (store st (fst k) \<noteq> None)"
| "pc_knows st (ReturnLock op k) = (lock_lookup st k \<noteq> None)"
| "pc_knows st (DeferUnlock op k m) = (lock_lookup st k = Some m)"
| "pc_knows st (UseMutex op k m) = (lock_lookup st k = Some m)"
| "pc_knows st _ = True"

definition locked :: "lock_state \<Rightarrow> lock_key \<Rightarrow> bool" where
  "locked st k \<longleftrightarrow> (\<exists>m. lock_lookup st k = Some m \<and> mutexes st ! m)"

section \<open>Invariants\<close>

definition section_inv :: "lock_state \<Rightarrow> bool" where
  "section_inv st \<longleftrightarrow> (\<forall>t. lockstoremux st = Some t \<longleftrightarrow> in_section (pcs st t))"

definition pc_inv :: "lock_state \<Rightarrow> bool" where
  "pc_inv st \<longleftrightarrow> (\<forall>t. pc_knows st (pcs st t))"

definition owner_inv :: "lock_state \<Rightarrow> bool" where
  "owner_inv st \<longleftrightarrow>
     (\<forall>k. locked st k \<longleftrightarrow> (\<exists>t. owns st t k))
     \<and> (\<forall>k t t'. owns st t k \<longrightarrow> owns st t' k \<longrightarrow> t = t')
     \<and> (\<forall>t k. k \<in> held st t \<longrightarrow> unlocking (pcs st t) \<noteq> Some k)"

definition lock_inv :: "lock_state \<Rightarrow> bool" where
  "lock_inv st \<longleftrightarrow> heap_ok st \<and> section_inv st \<and> pc_inv st \<and> (LockEnabled st \<longrightarrow> owner_inv st)"

lemmas lock_inv_defs = lock_inv_def section_inv_def pc_inv_def owner_inv_def

lemma goto_fields [simp]:
  "store (goto t p st) = store st" "mutexes (goto t p st) = mutexes st"
  "lockstoremux (goto t p st) = lockstoremux st" "LockEnabled (goto t p st) = LockEnabled st"
  "held (goto t p st) = held st" "pcs (goto t p st) = (pcs st)(t := p)"
  by (simp_all add: goto_def)

lemma hold_fields [simp]:
  "store (hold t k st) = store st" "mutexes (hold t k st) = mutexes st"
  "lockstoremux (hold t k st) = lockstoremux st" "LockEnabled (hold t k st) = LockEnabled st"
  "held (hold t k st) = (held st)(t := insert k (held st t))" "pcs (hold t k st) = pcs st"
  by (simp_all add: hold_def)

lemma lock_lookup_cong: "store st = store st' \<Longrightarrow> lock_lookup st = lock_lookup st'"
  by (simp add: lock_lookup_def fun_eq_iff)

lemma heap_ok_cong:
  assumes "store st = store st'" and "length (mutexes st) = length (mutexes st')"
  shows "heap_ok st \<longleftrightarrow> heap_ok st'"
  using lock_lookup_cong [OF assms(1)] assms(2) by (simp add: heap_ok_def)

lemma init_state_fields [simp]:
  "lockstoremux (checkAndInitLockStore s st) = lockstoremux st"
  "LockEnabled (checkAndInitLockStore s st) = LockEnabled st"
  "pcs (checkAndInitLockStore s st) = pcs st"
  "held (checkAndInitLockStore s st) = held st"
  by (simp_all add: checkAndInitLockStore_def)

lemma createMissing_state_fields:
  assumes "createMissing k st = Some st'"
  shows "lockstoremux st' = lockstoremux st" "LockEnabled st' = LockEnabled st"
    "pcs st' = pcs st" "held st' = held st"
  using assms by (auto simp: createMissing_def split: option.splits if_splits)

end
