(* ===== verification/LockSafety.thy ===== *)
theory LockSafety
  imports LockStore
begin

text \<open>
  The invariant of the lock store's threads and what follows from it: mutual exclusion per
  name, no crash, the section of lockstoremux, and who can make a call wait.
\<close>

text \<open>Names are pairs; their quantifiers stay whole.\<close>

declare split_paired_All [simp del] split_paired_Ex [simp del]

section \<open>The invariant is kept\<close>

lemma thread_step_Moved_cases:
  assumes "thread_step t st = Moved st'"
  obtains (enabled) op k where "pcs st t = TestEnabled op k" "LockEnabled st"
      "st' = goto t (WaitStoreMux op k) st"
  | (disabled) op k where "pcs st t = TestEnabled op k" "\<not> LockEnabled st"
      "st' = return_disabled t op k st"
  | (enter) op k where "pcs st t = WaitStoreMux op k" "lockstoremux st = None"
      "st' = goto t (InitStore op k) (st\<lparr>lockstoremux := Some t\<rparr>)"
  | (initialise) op k where "pcs st t = InitStore op k"
      "st' = goto t (LookupLock op k) (checkAndInitLockStore (fst k) st)"
  | (create) op k st1 where "pcs st t = LookupLock op k" "createMissing k st = Some st1"
      "st' = goto t (ReturnLock op k) st1"
  | (result) op k m where "pcs st t = ReturnLock op k" "lock_lookup st k = Some m"
      "st' = goto t (DeferUnlock op k m) st"
  | (leave) op k m where "pcs st t = DeferUnlock op k m" "lockstoremux st \<noteq> None"
      "st' = goto t (UseMutex op k m) (st\<lparr>lockstoremux := None\<rparr>)"
  | (lock) k m where "pcs st t = UseMutex OpLock k m" "\<not> mutexes st ! m"
      "st' = goto t Idle (hold t k (st\<lparr>mutexes := (mutexes st)[m := True]\<rparr>))"
  | (unlock) k m where "pcs st t = UseMutex OpUnlock k m" "mutexes st ! m"
      "st' = goto t Idle (st\<lparr>mutexes := (mutexes st)[m := False]\<rparr>)"
  using assms unfolding thread_step_def
  by (auto split: pc.splits lock_op.splits option.splits if_splits)

lemma return_disabled_fields [simp]:
  "store (return_disabled t op k st) = store st" "mutexes (return_disabled t op k st) = mutexes st"
  "lockstoremux (return_disabled t op k st) = lockstoremux st"
  "LockEnabled (return_disabled t op k st) = LockEnabled st"
  "pcs (return_disabled t op k st) = (pcs st)(t := Idle)"
  by (simp_all add: return_disabled_def split: lock_op.splits)

lemma lookup_state_cong [simp]:
  "lock_lookup (goto t p st) = lock_lookup st"
  "lock_lookup (hold t k st) = lock_lookup st"
  "lock_lookup (return_disabled t op k st) = lock_lookup st"
  "lock_lookup (st\<lparr>mutexes := ms\<rparr>) = lock_lookup st"
  "lock_lookup (st\<lparr>lockstoremux := l\<rparr>) = lock_lookup st"
  "lock_lookup (st\<lparr>held := hs\<rparr>) = lock_lookup st"
  by (simp_all add: lock_lookup_def fun_eq_iff)

lemma heap_ok_state_cong [simp]:
  "heap_ok (goto t p st) = heap_ok st"
  "heap_ok (hold t k st) = heap_ok st"
  "heap_ok (return_disabled t op k st) = heap_ok st"
  "length ms = length (mutexes st) \<Longrightarrow> heap_ok (st\<lparr>mutexes := ms\<rparr>) = heap_ok st"
  "heap_ok (st\<lparr>lockstoremux := l\<rparr>) = heap_ok st"
  "heap_ok (st\<lparr>held := hs\<rparr>) = heap_ok st"
  by (simp_all add: heap_ok_def)

lemma step_LockEnabled: "lock_step st st' \<Longrightarrow> LockEnabled st' = LockEnabled st"
  by (induction rule: lock_step.induct)
    (auto elim!: thread_step_Moved_cases simp: createMissing_state_fields)

lemma reachable_LockEnabled: "lock_reachable e st \<Longrightarrow> LockEnabled st = e"
  by (induction rule: lock_reachable.induct) (simp_all add: init_locks_def step_LockEnabled)

lemma step_heap_ok: "lock_step st st' \<Longrightarrow> heap_ok st \<Longrightarrow> heap_ok st'"
  by (induction rule: lock_step.induct)
    (auto elim!: thread_step_Moved_cases intro: createMissing_ok)

lemma step_keeps_lookup:
  "lock_step st st' \<Longrightarrow> lock_lookup st k = Some m \<Longrightarrow> lock_lookup st' k = Some m"
  by (induction rule: lock_step.induct)
    (auto elim!: thread_step_Moved_cases intro: createMissing_keeps)

lemma thread_step_others:
  assumes "thread_step t st = Moved st'" and "u \<noteq> t"
  shows "pcs st' u = pcs st u"
  using assms(1)
  by (cases rule: thread_step_Moved_cases) (simp_all add: assms(2) createMissing_state_fields)

lemma section_holder: "section_inv st \<Longrightarrow> in_section (pcs st t) \<Longrightarrow> lockstoremux st = Some t"
  by (simp add: section_inv_def)

lemma step_section_inv: "lock_step st st' \<Longrightarrow> section_inv st \<Longrightarrow> section_inv st'"
proof (induction rule: lock_step.induct)
  case (run t st st')
  from run(1) show ?case
  proof (cases rule: thread_step_Moved_cases)
    case (leave op k m)
    then have "lockstoremux st = Some t" using run(2) by (simp add: section_holder)
    then show ?thesis using run(2) leave by (auto simp: section_inv_def)
  qed (use run(2) in \<open>auto simp: section_inv_def createMissing_state_fields split: if_splits\<close>)
qed (auto simp: section_inv_def)

text \<open>Knowledge of a program counter survives every growth of the heap.\<close>

lemma pc_knows_mono:
  assumes "pc_knows st p"
    and "\<And>k m. lock_lookup st k = Some m \<Longrightarrow> lock_lookup st' k = Some m"
    and "\<And>s. store st s \<noteq> None \<Longrightarrow> store st' s \<noteq> None"
  shows "pc_knows st' p"
  using assms by (cases p) auto

lemma step_store_grows: "lock_step st st' \<Longrightarrow> store st s \<noteq> None \<Longrightarrow> store st' s \<noteq> None"
proof (induction rule: lock_step.induct)
  case (run t st st')
  from run(1) show ?case
    by (cases rule: thread_step_Moved_cases)
      (use run(2) in \<open>simp_all add: createMissing_store del: not_None_eq\<close>)
qed auto

lemma pc_inv_step:
  assumes inv: "pc_inv st" and step: "lock_step st st'"
    and others: "\<And>u. u \<noteq> t \<Longrightarrow> pcs st' u = pcs st u" and own: "pc_knows st' (pcs st' t)"
  shows "pc_inv st'"
  unfolding pc_inv_def
proof
  fix u
  show "pc_knows st' (pcs st' u)"
  proof (cases "u = t")
    case False
    have "pc_knows st (pcs st u)" using inv by (simp add: pc_inv_def)
    then have "pc_knows st' (pcs st u)"
      by (rule pc_knows_mono) (use step in \<open>auto dest: step_keeps_lookup step_store_grows\<close>)
    then show ?thesis using others [OF False] by simp
  qed (use own in simp)
qed

lemma step_pc_inv: "lock_step st st' \<Longrightarrow> pc_inv st \<Longrightarrow> pc_inv st'"
proof (induction rule: lock_step.induct)
  case (call_lock st t k)
  then show ?case by (auto intro: pc_inv_step [OF _ lock_step.call_lock])
next
  case (call_unlock st t k)
  then show ?case by (auto intro: pc_inv_step [OF _ lock_step.call_unlock])
next
  case (run t st st')
  have know: "pc_knows st (pcs st t)" using run(2) by (simp add: pc_inv_def)
  show ?case
  proof (rule pc_inv_step [OF run(2) lock_step.run [OF run(1)]])
    show "pc_knows st' (pcs st' t)"
      using run(1) know
      by (cases rule: thread_step_Moved_cases)
        (simp_all add: createMissing_state_fields createMissing_lookup del: not_None_eq)
  qed (rule thread_step_others [OF run(1)])
qed

subsection \<open>Owners and locked mutexes\<close>

lemma owner_invI:
  assumes "\<And>k. locked st k \<longleftrightarrow> (\<exists>t. owns st t k)"
    and "\<And>k t t'. owns st t k \<Longrightarrow> owns st t' k \<Longrightarrow> t = t'"
    and "\<And>t k. k \<in> held st t \<Longrightarrow> unlocking (pcs st t) \<noteq> Some k"
  shows "owner_inv st"
  using assms unfolding owner_inv_def by blast

lemma owner_invD:
  assumes "owner_inv st"
  shows "locked st k \<longleftrightarrow> (\<exists>t. owns st t k)"
    and "owns st t k \<Longrightarrow> owns st t' k \<Longrightarrow> t = t'"
    and "k \<in> held st t \<Longrightarrow> unlocking (pcs st t) \<noteq> Some k"
  using assms unfolding owner_inv_def by blast+

text \<open>A step that moves a program counter without ending a call changes no owner.\<close>

lemma owner_inv_same:
  assumes inv: "owner_inv st" and "\<And>k. locked st' k = locked st k" and held: "held st' = held st"
    and pc: "pcs st' = (pcs st)(t := p)" "unlocking p = unlocking (pcs st t)"
  shows "owner_inv st'"
proof -
  have unl: "unlocking (pcs st' u) = unlocking (pcs st u)" for u by (simp add: pc)
  then have "owns st' = owns st" by (simp add: owns_def held fun_eq_iff)
  then show ?thesis using inv assms(2) unl held by (simp add: owner_inv_def)
qed

lemma locked_cong:
  "store st' = store st \<Longrightarrow> mutexes st' = mutexes st \<Longrightarrow> locked st' k = locked st k"
  by (simp add: locked_def lock_lookup_def)

lemma unlocking_next [simp]:
  "unlocking (WaitStoreMux op k) = unlocking (TestEnabled op k)"
  "unlocking (InitStore op k) = unlocking (TestEnabled op k)"
  "unlocking (LookupLock op k) = unlocking (TestEnabled op k)"
  "unlocking (ReturnLock op k) = unlocking (TestEnabled op k)"
  "unlocking (DeferUnlock op k m) = unlocking (TestEnabled op k)"
  "unlocking (UseMutex op k m) = unlocking (TestEnabled op k)"
  by (cases op; simp)+

lemma locked_create:
  assumes "createMissing k st = Some st'" and "heap_ok st"
  shows "locked st' j = locked st j"
  using assms(1)
proof (cases rule: createMissing_cases)
  case absent
  have "m < length (mutexes st)" if "lock_lookup st j = Some m" for m
    using that assms(2) by (cases j) (simp add: heap_ok_def)
  with absent show ?thesis by (auto simp: locked_def nth_append)
qed simp

lemma heap_okD:
  assumes "heap_ok st" and "lock_lookup st k = Some m"
  shows "m < length (mutexes st)" and "lock_lookup st j = Some m \<longleftrightarrow> j = k"
  using assms unfolding heap_ok_def by (cases k, cases j, blast)+

lemma locked_set:
  assumes "heap_ok st" and "lock_lookup st k = Some m"
  shows "locked (st\<lparr>mutexes := (mutexes st)[m := b]\<rparr>) j = (if j = k then b else locked st j)"
proof (cases "j = k")
  case True
  then show ?thesis using heap_okD(1) [OF assms] assms(2) by (simp add: locked_def)
next
  case False
  then have "lock_lookup st j \<noteq> Some m" using heap_okD(2) [OF assms] by simp
  then show ?thesis using False by (auto simp: locked_def)
qed

lemma locked_state_cong [simp]:
  "locked (goto t p st) k = locked st k" "locked (hold t j st) k = locked st k"
  by (simp_all add: locked_def)

lemma owner_inv_lock:
  assumes inv: "owner_inv st" and ok: "heap_ok st" and k: "lock_lookup st k = Some m"
    and pc: "pcs st t = UseMutex OpLock k m" and free: "\<not> mutexes st ! m"
  shows "owner_inv (goto t Idle (hold t k (st\<lparr>mutexes := (mutexes st)[m := True]\<rparr>)))" (is "owner_inv ?st'")
proof -
  have "\<not> locked st k" using k free by (simp add: locked_def)
  then have none: "\<not> owns st u k" for u using owner_invD(1) [OF inv] by blast
  have owns': "owns ?st' u j \<longleftrightarrow> owns st u j \<or> u = t \<and> j = k" for u j
    by (auto simp: owns_def pc)
  have locked': "locked ?st' j \<longleftrightarrow> locked st j \<or> j = k" for j
    using locked_set [OF ok k, of True j] by simp
  show ?thesis
  proof (rule owner_invI)
    show "locked ?st' j \<longleftrightarrow> (\<exists>u. owns ?st' u j)" for j
      using owner_invD(1) [OF inv, of j] unfolding owns' locked' by auto
    show "owns ?st' u j \<Longrightarrow> owns ?st' u' j \<Longrightarrow> u = u'" for u u' j
      using owner_invD(2) [OF inv, of u j u'] none by (auto simp: owns')
    show "j \<in> held ?st' u \<Longrightarrow> unlocking (pcs ?st' u) \<noteq> Some j" for u j
      using owner_invD(3) [OF inv, of j u] by (auto split: if_splits)
  qed
qed

lemma owner_inv_unlock:
  assumes inv: "owner_inv st" and ok: "heap_ok st" and k: "lock_lookup st k = Some m"
    and pc: "pcs st t = UseMutex OpUnlock k m"
  shows "owner_inv (goto t Idle (st\<lparr>mutexes := (mutexes st)[m := False]\<rparr>))" (is "owner_inv ?st'")
proof -
  have own: "owns st t k" by (simp add: owns_def pc)
  have owns': "owns ?st' u j \<longleftrightarrow> owns st u j \<and> j \<noteq> k" for u j
    using owner_invD(2) [OF inv own] owner_invD(3) [OF inv, of k t] pc by (auto simp: owns_def)
  have locked': "locked ?st' j \<longleftrightarrow> locked st j \<and> j \<noteq> k" for j
    using locked_set [OF ok k, of False j] by simp
  show ?thesis
  proof (rule owner_invI)
    show "locked ?st' j \<longleftrightarrow> (\<exists>u. owns ?st' u j)" for j
      using owner_invD(1) [OF inv, of j] unfolding owns' locked' by auto
    show "owns ?st' u j \<Longrightarrow> owns ?st' u' j \<Longrightarrow> u = u'" for u u' j
      using owner_invD(2) [OF inv, of u j u'] by (auto simp: owns')
    show "j \<in> held ?st' u \<Longrightarrow> unlocking (pcs ?st' u) \<noteq> Some j" for u j
      using owner_invD(3) [OF inv, of j u] by (auto split: if_splits)
  qed
qed

lemma owner_inv_call_unlock:
  assumes inv: "owner_inv st" and "pcs st t = Idle" and "k \<in> held st t"
  shows "owner_inv (goto t (TestEnabled OpUnlock k) (st\<lparr>held := (held st)(t := held st t - {k})\<rparr>))"
    (is "owner_inv ?st'")
proof -
  have owns': "owns ?st' u j = owns st u j" for u j using assms(2,3) by (auto simp: owns_def)
  have locked': "locked ?st' j = locked st j" for j by (simp add: locked_def)
  show ?thesis
    using inv assms(2) unfolding owner_inv_def owns' locked' by (auto split: if_splits)
qed

lemma owner_inv_next:
  assumes "owner_inv st" and "pcs st t = q" and "unlocking p = unlocking q"
    and "held st1 = held st" and "pcs st1 = pcs st" and "\<And>k. locked st1 k = locked st k"
  shows "owner_inv (goto t p st1)"
  using assms by (intro owner_inv_same [where t = t and p = p, OF assms(1)]) simp_all

lemma step_owner_inv:
  assumes "lock_step st st'" and "LockEnabled st" and "heap_ok st" and "pc_inv st" and "owner_inv st"
  shows "owner_inv st'"
  using assms
proof (induction rule: lock_step.induct)
  case (call_lock st t k)
  then show ?case by (intro owner_inv_next [OF call_lock(5,1)]) simp_all
next
  case (call_unlock st t k)
  show ?case by (rule owner_inv_call_unlock [OF call_unlock(6,1,2)])
next
  case (run t st st')
  note pass = owner_inv_next [OF run(5)]
  have know: "pc_knows st (pcs st t)" using run(4) by (simp add: pc_inv_def)
  from run(1) show ?case
  proof (cases rule: thread_step_Moved_cases)
    case (create op k st1)
    then show ?thesis
      by (auto intro: pass [OF create(1)] simp: createMissing_state_fields locked_create [OF _ run(3)])
  next
    case (enabled op k)
    then show ?thesis by (auto intro: pass [OF enabled(1)])
  next
    case (enter op k)
    then show ?thesis by (auto intro: pass [OF enter(1)] simp: locked_def)
  next
    case (initialise op k)
    then show ?thesis by (auto intro: pass [OF initialise(1)] simp: locked_def)
  next
    case (result op k m)
    then show ?thesis by (auto intro: pass [OF result(1)])
  next
    case (leave op k m)
    then show ?thesis by (auto intro: pass [OF leave(1)] simp: locked_def)
  qed (use run know in \<open>simp_all add: owner_inv_lock owner_inv_unlock\<close>)
qed

lemma lock_inv_init: "lock_inv (init_locks e)"
  by (auto simp: lock_inv_defs init_locks_def heap_ok_def lock_lookup_def locked_def owns_def)

lemma step_lock_inv: "lock_step st st' \<Longrightarrow> lock_inv st \<Longrightarrow> lock_inv st'"
  using step_owner_inv unfolding lock_inv_def
  by (auto simp: step_heap_ok step_section_inv step_pc_inv step_LockEnabled)

lemma reachable_lock_inv: "lock_reachable e st \<Longrightarrow> lock_inv st"
  by (induction rule: lock_reachable.induct) (simp_all add: lock_inv_init step_lock_inv)

lemma reachableD:
  assumes "lock_reachable e st"
  shows "heap_ok st" and "section_inv st" and "pc_inv st" and "e \<Longrightarrow> owner_inv st"
  using reachable_lock_inv [OF assms] reachable_LockEnabled [OF assms] by (simp_all add: lock_inv_def)

lemma reachable_run_thread:
  "lock_reachable e st \<Longrightarrow> run_thread n t st = Moved st' \<Longrightarrow> lock_reachable e st'"
  by (induction n arbitrary: st)
    (auto split: thread_result.splits dest: lock_reachable.reach_step [OF _ lock_step.run])

text \<open>With locking switched off no call gets past the test of the flag.\<close>

lemma disabled_pc: "lock_reachable False st \<Longrightarrow> pcs st t = Idle \<or> (\<exists>op k. pcs st t = TestEnabled op k)"
proof (induction arbitrary: t rule: lock_reachable.induct)
  case (reach_step st st')
  have off: "\<not> LockEnabled st" using reachable_LockEnabled [OF reach_step(1)] by simp
  from reach_step(2) show ?case
  proof (cases rule: lock_step.cases)
    case (run u)
    have "pcs st u = Idle \<or> (\<exists>op k. pcs st u = TestEnabled op k)" by (rule reach_step(3))
    with run have "pcs st' u = Idle"
      by (elim thread_step_Moved_cases) (use off in auto)
    then show ?thesis
      using reach_step(3) [of t] thread_step_others [OF run, of t] by (cases "t = u") auto
  qed (use reach_step(3) [of t] in auto)
qed (simp add: init_locks_def)

text \<open>A thread inside the section of lockstoremux, or before it, can always go on.\<close>

lemma in_section_moves:
  assumes "lock_inv st" and "in_section (pcs st t)"
  shows "\<exists>st'. thread_step t st = Moved st'"
proof -
  have know: "pc_knows st (pcs st t)" using assms(1) by (simp add: lock_inv_defs)
  have mux: "lockstoremux st = Some t" using assms by (simp add: lock_inv_defs)
  show ?thesis
  proof (cases "pcs st t")
    case (LookupLock op k)
    then show ?thesis using know createMissing_defined [of st k] by (auto simp: thread_step_def)
  qed (use assms(2) know mux in \<open>auto simp: thread_step_def\<close>)
qed

lemma enabled_no_crash:
  assumes "lock_inv st" and "LockEnabled st"
  shows "thread_step t st \<noteq> Crashed"
proof (cases "in_section (pcs st t)")
  case True
  then show ?thesis using in_section_moves [OF assms(1)] by force
next
  case False
  have "mutexes st ! m" if "pcs st t = UseMutex OpUnlock k m" for k m
  proof -
    have "owns st t k" using that by (simp add: owns_def)
    then have "locked st k" using assms owner_invD(1) [of st k] by (auto simp: lock_inv_def)
    moreover have "pc_knows st (pcs st t)" using assms(1) by (simp add: lock_inv_defs)
    ultimately show ?thesis using that by (auto simp: locked_def)
  qed
  with False show ?thesis by (auto simp: thread_step_def split: pc.splits lock_op.splits)
qed

lemma lock_not_crashed:
  assumes "lock_reachable e st"
  shows "thread_step t st \<noteq> Crashed"
proof (cases e)
  case True
  then show ?thesis
    using enabled_no_crash reachable_lock_inv [OF assms] reachable_LockEnabled [OF assms] by simp
next
  case False
  with assms have "lock_reachable False st" by simp
  from disabled_pc [OF this, of t] show ?thesis by (auto simp: thread_step_def split: if_splits)
qed

text \<open>What a blocked thread waits for.\<close>

lemma lock_blocked:
  assumes "lock_reachable True st" and "pcs st t \<noteq> Idle" and "thread_step t st = Blocked"
  shows "(\<exists>u st'. u \<noteq> t \<and> lockstoremux st = Some u \<and> thread_step u st = Moved st')
    \<or> (\<exists>k m u. pcs st t = UseMutex OpLock k m \<and> owns st u k)"
proof -
  note inv = reachable_lock_inv [OF assms(1)] and sec = reachableD(2) [OF assms(1)]
    and pc = reachableD(3) [OF assms(1)]
  show ?thesis
  proof (cases "pcs st t")
    case (WaitStoreMux op k)
    then obtain u where u: "lockstoremux st = Some u"
      using assms(3) by (auto simp: thread_step_def split: if_splits)
    then have "in_section (pcs st u)" using sec by (auto simp: section_inv_def)
    moreover from this have "u \<noteq> t" using WaitStoreMux by auto
    ultimately show ?thesis using u in_section_moves [OF inv, of u] by blast
  next
    case (UseMutex op k m)
    then have "op = OpLock" "mutexes st ! m"
      using assms(3) by (auto simp: thread_step_def split: lock_op.splits if_splits)
    moreover have "pc_knows st (pcs st t)" using pc by (simp add: pc_inv_def)
    ultimately have "locked st k" using UseMutex by (auto simp: locked_def)
    then have "\<exists>u. owns st u k" using owner_invD(1) reachableD(4) [OF assms(1)] by blast
    then show ?thesis using UseMutex \<open>op = OpLock\<close> by blast
  qed (use assms(2,3) in \<open>auto simp: thread_step_def split: option.splits if_splits\<close>)
qed

section \<open>Properties\<close>

text \<open>C1: mutual exclusion: in every reachable state of any number of threads, with locking
  enabled, a name whose Lock has returned to one thread is held by no other thread.\<close>

theorem lock_mutual_exclusion:
  assumes "lock_reachable True st" and "k \<in> held st t" and "k \<in> held st t'"
  shows "t = t'"
proof -
  have "owner_inv st" using reachableD(4) [OF assms(1)] by simp
  then show ?thesis by (rule owner_invD(2)) (use assms(2,3) in \<open>auto simp: owns_def\<close>)
qed

text \<open>The run of one thread that locks a name, used as a concrete reachable state below.\<close>

definition one_locked :: lock_state where
  "one_locked = (case run_thread 7 0 (goto 0 (TestEnabled OpLock (0, ''vol'')) (init_locks True)) of
     Moved st \<Rightarrow> st | _ \<Rightarrow> init_locks True)"

lemma one_locked_run:
  "run_thread 7 0 (goto 0 (TestEnabled OpLock (0, ''vol'')) (init_locks True)) = Moved one_locked"
  and one_locked_held: "held one_locked = (\<lambda>t. if t = 0 then {(0, ''vol'')} else {})"
  and one_locked_pcs: "pcs one_locked = (\<lambda>t. Idle)"
  by (simp_all add: one_locked_def numeral_eq_Suc thread_step_def init_locks_def goto_def hold_def
      checkAndInitLockStore_def createMissing_def lock_lookup_def fun_eq_iff)

lemma one_locked_reachable: "lock_reachable True one_locked"
proof (rule reachable_run_thread [OF _ one_locked_run])
  have "lock_step (init_locks True) (goto 0 (TestEnabled OpLock (0, ''vol'')) (init_locks True))"
    by (rule lock_step.call_lock) (simp add: init_locks_def)
  then show "lock_reachable True (goto 0 (TestEnabled OpLock (0, ''vol'')) (init_locks True))"
    by (rule lock_reachable.reach_step [OF lock_reachable.reach_init])
qed

theorem lock_mutual_exclusion_witness:
  "(0, ''vol'') \<in> held one_locked 0 \<and> (\<forall>t. (0, ''vol'') \<in> held one_locked t \<longleftrightarrow> 0 = t)"
proof -
  have "(0, ''vol'') \<in> held one_locked 0" by (simp add: one_locked_held)
  then show ?thesis using lock_mutual_exclusion [OF one_locked_reachable] by blast
qed



text \<open>What makes a call wait: a thread inside a call is blocked only while another thread is
  in the short section of lockstoremux, and that thread can move, or while the very name it
  wants to lock is owned by a thread; no lock of another name delays it.\<close>

lemma lock_waits_only_for_owner:
  assumes "lock_reachable True st" and "pcs st t \<noteq> Idle" and "thread_step t st = Blocked"
  shows "(\<exists>u st'. u \<noteq> t \<and> lockstoremux st = Some u \<and> thread_step u st = Moved st')
    \<or> (\<exists>k m u. pcs st t = UseMutex OpLock k m \<and> owns st u k)"
  by (rule lock_blocked [OF assms])

text \<open>A second thread asks for the name held by thread 0 and reaches the named mutex.\<close>

definition one_waiting :: lock_state where
  "one_waiting = (case run_thread 6 2 (goto 2 (TestEnabled OpLock (0, ''vol'')) one_locked) of
     Moved st \<Rightarrow> st | _ \<Rightarrow> one_locked)"

lemma one_locked_eq:
  "one_locked = \<lparr>store = (\<lambda>_. None)(0 := Some [''vol'' \<mapsto> 0]), mutexes = [True], lockstoremux = None,
     LockEnabled = True, pcs = (\<lambda>_. Idle), held = (\<lambda>_. {})(0 := {(0, ''vol'')})\<rparr>"
  by (simp add: one_locked_def numeral_eq_Suc thread_step_def init_locks_def goto_def hold_def
      checkAndInitLockStore_def createMissing_def lock_lookup_def fun_eq_iff)

lemma one_waiting_run:
  "run_thread 6 2 (goto 2 (TestEnabled OpLock (0, ''vol'')) one_locked) = Moved one_waiting"
  and one_waiting_pcs: "pcs one_waiting 2 = UseMutex OpLock (0, ''vol'') 0"
  and one_waiting_blocked: "thread_step 2 one_waiting = Blocked"
  and one_waiting_mux: "lockstoremux one_waiting = None"
  by (simp_all add: one_waiting_def one_locked_eq numeral_eq_Suc thread_step_def goto_def
      checkAndInitLockStore_def createMissing_def lock_lookup_def)

lemma one_waiting_reachable: "lock_reachable True one_waiting"
proof (rule reachable_run_thread [OF _ one_waiting_run])
  have "lock_step one_locked (goto 2 (TestEnabled OpLock (0, ''vol'')) one_locked)"
    by (rule lock_step.call_lock) (simp add: one_locked_pcs)
  then show "lock_reachable True (goto 2 (TestEnabled OpLock (0, ''vol'')) one_locked)"
    by (rule lock_reachable.reach_step [OF one_locked_reachable])
qed

lemma lock_waits_only_for_owner_witness:
  "\<exists>u. owns one_waiting u (0, ''vol'')"
  using lock_waits_only_for_owner [OF one_waiting_reachable, of 2]
  by (auto simp: one_waiting_pcs one_waiting_blocked one_waiting_mux)

text \<open>C3: a name is a mutex for good: in every reachable state two threads about to use named
  mutexes use the same one exactly when they were called with the same store and name, and
  once a name is bound no later step of any thread rebinds or removes it.\<close>

theorem lock_names_are_mutexes:
  assumes "lock_reachable e st" and "pcs st t = UseMutex op k m" and "pcs st t' = UseMutex op' k' m'"
    and "lock_step\<^sup>*\<^sup>* st st'"
  shows "(m = m' \<longleftrightarrow> k = k') \<and> lock_lookup st' k = Some m"
proof -
  have know: "pc_knows st (pcs st u)" for u
    using reachableD(3) [OF assms(1)] by (simp add: pc_inv_def)
  have m: "lock_lookup st k = Some m" "lock_lookup st k' = Some m'"
    using know [of t] know [of t'] assms(2,3) by simp_all
  have "m = m' \<longleftrightarrow> k = k'"
    using m heap_okD(2) [OF reachableD(1) [OF assms(1)] m(1), of k'] by auto
  moreover have "lock_lookup st' k = Some m"
    using assms(4) m(1) by (induction rule: rtranclp_induct) (auto intro: step_keeps_lookup)
  ultimately show ?thesis by blast
qed

theorem lock_names_are_mutexes_witness: "lock_lookup one_waiting (0, ''vol'') = Some 0"
  using lock_names_are_mutexes [OF one_waiting_reachable one_waiting_pcs one_waiting_pcs] by blast


definition one_inside :: lock_state where
  "one_inside = (case run_thread 2 2 (goto 2 (TestEnabled OpLock (0, ''new'')) one_locked) of
     Moved st \<Rightarrow> st | _ \<Rightarrow> one_locked)"

lemma one_inside_run:
  "run_thread 2 2 (goto 2 (TestEnabled OpLock (0, ''new'')) one_locked) = Moved one_inside"
  and one_inside_pcs: "pcs one_inside 2 = InitStore OpLock (0, ''new'')"
  by (simp_all add: one_inside_def one_locked_eq numeral_eq_Suc thread_step_def goto_def)

lemma one_inside_reachable: "lock_reachable True one_inside"
proof (rule reachable_run_thread [OF _ one_inside_run])
  have "lock_step one_locked (goto 2 (TestEnabled OpLock (0, ''new'')) one_locked)"
    by (rule lock_step.call_lock) (simp add: one_locked_pcs)
  then show "lock_reachable True (goto 2 (TestEnabled OpLock (0, ''new'')) one_locked)"
    by (rule lock_reachable.reach_step [OF one_locked_reachable])
qed


text \<open>Over any sequence of getLock requests, on any stores and names, two requests are handed
  the same mutex exactly when they ask for the same store and name.\<close>

lemma getLock_requests:
  assumes "heap_ok h" and "(k, m) \<in> set (fst (gets getLock_of ks h))"
    and "(k', m') \<in> set (fst (gets getLock_of ks h))"
  shows "k = k' \<longleftrightarrow> m = m'"
  using assms by (rule lock_registry.same_key_same_mutex)

lemma getLock_requests_witness:
  "fst (gets getLock_of [(0, ''TestLock1''), (0, ''TestLock2''), (0, ''TestLock1'')]
     \<lparr>store = (\<lambda>_. None), mutexes = []\<rparr>) =
     [((0, ''TestLock1''), 0), ((0, ''TestLock2''), 1), ((0, ''TestLock1''), 0)]
   \<and> (0::nat, ''TestLock1'') \<noteq> (0, ''TestLock2'')"
proof -
  let ?h = "\<lparr>store = (\<lambda>_. None), mutexes = []\<rparr> :: lock_heap"
  let ?ks = "[(0, ''TestLock1''), (0, ''TestLock2''), (0, ''TestLock1'')]"
  have ok: "heap_ok ?h" by (simp add: heap_ok_def lock_lookup_def)
  have run: "fst (gets getLock_of ?ks ?h) =
     [((0, ''TestLock1''), 0), ((0, ''TestLock2''), 1), ((0, ''TestLock1''), 0)]"
    by (simp add: getLock_of_def getLock_def createMissing_def checkAndInitLockStore_def lock_lookup_def)
  have "((0::nat, ''TestLock1'') = (0, ''TestLock2'')) = ((0::nat) = 1)"
  proof (rule getLock_requests [OF ok])
    show "((0, ''TestLock1''), 0) \<in> set (fst (gets getLock_of ?ks ?h))" unfolding run by simp
    show "((0, ''TestLock2''), 1) \<in> set (fst (gets getLock_of ?ks ?h))" unfolding run by simp
  qed
  then show ?thesis using run by simp
qed

end
