(* ===== verification/GrpcClient.thy ===== *)
theory GrpcClient
  imports Prelude
begin

text \<open>
  Package grpcclient (grpc\_client.go) and its fake (fake\_grpc\_client.go). The interfaces are
  records of methods, with the contracts of a session as locales. grpc.Dial and the Close of a connection are parameters that act on the world \<open>'w\<close>; \<open>grpc_contract\<close> is their
  documented behaviour, with the connections that are open in a world.
\<close>

section \<open>grpc\_client.go: the interfaces\<close>

text \<open>
  The methods of a ClientConn over a state \<open>'s\<close> that holds the receiver and the world, of a
  GrpcSession over its receiver \<open>'ses\<close>, and of a factory of sessions over its receiver \<open>'f\<close>.
\<close>

record ('s, 'conn, 'opt) ClientConn =
  method_Connect :: "string \<Rightarrow> 'opt list \<Rightarrow> 's \<Rightarrow> 'conn option go_result \<times> 's"
  method_Close :: "'s \<Rightarrow> go_error option \<times> 's"

record ('ses, 's, 'conn, 'opt) GrpcSession =
  method_GrpcDial :: "'ses \<Rightarrow> ('s, 'conn, 'opt) ClientConn \<Rightarrow> string \<Rightarrow> 'opt list \<Rightarrow> 's \<Rightarrow> 'conn option go_result \<times> 's"

record ('f, 'ses) GrpcSessionFactory =
  method_NewGrpcSession :: "'f \<Rightarrow> 'ses"

section \<open>grpc\_client.go: the session\<close>

datatype ConnObjFactory = ConnObjFactory

record ('conn, 'cc) GrpcSes =
  conn :: "'conn option"
  cc :: "'cc option"

text \<open>Connect stores what Dial returned, also when it failed.\<close>

definition Connect ::
  "(string \<Rightarrow> 'opt list \<Rightarrow> 'w \<Rightarrow> 'conn option go_result \<times> 'w) \<Rightarrow> string \<Rightarrow> 'opt list
   \<Rightarrow> ('conn, 'cc) GrpcSes \<times> 'w \<Rightarrow> 'conn option go_result \<times> ('conn, 'cc) GrpcSes \<times> 'w" where
  "Connect Dial target opts s =
     (case s of (c, w) \<Rightarrow>
        (case Dial target opts w of ((k, err), w') \<Rightarrow> ((k, err), c\<lparr>conn := k\<rparr>, w')))"

definition Close ::
  "('conn \<Rightarrow> 'w \<Rightarrow> go_error option \<times> 'w) \<Rightarrow> ('conn, 'cc) GrpcSes \<times> 'w
   \<Rightarrow> go_error option \<times> ('conn, 'cc) GrpcSes \<times> 'w" where
  "Close conn_Close s =
     (case s of (c, w) \<Rightarrow>
        (case conn c of Some k \<Rightarrow> (case conn_Close k w of (err, w') \<Rightarrow> (err, c, w'))
         | None \<Rightarrow> (None, c, w)))"

definition NewGrpcSession :: "('conn, 'cc) GrpcSes" where
  "NewGrpcSession = \<lparr>conn = None, cc = None\<rparr>"

text \<open>
  GrpcDial on a session calls Connect of the ClientConn it is given, and leaves the session it
  is called on alone (unless that is the ClientConn).
\<close>

definition GrpcDial ::
  "('s, 'conn, 'opt) ClientConn \<Rightarrow> string \<Rightarrow> 'opt list \<Rightarrow> 's \<Rightarrow> 'conn option go_result \<times> 's" where
  "GrpcDial clientConn target opts s =
     (case method_Connect clientConn target opts s of
        ((k, Some err), s') \<Rightarrow> ((None, Some err), s')
      | ((k, None), s') \<Rightarrow> ((k, None), s'))"

text \<open>GrpcSes as a ClientConn and as a GrpcSession, and its factory.\<close>

definition GrpcSes_conn ::
  "(string \<Rightarrow> 'opt list \<Rightarrow> 'w \<Rightarrow> 'conn option go_result \<times> 'w) \<Rightarrow> ('conn \<Rightarrow> 'w \<Rightarrow> go_error option \<times> 'w)
   \<Rightarrow> (('conn, 'cc) GrpcSes \<times> 'w, 'conn, 'opt) ClientConn" where
  "GrpcSes_conn Dial conn_Close = \<lparr>method_Connect = Connect Dial, method_Close = Close conn_Close\<rparr>"

definition GrpcSes_session :: "(('conn, 'cc) GrpcSes, 's, 'conn, 'opt) GrpcSession" where
  "GrpcSes_session = \<lparr>method_GrpcDial = (\<lambda>c. GrpcDial)\<rparr>"

definition ConnObjFactory_impl :: "(ConnObjFactory, ('conn, 'cc) GrpcSes) GrpcSessionFactory" where
  "ConnObjFactory_impl = \<lparr>method_NewGrpcSession = (\<lambda>c. NewGrpcSession)\<rparr>"

lemma GrpcSes_methods [simp]:
  "method_Connect (GrpcSes_conn Dial conn_Close) = Connect Dial"
  "method_Close (GrpcSes_conn Dial conn_Close) = Close conn_Close"
  by (simp_all add: GrpcSes_conn_def)

section \<open>fake\_grpc\_client.go\<close>

record FakeGrpcSessionFactory =
  FailGrpcConnection :: bool
  FailGrpcConnectionErr :: string
  PassGrpcConnection :: bool

record fakeGrpcSession =
  factory :: FakeGrpcSessionFactory

definition fake_NewGrpcSession :: "FakeGrpcSessionFactory \<Rightarrow> fakeGrpcSession" where
  "fake_NewGrpcSession f = \<lparr>factory = f\<rparr>"

definition fake_GrpcDial :: "fakeGrpcSession \<Rightarrow> string \<Rightarrow> 'opt list \<Rightarrow> 'conn option go_result" where
  "fake_GrpcDial c target opts =
     (if FailGrpcConnection (factory c) then (None, Some (GoError (FailGrpcConnectionErr (factory c))))
      else (None, None))"

definition fakeGrpcSession_impl :: "(fakeGrpcSession, 's, 'conn, 'opt) GrpcSession" where
  "fakeGrpcSession_impl = \<lparr>method_GrpcDial = (\<lambda>c clientConn target opts s. (fake_GrpcDial c target opts, s))\<rparr>"

definition FakeGrpcSessionFactory_impl :: "(FakeGrpcSessionFactory, fakeGrpcSession) GrpcSessionFactory" where
  "FakeGrpcSessionFactory_impl = \<lparr>method_NewGrpcSession = fake_NewGrpcSession\<rparr>"

section \<open>The contracts of a session\<close>

text \<open>
  Every session: an error comes without a connection. A session that connects: over a ClientConn
  that has a connection whenever it has no error, so has the session.
\<close>

definition connects :: "('s, 'conn, 'opt) ClientConn \<Rightarrow> bool" where
  "connects clientConn \<longleftrightarrow> (\<forall>target opts s. snd (fst (method_Connect clientConn target opts s)) = None \<longrightarrow>
     fst (fst (method_Connect clientConn target opts s)) \<noteq> None)"

locale grpc_session =
  fixes methods :: "('ses, 's, 'conn, 'opt) GrpcSession"
  assumes error_without_conn: "method_GrpcDial methods ses clientConn target opts s = ((k, Some e), s') \<Longrightarrow> k = None"

locale connecting_session = grpc_session methods
  for methods :: "('ses, 's, 'conn, 'opt) GrpcSession" +
  assumes conn_without_error: "connects clientConn \<Longrightarrow>
    method_GrpcDial methods ses clientConn target opts s = ((k, None), s') \<Longrightarrow> k \<noteq> None"
begin

lemma dial_cases:
  assumes "connects clientConn"
  obtains (connected) x s' where "method_GrpcDial methods ses clientConn target opts s = ((Some x, None), s')"
  | (failed) e s' where "method_GrpcDial methods ses clientConn target opts s = ((None, Some e), s')"
proof -
  obtain k err s' where r: "method_GrpcDial methods ses clientConn target opts s = ((k, err), s')"
    by (metis prod.collapse)
  show thesis
  proof (cases err)
    case None
    then obtain x where "k = Some x" using conn_without_error [OF assms] r by blast
    then show ?thesis using connected r None by simp
  next
    case (Some e)
    then show ?thesis using failed error_without_conn r by blast
  qed
qed

end

interpretation real_session: connecting_session GrpcSes_session
proof
  fix ses :: "('a, 'b) GrpcSes" and clientConn :: "('c, 'a, 'd) ClientConn" and target opts s k e s'
  show "k = None" if "method_GrpcDial GrpcSes_session ses clientConn target opts s = ((k, Some e), s')"
    using that by (auto simp: GrpcSes_session_def GrpcDial_def split: prod.splits option.splits)
  show "k \<noteq> None" if "connects clientConn" "method_GrpcDial GrpcSes_session ses clientConn target opts s = ((k, None), s')"
    using that(2) that(1) [unfolded connects_def, rule_format, of target opts s]
    by (auto simp: GrpcSes_session_def GrpcDial_def split: prod.splits option.splits)
qed

interpretation fake_session: grpc_session fakeGrpcSession_impl
  by unfold_locales (auto simp: fakeGrpcSession_impl_def fake_GrpcDial_def split: if_splits)

section \<open>The contract of the gRPC library\<close>

definition grpc_contract ::
  "(string \<Rightarrow> 'opt list \<Rightarrow> 'w \<Rightarrow> 'conn option go_result \<times> 'w) \<Rightarrow> ('conn \<Rightarrow> 'w \<Rightarrow> go_error option \<times> 'w)
   \<Rightarrow> ('w \<Rightarrow> 'conn set) \<Rightarrow> bool" where
  "grpc_contract Dial conn_Close opened \<longleftrightarrow>
     (\<forall>target opts w k err w'. Dial target opts w = ((k, err), w') \<longrightarrow>
        (case (k, err) of
           (Some k, None) \<Rightarrow> k \<notin> opened w \<and> opened w' = insert k (opened w)
         | (None, Some e) \<Rightarrow> opened w' = opened w
         | _ \<Rightarrow> False))
     \<and> (\<forall>k w err w'. conn_Close k w = (err, w') \<longrightarrow>
          opened w' = opened w - {k} \<and> (err = None \<longleftrightarrow> k \<in> opened w))"

lemma contract_Dial:
  assumes "grpc_contract Dial conn_Close opened" and "Dial target opts w = ((k, err), w')"
  obtains (ok) x where "k = Some x" and "err = None" and "x \<notin> opened w" and "opened w' = insert x (opened w)"
  | (failed) e where "k = None" and "err = Some e" and "opened w' = opened w"
proof -
  have "case (k, err) of (Some k, None) \<Rightarrow> k \<notin> opened w \<and> opened w' = insert k (opened w)
         | (None, Some e) \<Rightarrow> opened w' = opened w | _ \<Rightarrow> False"
    using assms unfolding grpc_contract_def by blast
  then show thesis by (cases k; cases err) (auto intro: ok failed)
qed

lemma contract_Close:
  assumes "grpc_contract Dial conn_Close opened" and "conn_Close k w = (err, w')"
  shows "opened w' = opened w - {k}" and "err = None \<longleftrightarrow> k \<in> opened w"
  using assms unfolding grpc_contract_def by blast+

lemma Connect_cases:
  assumes "grpc_contract Dial conn_Close opened" and "Connect Dial target opts (c, w) = ((k, err), c', w')"
  obtains (ok) x where "k = Some x" and "err = None" and "c' = c\<lparr>conn := Some x\<rparr>" and "x \<notin> opened w"
      and "opened w' = insert x (opened w)"
  | (failed) e where "k = None" and "err = Some e" and "c' = c\<lparr>conn := None\<rparr>" and "opened w' = opened w"
proof -
  obtain r where "Dial target opts w = ((k, err), w')" and c': "c' = c\<lparr>conn := k\<rparr>"
    using assms(2) by (auto simp: Connect_def split: prod.splits)
  then show thesis using contract_Dial [OF assms(1)] ok failed by metis
qed

lemma Close_open:
  assumes "grpc_contract Dial conn_Close opened" and "conn c = Some x"
  shows "opened (snd (snd (Close conn_Close (c, w)))) = opened w - {x}"
    and "fst (Close conn_Close (c, w)) = None \<longleftrightarrow> x \<in> opened w"
  using assms(2) contract_Close [OF assms(1), of x w] by (auto simp: Close_def split: prod.split)

section \<open>Sequences of calls\<close>

text \<open>
  What a client does with one session and what it sees: a connection, a failure to dial, or
  the result of Close.
\<close>

datatype 'opt session_op = ConnectOp string "'opt list" | CloseOp

datatype 'conn session_result = Connected 'conn | DialFailed | CloseReturned "go_error option"

fun session_run ::
  "('s, 'conn, 'opt) ClientConn \<Rightarrow> 'opt session_op list \<Rightarrow> 's \<Rightarrow> 'conn session_result list \<times> 's" where
  "session_run clientConn [] s = ([], s)"
| "session_run clientConn (ConnectOp target opts # ops) s =
     (case GrpcDial clientConn target opts s of
        ((k, err), s') \<Rightarrow>
          (case session_run clientConn ops s' of
             (rs, s'') \<Rightarrow> ((case k of Some x \<Rightarrow> Connected x | None \<Rightarrow> DialFailed) # rs, s'')))"
| "session_run clientConn (CloseOp # ops) s =
     (case method_Close clientConn s of
        (err, s') \<Rightarrow> (case session_run clientConn ops s' of (rs, s'') \<Rightarrow> (CloseReturned err # rs, s'')))"

text \<open>
  The connections a client can account for from what it has seen: the one the session can still
  close, and those lost because the session was connected again before they were closed.
\<close>

fun account :: "'conn option \<times> 'conn list \<Rightarrow> 'conn session_result list \<Rightarrow> 'conn option \<times> 'conn list" where
  "account (cur, lost) [] = (cur, lost)"
| "account (cur, lost) (Connected x # rs) = account (Some x, lost @ (case cur of None \<Rightarrow> [] | Some y \<Rightarrow> [y])) rs"
| "account (cur, lost) (DialFailed # rs) = account (None, lost @ (case cur of None \<Rightarrow> [] | Some y \<Rightarrow> [y])) rs"
| "account (cur, lost) (CloseReturned err # rs) = account (None, lost) rs"

definition accounted ::
  "('w \<Rightarrow> 'conn set) \<Rightarrow> 'conn set \<Rightarrow> 'conn option \<times> 'conn list \<Rightarrow> ('conn, 'cc) GrpcSes \<Rightarrow> 'w \<Rightarrow> bool" where
  "accounted opened before acc c w \<longleftrightarrow>
     opened w = before \<union> set (snd acc) \<union> set_option (fst acc)
     \<and> (set (snd acc) \<union> set_option (fst acc)) \<inter> before = {}
     \<and> distinct (snd acc) \<and> (\<forall>x. fst acc = Some x \<longrightarrow> x \<notin> set (snd acc) \<and> conn c = Some x)
     \<and> (fst acc = None \<longrightarrow> (\<forall>y. conn c = Some y \<longrightarrow> y \<notin> opened w))"

lemma GrpcDial_cases:
  assumes "grpc_contract Dial conn_Close opened" and "GrpcDial (GrpcSes_conn Dial conn_Close) target opts (c, w) = ((k, err), c', w')"
  obtains (ok) x where "k = Some x" and "err = None" and "c' = c\<lparr>conn := Some x\<rparr>" and "x \<notin> opened w"
      and "opened w' = insert x (opened w)"
  | (failed) e where "k = None" and "err = Some e" and "c' = c\<lparr>conn := None\<rparr>" and "opened w' = opened w"
proof -
  obtain k0 err0 where C: "Connect Dial target opts (c, w) = ((k0, err0), c', w')"
    and r: "err = err0" "k = (if err0 = None then k0 else None)"
    using assms(2) by (auto simp: GrpcDial_def split: prod.splits option.splits)
  from assms(1) C show thesis
  proof (cases rule: Connect_cases)
    case (ok x)
    then show thesis using that(1) [of x] r by simp
  next
    case (failed e)
    then show thesis using that(2) [of e] r by simp
  qed
qed

lemma connect_accounted:
  assumes "grpc_contract Dial conn_Close opened" and "accounted opened before (cur, lost) c w"
    and "GrpcDial (GrpcSes_conn Dial conn_Close) target opts (c, w) = ((k, err), c1, w1)"
  shows "accounted opened before (k, lost @ (case cur of None \<Rightarrow> [] | Some y \<Rightarrow> [y])) c1 w1"
  using assms(1,3)
proof (cases rule: GrpcDial_cases)
  case (ok x)
  then show ?thesis using assms(2) by (cases cur) (auto simp: accounted_def)
next
  case (failed e)
  then show ?thesis using assms(2) by (cases cur) (auto simp: accounted_def)
qed

lemma close_accounted:
  assumes "grpc_contract Dial conn_Close opened" and "accounted opened before (cur, lost) c w"
    and C: "Close conn_Close (c, w) = (err, c1, w1)"
  shows "accounted opened before (None, lost) c1 w1"
proof (cases "conn c")
  case None
  then show ?thesis using assms(2) C by (cases cur) (auto simp: accounted_def Close_def)
next
  case (Some x)
  then have "opened w1 = opened w - {x}" "c1 = c"
    using Close_open(1) [OF assms(1) Some, of w] C by (auto simp: Close_def split: prod.splits)
  then show ?thesis using assms(2) Some by (cases cur) (auto simp: accounted_def)
qed

lemma session_accounted:
  assumes "grpc_contract Dial conn_Close opened"
  shows "accounted opened before acc c w \<Longrightarrow> session_run (GrpcSes_conn Dial conn_Close) ops (c, w) = (rs, c', w') \<Longrightarrow>
    accounted opened before (account acc rs) c' w'"
proof (induction ops arbitrary: acc c w rs)
  case (Cons oper ops)
  obtain cur lost where acc: "acc = (cur, lost)" by fastforce
  show ?case
  proof (cases oper)
    case (ConnectOp target opts)
    obtain k err c1 w1 where D: "GrpcDial (GrpcSes_conn Dial conn_Close) target opts (c, w) = ((k, err), c1, w1)"
      by (metis prod.collapse)
    obtain rs1 where R: "session_run (GrpcSes_conn Dial conn_Close) ops (c1, w1) = (rs1, c', w')"
      and rs: "rs = (case k of Some x \<Rightarrow> Connected x | None \<Rightarrow> DialFailed) # rs1"
      using Cons.prems(2) D ConnectOp by (auto split: prod.splits)
    have "accounted opened before (k, lost @ (case cur of None \<Rightarrow> [] | Some y \<Rightarrow> [y])) c1 w1"
      using connect_accounted [OF assms _ D] Cons.prems(1) acc by simp
    from Cons.IH [OF this R] show ?thesis by (cases k) (simp_all add: rs acc)
  next
    case CloseOp
    obtain err c1 w1 where C: "Close conn_Close (c, w) = (err, c1, w1)" by (metis prod.collapse)
    obtain rs1 where R: "session_run (GrpcSes_conn Dial conn_Close) ops (c1, w1) = (rs1, c', w')" and rs: "rs = CloseReturned err # rs1"
      using Cons.prems(2) C CloseOp by (auto split: prod.splits)
    have "accounted opened before (None, lost) c1 w1"
      using close_accounted [OF assms _ C] Cons.prems(1) acc by simp
    from Cons.IH [OF this R] show ?thesis by (simp add: rs acc)
  qed
next
  case (Nil acc c w rs)
  then show ?case by (cases acc) simp
qed

text \<open>A gRPC library for the witnesses: connections are numbered, the world is the next number and the open ones.\<close>

definition counting_Dial :: "string \<Rightarrow> unit list \<Rightarrow> nat \<times> nat set \<Rightarrow> nat option go_result \<times> nat \<times> nat set" where
  "counting_Dial target opts w =
     (if target = [] \<or> fst w \<in> snd w then ((None, Some (GoError ''no target'')), w)
      else ((Some (fst w), None), (Suc (fst w), insert (fst w) (snd w))))"

definition counting_Close :: "nat \<Rightarrow> nat \<times> nat set \<Rightarrow> go_error option \<times> nat \<times> nat set" where
  "counting_Close k w =
     (if k \<in> snd w then None else Some (GoError ''closing''), (fst w, snd w - {k}))"

lemma counting_contract: "grpc_contract counting_Dial counting_Close snd"
  by (auto simp: grpc_contract_def counting_Dial_def counting_Close_def)

section \<open>Properties\<close>

text \<open>A session that connects and closes opens nothing for good: if Connect succeeded the
  connection is open until Close, which succeeds and closes exactly it; if Connect failed,
  Close does nothing and reports no error; a session that never connected closes likewise.\<close>

lemma connect_then_close:
  assumes "grpc_contract Dial conn_Close opened"
    and "GrpcDial (GrpcSes_conn Dial conn_Close) target opts (c, w) = ((k, err), c1, w1)"
    and "Close conn_Close (c1, w1) = (err', c2, w2)"
  shows "opened w2 = opened w \<and> err' = None \<and> (k = None \<longleftrightarrow> err \<noteq> None)
    \<and> (case k of Some x \<Rightarrow> opened w1 = insert x (opened w) \<and> conn c1 = Some x | None \<Rightarrow> opened w1 = opened w)
    \<and> Close conn_Close (NewGrpcSession, w) = (None, NewGrpcSession, w)"
proof -
  obtain k0 err0 where C: "Connect Dial target opts (c, w) = ((k0, err0), c1, w1)"
    and r: "err = err0" "k = (if err0 = None then k0 else None)"
    using assms(2) by (auto simp: GrpcDial_def split: prod.splits option.splits)
  have none: "Close conn_Close (NewGrpcSession, w) = (None, NewGrpcSession, w)"
    by (simp add: Close_def NewGrpcSession_def)
  show ?thesis using assms(1) C
  proof (cases rule: Connect_cases)
    case (ok x)
    then show ?thesis using Close_open [OF assms(1), of c1 x w1] assms(3) r none by auto
  next
    case (failed e)
    then show ?thesis using assms(3) r none by (simp add: Close_def)
  qed
qed

lemma connect_then_close_witness:
  "Close counting_Close (NewGrpcSession, (0, {})) = (None, NewGrpcSession :: (nat, unit) GrpcSes, (0, {}))"
proof -
  have "GrpcDial (GrpcSes_conn counting_Dial counting_Close) ''host:80'' [] (NewGrpcSession :: (nat, unit) GrpcSes, (0, {}))
      = ((Some 0, None), \<lparr>conn = Some 0, cc = None\<rparr>, (1, {0}))"
    by (simp add: GrpcDial_def Connect_def counting_Dial_def NewGrpcSession_def)
  moreover have "Close counting_Close (\<lparr>conn = Some 0, cc = None\<rparr> :: (nat, unit) GrpcSes, (1, {0}))
      = (None, \<lparr>conn = Some 0, cc = None\<rparr>, (1, {}))"
    by (simp add: Close_def counting_Close_def)
  ultimately show ?thesis using connect_then_close [OF counting_contract] by blast
qed

text \<open>Connecting a session again loses its first connection: Connect overwrites it without closing
  it, whether the second attempt succeeds or not, and the session's Close leaves the first
  connection open.\<close>

lemma reconnect_leaks_connection:
  assumes "grpc_contract Dial conn_Close opened"
    and "Connect Dial target opts (c, w) = ((Some x, None), c1, w1)"
    and "Connect Dial target' opts' (c1, w1) = (r, c2, w2)"
    and "Close conn_Close (c2, w2) = (err, c3, w3)"
  shows "opened w3 = insert x (opened w) \<and> x \<notin> opened w \<and> conn c3 \<noteq> Some x \<and> err = None"
proof -
  have one: "x \<notin> opened w" "opened w1 = insert x (opened w)"
    using assms(1,2) by (cases rule: Connect_cases; simp)+
  obtain k err' where r: "r = (k, err')" by force
  show ?thesis using assms(1) assms(3) [unfolded r]
  proof (cases rule: Connect_cases)
    case (ok y)
    then have "opened w3 = opened w2 - {y}" "err = None" "c3 = c2"
      using Close_open [OF assms(1), of c2 y w2] assms(4) by (auto simp: Close_def split: prod.splits)
    then show ?thesis using one ok by auto
  next
    case (failed e)
    then show ?thesis using one assms(4) by (auto simp: Close_def)
  qed
qed

lemma reconnect_leaks_connection_witness:
  "Close counting_Close
     (snd (Connect counting_Dial [] [] (snd (Connect counting_Dial ''h:1'' [] (NewGrpcSession :: (nat, unit) GrpcSes, (0, {}))))))
   = (None, NewGrpcSession, (Suc 0, {0}))"
proof -
  let ?c1 = "\<lparr>conn = Some 0, cc = None\<rparr> :: (nat, unit) GrpcSes"
  have a: "Connect counting_Dial ''h:1'' [] (NewGrpcSession :: (nat, unit) GrpcSes, (0, {}))
      = ((Some 0, None), ?c1, (Suc 0, {0}))"
    and b: "Connect counting_Dial [] [] (?c1, (Suc 0, {0})) = ((None, Some (GoError ''no target'')), NewGrpcSession, (Suc 0, {0}))"
    and c: "Close counting_Close (NewGrpcSession :: (nat, unit) GrpcSes, (Suc 0, {0})) = (None, NewGrpcSession, (Suc 0, {0}))"
    by (simp_all add: Connect_def counting_Dial_def NewGrpcSession_def Close_def)
  show ?thesis using reconnect_leaks_connection [OF counting_contract a b c] by (simp add: a b c)
qed

text \<open>The fake session never hands out a connection: GrpcDial fails with the text of the factory
  exactly when it is told to, and otherwise reports success with a nil connection, which no
  session that connects does; the field PassGrpcConnection has no effect.\<close>

lemma fake_GrpcDial_spec:
  "fst (fake_GrpcDial (fake_NewGrpcSession f) target opts) = None
   \<and> snd (fake_GrpcDial (fake_NewGrpcSession f) target opts)
      = (if FailGrpcConnection f then Some (GoError (FailGrpcConnectionErr f)) else None)
   \<and> fake_GrpcDial (fake_NewGrpcSession (f\<lparr>PassGrpcConnection := b\<rparr>)) target opts
      = (fake_GrpcDial (fake_NewGrpcSession f) target opts :: 'conn option go_result)"
  by (simp add: fake_GrpcDial_def fake_NewGrpcSession_def)

text \<open>C36: what becomes of the connections of a session: after any sequence of connecting (through
  GrpcDial) and closing, what is open beyond what was open before are exactly the connection
  the session can still close, if there is one, and, all different, the connections it has
  lost: those that were not closed when the session was connected again, successfully or
  not. So nothing is leaked exactly when every connection is closed before the next dial.\<close>

theorem session_connections:
  assumes "grpc_contract Dial conn_Close opened"
    and "session_run (GrpcSes_conn Dial conn_Close) ops (NewGrpcSession, w) = (rs, c, w')"
  shows "case account (None, []) rs of (cur, lost) \<Rightarrow>
    opened w' - opened w = set lost \<union> set_option cur \<and> opened w \<subseteq> opened w' \<and> distinct lost
    \<and> (\<forall>x. cur = Some x \<longrightarrow> x \<notin> set lost \<and> fst (Close conn_Close (c, w')) = None
         \<and> opened (snd (snd (Close conn_Close (c, w')))) = opened w' - {x})
    \<and> (cur = None \<longrightarrow> opened (snd (snd (Close conn_Close (c, w')))) = opened w')"
proof -
  obtain cur lost where acc: "account (None, []) rs = (cur, lost)" by fastforce
  have "accounted opened (opened w) (None, []) NewGrpcSession w" by (simp add: accounted_def NewGrpcSession_def)
  then have inv: "accounted opened (opened w) (cur, lost) c w'"
    using session_accounted [OF assms(1) _ assms(2)] acc by metis
  have close: "fst (Close conn_Close (c, w')) = None \<and> opened (snd (snd (Close conn_Close (c, w')))) = opened w' - {x}"
    if "cur = Some x" for x
    using that inv Close_open [OF assms(1), of c x w'] by (auto simp: accounted_def)
  have "opened (snd (snd (Close conn_Close (c, w')))) = opened w'" if "cur = None"
  proof (cases "conn c")
    case (Some y)
    then show ?thesis using that inv Close_open(1) [OF assms(1) Some, of w'] by (auto simp: accounted_def)
  qed (simp add: Close_def)
  with close inv show ?thesis unfolding acc by (auto simp: accounted_def)
qed

theorem session_connections_witness:
  "case session_run (GrpcSes_conn counting_Dial counting_Close) [ConnectOp ''a:1'' [], ConnectOp ''b:2'' [], CloseOp]
      (NewGrpcSession :: (nat, unit) GrpcSes, (0, {})) of
     (rs, c, w') \<Rightarrow> account (None, []) rs = (None, [0]) \<and> snd w' - {} = set [0 :: nat]"
proof -
  have run: "session_run (GrpcSes_conn counting_Dial counting_Close) [ConnectOp ''a:1'' [], ConnectOp ''b:2'' [], CloseOp]
      (NewGrpcSession :: (nat, unit) GrpcSes, (0, {}))
      = ([Connected 0, Connected 1, CloseReturned None], \<lparr>conn = Some 1, cc = None\<rparr>, (2, {0}))"
    by (simp add: GrpcDial_def Connect_def Close_def counting_Dial_def counting_Close_def NewGrpcSession_def)
  show ?thesis using session_connections [OF counting_contract run] unfolding run by simp
qed

end
