(* ===== verification/Metrics.thy ===== *)
theory Metrics
  imports Prelude
begin

text \<open>
  Package metrics, metrics.go: the five Prometheus metrics, their registration and updates.
  The package variables and the default registry are one record. A gauge holds a value of
  type \<open>'f\<close>, the floats, with the conversions the source uses as parameters; a counter, which
  is only ever increased by one, is the number of its increments, per label value.
\<close>

section \<open>The package state\<close>

text \<open>The label of an operation; its conversion to a string is the identity.\<close>

type_synonym FunctionLabel = string

record metric_opts =
  Namespace :: string
  Name :: string
  Help :: string
  labels :: "string list"

record 'f metrics_state =
  pluginNamespace :: string
  all_opts :: "metric_opts list"
  registry :: "string list"
  volumesCount :: 'f
  volumesAttachedCount :: 'f
  functionDuration :: "'f go_map"
  functionCount :: "string \<Rightarrow> nat"
  errorsCount :: "string \<Rightarrow> nat"

text \<open>
  prometheus.BuildFQName without a subsystem: the name under which a metric is registered and
  exported.
\<close>

definition fq_name :: "metric_opts \<Rightarrow> string" where
  "fq_name opts = (if Namespace opts = [] then Name opts else Namespace opts @ ''_'' @ Name opts)"

text \<open>The options given to the constructors in the variable block, which read the namespace.\<close>

definition package_opts :: "string \<Rightarrow> metric_opts list" where
  "package_opts ns =
     [\<lparr>Namespace = ns, Name = ''volumes_count'', Help = ''Total Number of volumes in the cluster.'', labels = []\<rparr>,
      \<lparr>Namespace = ns, Name = ''volumes_attached_count'',
       Help = ''Total Number of volumes attached in the cluster '', labels = []\<rparr>,
      \<lparr>Namespace = ns, Name = ''function_duration_seconds'', Help = ''Time taken by various operation of Plugin'',
       labels = [''function'']\<rparr>,
      \<lparr>Namespace = ns, Name = ''functions_total'',
       Help = ''The number of plugin operation  completeted successfully.'', labels = [''function'']\<rparr>,
      \<lparr>Namespace = ns, Name = ''errors_total'', Help = ''The number of plugin operation  failed due to an error.'',
       labels = [''type'']\<rparr>]"

text \<open>
  Package initialisation: the string variable is empty and the metrics are built from it,
  before any function of the package can run. \<open>registered\<close> is what other packages have in the
  default registry.
\<close>

definition package_init :: "'f \<Rightarrow> string list \<Rightarrow> 'f metrics_state" where
  "package_init zero registered =
     \<lparr>pluginNamespace = [], all_opts = package_opts [], registry = registered, volumesCount = zero,
      volumesAttachedCount = zero, functionDuration = [], functionCount = \<lambda>l. 0, errorsCount = \<lambda>l. 0\<rparr>"

section \<open>metrics.go\<close>

text \<open>MustRegister panics on a name that is registered already; \<open>Inl\<close> also carries the state then.\<close>

fun must_register :: "metric_opts list \<Rightarrow> 'f metrics_state \<Rightarrow> unit can_panic \<times> 'f metrics_state" where
  "must_register [] s = (Inr (), s)"
| "must_register (m # ms) s =
     (if fq_name m \<in> set (registry s) then (Inl DuplicateRegistration, s)
      else must_register ms (s\<lparr>registry := registry s @ [fq_name m]\<rparr>))"

definition RegisterAll :: "string \<Rightarrow> 'f metrics_state \<Rightarrow> unit can_panic \<times> 'f metrics_state" where
  "RegisterAll namespace s =
     (let s = s\<lparr>pluginNamespace := namespace\<rparr> in must_register (all_opts s) s)"

definition UpdateVolumeCount :: "(int \<Rightarrow> 'f) \<Rightarrow> int \<Rightarrow> 'f metrics_state \<Rightarrow> 'f metrics_state" where
  "UpdateVolumeCount float64 podsCount s = s\<lparr>volumesCount := float64 podsCount\<rparr>"

definition UpdateVolumeAttachedCount :: "(int \<Rightarrow> 'f) \<Rightarrow> int \<Rightarrow> 'f metrics_state \<Rightarrow> 'f metrics_state" where
  "UpdateVolumeAttachedCount float64 podsCount s = s\<lparr>volumesAttachedCount := float64 podsCount\<rparr>"

text \<open>A duration is in nanoseconds; \<open>Seconds\<close> is its method of that name.\<close>

definition UpdateDuration :: "(int \<Rightarrow> 'f) \<Rightarrow> FunctionLabel \<Rightarrow> int \<Rightarrow> 'f metrics_state \<Rightarrow> 'f metrics_state" where
  "UpdateDuration Seconds label duration s =
     s\<lparr>functionDuration := map_write (functionDuration s) label (Seconds duration)\<rparr>"

text \<open>With the time \<open>now\<close>, and the record written to the log.\<close>

definition UpdateDurationFromStart ::
  "(int \<Rightarrow> 'f) \<Rightarrow> int \<Rightarrow> FunctionLabel \<Rightarrow> int \<Rightarrow> 'f metrics_state \<Rightarrow> (string \<times> string \<times> 'f) \<times> 'f metrics_state" where
  "UpdateDurationFromStart Seconds now label start s =
     (let duration = now - start in
      ((''Time to complete'', label, Seconds duration), UpdateDuration Seconds label duration s))"

definition RegisterError :: "string \<Rightarrow> go_error option \<Rightarrow> 'f metrics_state \<Rightarrow> 'f metrics_state" where
  "RegisterError errType err s =
     (let errType = (case err of None \<Rightarrow> errType | Some e \<Rightarrow> error_text e) in
      s\<lparr>errorsCount := (errorsCount s)(errType := errorsCount s errType + 1)\<rparr>)"

definition RegisterFunction :: "FunctionLabel \<Rightarrow> 'f metrics_state \<Rightarrow> 'f metrics_state" where
  "RegisterFunction label s = s\<lparr>functionCount := (functionCount s)(label := functionCount s label + 1)\<rparr>"

section \<open>Sequences of updates\<close>

datatype metric_op =
    VolumeCount int
  | AttachedCount int
  | Duration string int
  | CountError string "go_error option"
  | CountFunction string

fun metric_step :: "(int \<Rightarrow> 'f) \<Rightarrow> (int \<Rightarrow> 'f) \<Rightarrow> metric_op \<Rightarrow> 'f metrics_state \<Rightarrow> 'f metrics_state" where
  "metric_step float64 Seconds (VolumeCount n) s = UpdateVolumeCount float64 n s"
| "metric_step float64 Seconds (AttachedCount n) s = UpdateVolumeAttachedCount float64 n s"
| "metric_step float64 Seconds (Duration l d) s = UpdateDuration Seconds l d s"
| "metric_step float64 Seconds (CountError t e) s = RegisterError t e s"
| "metric_step float64 Seconds (CountFunction l) s = RegisterFunction l s"

definition metric_run :: "(int \<Rightarrow> 'f) \<Rightarrow> (int \<Rightarrow> 'f) \<Rightarrow> metric_op list \<Rightarrow> 'f metrics_state \<Rightarrow> 'f metrics_state" where
  "metric_run float64 Seconds ops s = fold (metric_step float64 Seconds) ops s"

text \<open>What a scrape should show, read off the history with the most recent operation first.\<close>

definition error_label :: "metric_op \<Rightarrow> string option" where
  "error_label op = (case op of CountError t e \<Rightarrow> Some (case e of None \<Rightarrow> t | Some e \<Rightarrow> error_text e) | _ \<Rightarrow> None)"

definition function_label :: "metric_op \<Rightarrow> string option" where
  "function_label op = (case op of CountFunction l \<Rightarrow> Some l | _ \<Rightarrow> None)"

fun last_count :: "metric_op list \<Rightarrow> int option" where
  "last_count [] = None"
| "last_count (VolumeCount n # h) = Some n"
| "last_count (op # h) = last_count h"

fun last_attached :: "metric_op list \<Rightarrow> int option" where
  "last_attached [] = None"
| "last_attached (AttachedCount n # h) = Some n"
| "last_attached (op # h) = last_attached h"

fun last_duration :: "string \<Rightarrow> metric_op list \<Rightarrow> int option" where
  "last_duration l [] = None"
| "last_duration l (Duration l' d # h) = (if l' = l then Some d else last_duration l h)"
| "last_duration l (op # h) = last_duration l h"

lemmas update_defs =
  UpdateVolumeCount_def UpdateVolumeAttachedCount_def UpdateDuration_def RegisterError_def RegisterFunction_def

lemma metric_run_snoc: "metric_run f g (ops @ [op]) s = metric_step f g op (metric_run f g ops s)"
  by (simp add: metric_run_def)

lemma metric_run_counters:
  "errorsCount (metric_run f g ops s) l = errorsCount s l + length (filter (\<lambda>op. error_label op = Some l) ops)"
  "functionCount (metric_run f g ops s) l = functionCount s l + length (filter (\<lambda>op. function_label op = Some l) ops)"
proof (induction ops rule: rev_induct)
  case (snoc op ops)
  { case 1 then show ?case using snoc by (cases op) (auto simp: metric_run_snoc update_defs error_label_def Let_def) }
  { case 2 then show ?case using snoc by (cases op) (auto simp: metric_run_snoc update_defs function_label_def Let_def) }
qed (simp_all add: metric_run_def)

lemma metric_run_gauges:
  "volumesCount (metric_run f g ops s) = (case last_count (rev ops) of None \<Rightarrow> volumesCount s | Some n \<Rightarrow> f n)"
  "volumesAttachedCount (metric_run f g ops s) =
     (case last_attached (rev ops) of None \<Rightarrow> volumesAttachedCount s | Some n \<Rightarrow> f n)"
  "map_of (functionDuration (metric_run f g ops s)) l =
     (case last_duration l (rev ops) of None \<Rightarrow> map_of (functionDuration s) l | Some d \<Rightarrow> Some (g d))"
proof (induction ops rule: rev_induct)
  case (snoc op ops)
  { case 1 then show ?case using snoc by (cases op) (simp_all add: metric_run_snoc update_defs Let_def) }
  { case 2 then show ?case using snoc by (cases op) (simp_all add: metric_run_snoc update_defs Let_def) }
  { case 3 then show ?case using snoc by (cases op) (simp_all add: metric_run_snoc update_defs Let_def) }
qed (simp_all add: metric_run_def)

section \<open>Properties\<close>

text \<open>The namespace never reaches the metrics: whatever name is passed to RegisterAll, the five
  metrics are registered under their bare names, because their options were built from the
  empty package variable before; and a second RegisterAll panics, whatever its namespace.\<close>

lemma RegisterAll_ignores_namespace:
  "case RegisterAll ns (package_init zero []) of (r, s) \<Rightarrow>
     r = Inr () \<and> pluginNamespace s = ns
     \<and> registry s = [''volumes_count'', ''volumes_attached_count'', ''function_duration_seconds'',
                     ''functions_total'', ''errors_total'']
     \<and> fst (RegisterAll ns' s) = Inl DuplicateRegistration \<and> registry (snd (RegisterAll ns' s)) = registry s"
  by (simp add: RegisterAll_def package_init_def package_opts_def fq_name_def)


end
