(* ===== verification/ProtoWire.thy ===== *)
theory ProtoWire
  imports Prelude
begin

text \<open>
  The documented wire format of protocol buffers, as far as a serialized file descriptor needs
  it: varints, fields with their wire types, and the descriptor messages of descriptor.proto.
  Encoders and decoders are both written down, so that the bytes of provider.pb.go can be
  shown to be the encoding of a description and every reader of the format to get it back.
  The lemmas on reading back what was written are collected in \<open>wire_read\<close>.
\<close>

named_theorems wire_read \<open>reading back what was written\<close>

type_synonym byte8 = "8 word"

section \<open>Varints\<close>

text \<open>Seven bits a byte, the least significant first; at most ten bytes and 64 bits.\<close>

fun varint_upto :: "nat \<Rightarrow> byte8 list \<Rightarrow> (nat \<times> byte8 list) option" where
  "varint_upto 0 bs = None"
| "varint_upto (Suc k) [] = None"
| "varint_upto (Suc k) (b # bs) =
     (if unat b < 128 then Some (unat b, bs)
      else map_option (\<lambda>(n, r). (unat b - 128 + 128 * n, r)) (varint_upto k bs))"

definition varint :: "byte8 list \<Rightarrow> (nat \<times> byte8 list) option" where
  "varint bs = (case varint_upto 10 bs of None \<Rightarrow> None | Some (n, r) \<Rightarrow> if n < 2 ^ 64 then Some (n, r) else None)"

function put_varint :: "nat \<Rightarrow> byte8 list" where
  "put_varint n = (if n < 128 then [of_nat n] else of_nat (128 + n mod 128) # put_varint (n div 128))"
  by pat_completeness auto
termination
  by (relation "measure (\<lambda>n. n)") auto

declare put_varint.simps [simp del]

lemma unat_byte: "n < 256 \<Longrightarrow> unat (of_nat n :: byte8) = n"
  by (simp add: unat_of_nat)

lemma varint_upto_put: "n < 128 ^ k \<Longrightarrow> 0 < k \<Longrightarrow> varint_upto k (put_varint n @ r) = Some (n, r)"
proof (induction k arbitrary: n)
  case (Suc k)
  show ?case
  proof (cases "n < 128")
    case True
    then show ?thesis by (subst put_varint.simps) (simp add: unat_byte)
  next
    case False
    have low: "unat (of_nat (128 + n mod 128) :: byte8) = 128 + n mod 128"
      using mod_less_divisor [of 128 n] by (intro unat_byte) linarith
    have "n div 128 < 128 ^ k" using Suc.prems by (simp add: less_mult_imp_div_less mult.commute)
    moreover from this have "0 < k" using False by (cases k) auto
    ultimately have rest: "varint_upto k (put_varint (n div 128) @ r) = Some (n div 128, r)" by (rule Suc.IH)
    have head: "varint_upto (Suc k) (b # put_varint (n div 128) @ r) = Some (n, r)" if "unat b = 128 + n mod 128" for b
      by (simp add: that rest)
    have "put_varint n = of_nat (128 + n mod 128) # put_varint (n div 128)"
      using False by (subst put_varint.simps) simp
    then show ?thesis using head [OF low] by (simp only: append_Cons)
  qed
qed simp

lemma varint_put [wire_read]: "n < 2 ^ 64 \<Longrightarrow> varint (put_varint n @ r) = Some (n, r)"
  by (simp add: varint_def varint_upto_put)

lemma varint_upto_consumes: "varint_upto k bs = Some (n, r) \<Longrightarrow> length r < length bs"
proof (induction k bs arbitrary: n r rule: varint_upto.induct)
  case (3 k b bs)
  then show ?case by (cases "unat b < 128") (auto intro: less_SucI)
qed simp_all

lemma varint_consumes: "varint bs = Some (n, r) \<Longrightarrow> length r < length bs"
  by (auto simp: varint_def dest: varint_upto_consumes split: option.splits if_splits)

section \<open>Fields\<close>

datatype wire_value = VarintField nat | Fixed64Field "byte8 list" | LenField "byte8 list" | Fixed32Field "byte8 list"

definition take_bytes :: "nat \<Rightarrow> byte8 list \<Rightarrow> (byte8 list \<times> byte8 list) option" where
  "take_bytes n bs = (if n \<le> length bs then Some (take n bs, drop n bs) else None)"

text \<open>The value of a field by its wire type; groups (3 and 4) do not occur in descriptors.\<close>

definition get_value :: "nat \<Rightarrow> byte8 list \<Rightarrow> (wire_value \<times> byte8 list) option" where
  "get_value ty bs =
     (if ty = 0 then map_option (map_prod VarintField (\<lambda>r. r)) (varint bs)
      else if ty = 1 then map_option (map_prod Fixed64Field (\<lambda>r. r)) (take_bytes 8 bs)
      else if ty = 2 then
        (case varint bs of None \<Rightarrow> None
         | Some (n, r) \<Rightarrow> map_option (map_prod LenField (\<lambda>r. r)) (take_bytes n r))
      else if ty = 5 then map_option (map_prod Fixed32Field (\<lambda>r. r)) (take_bytes 4 bs)
      else None)"

lemma get_value_keeps: "get_value ty bs = Some (v, r) \<Longrightarrow> length r \<le> length bs"
  by (fastforce simp: get_value_def take_bytes_def dest: varint_consumes split: if_splits option.splits)

text \<open>A message is a sequence of fields, each a tag (number and wire type) and a value.\<close>

function wire_fields :: "byte8 list \<Rightarrow> (nat \<times> wire_value) list option" where
  "wire_fields bs =
     (if bs = [] then Some []
      else case varint bs of None \<Rightarrow> None
        | Some (tag, r) \<Rightarrow>
            if tag div 8 = 0 then None
            else case get_value (tag mod 8) r of None \<Rightarrow> None
              | Some (v, r') \<Rightarrow> map_option (Cons (tag div 8, v)) (wire_fields r'))"
  by pat_completeness auto
termination
  by (relation "measure length") (auto dest!: varint_consumes get_value_keeps)

declare wire_fields.simps [simp del]

fun put_field :: "nat \<times> wire_value \<Rightarrow> byte8 list" where
  "put_field (k, VarintField n) = put_varint (8 * k) @ put_varint n"
| "put_field (k, Fixed64Field bs) = put_varint (8 * k + 1) @ bs"
| "put_field (k, LenField bs) = put_varint (8 * k + 2) @ put_varint (length bs) @ bs"
| "put_field (k, Fixed32Field bs) = put_varint (8 * k + 5) @ bs"

definition put_fields :: "(nat \<times> wire_value) list \<Rightarrow> byte8 list" where
  "put_fields fs = concat (map put_field fs)"

fun field_ok :: "nat \<times> wire_value \<Rightarrow> bool" where
  "field_ok (k, v) \<longleftrightarrow> 0 < k \<and> k < 2 ^ 29 \<and>
     (case v of VarintField n \<Rightarrow> n < 2 ^ 64 | Fixed64Field bs \<Rightarrow> length bs = 8
      | LenField bs \<Rightarrow> length bs < 2 ^ 64 | Fixed32Field bs \<Rightarrow> length bs = 4)"

lemma take_bytes_append [wire_read]: "take_bytes (length bs) (bs @ r) = Some (bs, r)"
  by (simp add: take_bytes_def)

lemma wire_fields_tag:
  assumes "0 < k" and "k < 2 ^ 29" and "ty < 8" and "get_value ty (bs @ r) = Some (v, r)"
  shows "wire_fields (put_varint (8 * k + ty) @ bs @ r) = map_option (Cons (k, v)) (wire_fields r)"
proof -
  let ?bs = "put_varint (8 * k + ty) @ bs @ r"
  have "8 * k + ty < 2 ^ 64" using assms(2,3) by simp
  then have "varint ?bs = Some (8 * k + ty, bs @ r)" by (rule varint_put)
  moreover have "wire_fields ?bs = (case varint ?bs of None \<Rightarrow> None
        | Some (tag, r) \<Rightarrow> if tag div 8 = 0 then None
            else case get_value (tag mod 8) r of None \<Rightarrow> None
              | Some (v, r') \<Rightarrow> map_option (Cons (tag div 8, v)) (wire_fields r'))"
    using varint_consumes [OF calculation] by (subst wire_fields.simps) auto
  ultimately show ?thesis using assms by simp
qed

lemma wire_fields_put_field:
  assumes "field_ok f"
  shows "wire_fields (put_field f @ r) = map_option (Cons f) (wire_fields r)"
proof -
  obtain k v where f: "f = (k, v)" by fastforce
  have k: "0 < k" "k < 2 ^ 29" using assms by (simp_all add: f)
  show ?thesis
  proof (cases v)
    case (VarintField n)
    have "get_value 0 (put_varint n @ r) = Some (v, r)"
      using assms by (simp add: f VarintField get_value_def varint_put)
    from wire_fields_tag [OF k _ this] show ?thesis by (simp add: f VarintField)
  next
    case (Fixed64Field bs)
    have "get_value 1 (bs @ r) = Some (v, r)"
      using assms take_bytes_append [of bs r] by (simp add: f Fixed64Field get_value_def)
    from wire_fields_tag [OF k _ this] show ?thesis by (simp add: f Fixed64Field)
  next
    case (LenField bs)
    have "get_value 2 ((put_varint (length bs) @ bs) @ r) = Some (v, r)"
      using assms by (simp add: f LenField get_value_def varint_put take_bytes_append)
    from wire_fields_tag [OF k _ this] show ?thesis by (simp add: f LenField)
  next
    case (Fixed32Field bs)
    have "get_value 5 (bs @ r) = Some (v, r)"
      using assms take_bytes_append [of bs r] by (simp add: f Fixed32Field get_value_def)
    from wire_fields_tag [OF k _ this] show ?thesis by (simp add: f Fixed32Field)
  qed
qed

lemma wire_fields_put [wire_read]:
  assumes "list_all field_ok fs"
  shows "wire_fields (put_fields fs) = Some fs"
  using assms
proof (induction fs)
  case Nil
  show ?case by (subst wire_fields.simps) (simp add: put_fields_def)
next
  case (Cons f fs)
  then show ?case using wire_fields_put_field [of f "put_fields fs"] by (simp add: put_fields_def)
qed

section \<open>Reading fields\<close>

text \<open>A field of another wire type is an unknown field, and the last value of a single field counts.\<close>

definition len_values :: "nat \<Rightarrow> (nat \<times> wire_value) list \<Rightarrow> byte8 list list" where
  "len_values k fs = concat (map (\<lambda>(j, v). case v of LenField bs \<Rightarrow> if j = k then [bs] else [] | _ \<Rightarrow> []) fs)"

definition varint_values :: "nat \<Rightarrow> (nat \<times> wire_value) list \<Rightarrow> nat list" where
  "varint_values k fs = concat (map (\<lambda>(j, v). case v of VarintField n \<Rightarrow> if j = k then [n] else [] | _ \<Rightarrow> []) fs)"

definition last_or :: "'a \<Rightarrow> 'a list \<Rightarrow> 'a" where
  "last_or d xs = (if xs = [] then d else last xs)"

definition text_of_bytes :: "byte8 list \<Rightarrow> string" where
  "text_of_bytes bs = map (\<lambda>b. char_of (unat b)) bs"

definition bytes_of_text :: "string \<Rightarrow> byte8 list" where
  "bytes_of_text s = map (\<lambda>c. of_nat (of_char c)) s"

definition text_field :: "nat \<Rightarrow> (nat \<times> wire_value) list \<Rightarrow> string" where
  "text_field k fs = text_of_bytes (last_or [] (len_values k fs))"

definition number_field :: "nat \<Rightarrow> (nat \<times> wire_value) list \<Rightarrow> nat" where
  "number_field k fs = last_or 0 (varint_values k fs)"

lemma text_of_bytes_of_text [simp]: "text_of_bytes (bytes_of_text s) = s"
proof -
  have "unat (of_nat (of_char c) :: byte8) = of_char c" for c :: char
    using nat_of_char_less_256 [of c] by (intro unat_byte)
  then show ?thesis by (simp add: text_of_bytes_def bytes_of_text_def o_def)
qed

lemma length_bytes_of_text [simp]: "length (bytes_of_text s) = length s"
  by (simp add: bytes_of_text_def)

lemma values_of_fields [simp]:
  "len_values k [] = []"
  "len_values k ((j, VarintField n) # fs) = len_values k fs"
  "len_values k ((j, LenField bs) # fs) = (if j = k then [bs] else []) @ len_values k fs"
  "varint_values k [] = []"
  "varint_values k ((j, VarintField n) # fs) = (if j = k then [n] else []) @ varint_values k fs"
  "varint_values k ((j, LenField bs) # fs) = varint_values k fs"
  "len_values k (fs @ gs) = len_values k fs @ len_values k gs"
  "varint_values k (fs @ gs) = varint_values k fs @ varint_values k gs"
  by (simp_all add: len_values_def varint_values_def)

lemma values_of_repeated [simp]:
  "len_values k (map (\<lambda>x. (j, LenField (f x))) xs) = (if j = k then map f xs else [])"
  "varint_values k (map (\<lambda>x. (j, LenField (f x))) xs) = []"
  by (induction xs) simp_all

lemma last_or_simps [simp]: "last_or d [] = d" "last_or d [x] = x"
  by (simp_all add: last_or_def)

section \<open>File descriptors\<close>

record field_desc =
  field_name :: string
  field_number :: nat
  field_label :: nat
  field_type :: nat
  json_name :: string

record message_desc =
  message_name :: string
  message_fields :: "field_desc list"

record method_desc =
  method_name :: string
  input_type :: string
  output_type :: string

record service_desc =
  service_name :: string
  service_methods :: "method_desc list"

record file_desc =
  proto_name :: string
  proto_package :: string
  proto_messages :: "message_desc list"
  proto_services :: "service_desc list"
  java_package :: string
  java_outer_classname :: string
  java_multiple_files :: nat
  go_package :: string
  proto_syntax :: string

definition text_value :: "string \<Rightarrow> wire_value" where
  "text_value s = LenField (bytes_of_text s)"

subsection \<open>Writing\<close>

text \<open>Fields in the order of their numbers, as protoc writes them; a method has empty options.\<close>

definition put_field_desc :: "field_desc \<Rightarrow> byte8 list" where
  "put_field_desc f = put_fields
     [(1, text_value (field_name f)), (3, VarintField (field_number f)), (4, VarintField (field_label f)),
      (5, VarintField (field_type f)), (10, text_value (json_name f))]"

definition put_message_desc :: "message_desc \<Rightarrow> byte8 list" where
  "put_message_desc m = put_fields
     ((1, text_value (message_name m)) # map (\<lambda>f. (2, LenField (put_field_desc f))) (message_fields m))"

definition put_method_desc :: "method_desc \<Rightarrow> byte8 list" where
  "put_method_desc m = put_fields
     [(1, text_value (method_name m)), (2, text_value (input_type m)), (3, text_value (output_type m)), (4, LenField [])]"

definition put_service_desc :: "service_desc \<Rightarrow> byte8 list" where
  "put_service_desc s = put_fields
     ((1, text_value (service_name s)) # map (\<lambda>m. (2, LenField (put_method_desc m))) (service_methods s))"

definition put_file_desc :: "file_desc \<Rightarrow> byte8 list" where
  "put_file_desc d = put_fields
     ([(1, text_value (proto_name d)), (2, text_value (proto_package d))]
      @ map (\<lambda>m. (4, LenField (put_message_desc m))) (proto_messages d)
      @ map (\<lambda>s. (6, LenField (put_service_desc s))) (proto_services d)
      @ [(8, LenField (put_fields
            [(1, text_value (java_package d)), (8, text_value (java_outer_classname d)),
             (10, VarintField (java_multiple_files d)), (11, text_value (go_package d))])),
         (12, text_value (proto_syntax d))])"

subsection \<open>Reading\<close>

definition get_field_desc :: "byte8 list \<Rightarrow> field_desc option" where
  "get_field_desc bs = map_option (\<lambda>fs.
     \<lparr>field_name = text_field 1 fs, field_number = number_field 3 fs, field_label = number_field 4 fs,
      field_type = number_field 5 fs, json_name = text_field 10 fs\<rparr>) (wire_fields bs)"

definition get_message_desc :: "byte8 list \<Rightarrow> message_desc option" where
  "get_message_desc bs = Option.bind (wire_fields bs) (\<lambda>fs.
     map_option (\<lambda>fields. \<lparr>message_name = text_field 1 fs, message_fields = fields\<rparr>)
       (those (map get_field_desc (len_values 2 fs))))"

definition get_method_desc :: "byte8 list \<Rightarrow> method_desc option" where
  "get_method_desc bs = map_option (\<lambda>fs.
     \<lparr>method_name = text_field 1 fs, input_type = text_field 2 fs, output_type = text_field 3 fs\<rparr>) (wire_fields bs)"

definition get_service_desc :: "byte8 list \<Rightarrow> service_desc option" where
  "get_service_desc bs = Option.bind (wire_fields bs) (\<lambda>fs.
     map_option (\<lambda>methods. \<lparr>service_name = text_field 1 fs, service_methods = methods\<rparr>)
       (those (map get_method_desc (len_values 2 fs))))"

definition get_file_desc :: "byte8 list \<Rightarrow> file_desc option" where
  "get_file_desc bs = Option.bind (wire_fields bs) (\<lambda>fs.
     Option.bind (wire_fields (last_or [] (len_values 8 fs))) (\<lambda>options.
     Option.bind (those (map get_message_desc (len_values 4 fs))) (\<lambda>messages.
     map_option (\<lambda>services.
       \<lparr>proto_name = text_field 1 fs, proto_package = text_field 2 fs, proto_messages = messages,
        proto_services = services, java_package = text_field 1 options,
        java_outer_classname = text_field 8 options, java_multiple_files = number_field 10 options,
        go_package = text_field 11 options, proto_syntax = text_field 12 fs\<rparr>)
       (those (map get_service_desc (len_values 6 fs))))))"

subsection \<open>Reading back\<close>

text \<open>Numbers fit 64 bits and nothing nested is longer than a length can say.\<close>

definition fits :: "byte8 list \<Rightarrow> bool" where
  "fits bs \<longleftrightarrow> length bs < 2 ^ 64"

definition field_desc_ok :: "field_desc \<Rightarrow> bool" where
  "field_desc_ok f \<longleftrightarrow> length (field_name f) < 2 ^ 64 \<and> field_number f < 2 ^ 64 \<and> field_label f < 2 ^ 64
     \<and> field_type f < 2 ^ 64 \<and> length (json_name f) < 2 ^ 64"

definition message_desc_ok :: "message_desc \<Rightarrow> bool" where
  "message_desc_ok m \<longleftrightarrow> length (message_name m) < 2 ^ 64
     \<and> list_all (\<lambda>f. field_desc_ok f \<and> fits (put_field_desc f)) (message_fields m)"

definition method_desc_ok :: "method_desc \<Rightarrow> bool" where
  "method_desc_ok m \<longleftrightarrow> length (method_name m) < 2 ^ 64 \<and> length (input_type m) < 2 ^ 64 \<and> length (output_type m) < 2 ^ 64"

definition service_desc_ok :: "service_desc \<Rightarrow> bool" where
  "service_desc_ok s \<longleftrightarrow> length (service_name s) < 2 ^ 64
     \<and> list_all (\<lambda>m. method_desc_ok m \<and> fits (put_method_desc m)) (service_methods s)"

definition file_options :: "file_desc \<Rightarrow> (nat \<times> wire_value) list" where
  "file_options d =
     [(1, text_value (java_package d)), (8, text_value (java_outer_classname d)),
      (10, VarintField (java_multiple_files d)), (11, text_value (go_package d))]"

definition file_desc_ok :: "file_desc \<Rightarrow> bool" where
  "file_desc_ok d \<longleftrightarrow> length (proto_name d) < 2 ^ 64 \<and> length (proto_package d) < 2 ^ 64
     \<and> list_all (\<lambda>m. message_desc_ok m \<and> fits (put_message_desc m)) (proto_messages d)
     \<and> list_all (\<lambda>s. service_desc_ok s \<and> fits (put_service_desc s)) (proto_services d)
     \<and> length (java_package d) < 2 ^ 64 \<and> length (java_outer_classname d) < 2 ^ 64
     \<and> java_multiple_files d < 2 ^ 64 \<and> length (go_package d) < 2 ^ 64
     \<and> fits (put_fields (file_options d)) \<and> length (proto_syntax d) < 2 ^ 64"

lemma those_map_read:
  assumes "list_all ok xs" and "\<And>x. ok x \<Longrightarrow> g (f x) = Some x"
  shows "those (map (g \<circ> f) xs) = Some xs"
  using assms(1) by (induction xs) (simp_all add: assms(2))

lemmas wire_read_defs = text_field_def number_field_def text_value_def fits_def

lemma get_put_field_desc: "field_desc_ok f \<Longrightarrow> get_field_desc (put_field_desc f) = Some f"
  by (simp add: get_field_desc_def put_field_desc_def field_desc_ok_def wire_read_defs wire_fields_put)

lemma get_put_method_desc: "method_desc_ok m \<Longrightarrow> get_method_desc (put_method_desc m) = Some m"
  by (simp add: get_method_desc_def put_method_desc_def method_desc_ok_def wire_read_defs wire_fields_put)

lemma repeated_ok:
  "0 < k \<Longrightarrow> k < 2 ^ 29 \<Longrightarrow> list_all (\<lambda>x. ok x \<and> fits (f x)) xs \<Longrightarrow> list_all field_ok (map (\<lambda>x. (k, LenField (f x))) xs)"
  by (induction xs) (simp_all add: fits_def)

lemma list_all_ok: "list_all (\<lambda>x. ok x \<and> fits (f x)) xs \<Longrightarrow> list_all ok xs"
  by (induction xs) simp_all

lemma get_put_message_desc:
  assumes "message_desc_ok m"
  shows "get_message_desc (put_message_desc m) = Some m"
proof -
  have fields: "list_all (\<lambda>f. field_desc_ok f \<and> fits (put_field_desc f)) (message_fields m)"
    using assms by (simp add: message_desc_ok_def)
  have "those (map (get_field_desc \<circ> put_field_desc) (message_fields m)) = Some (message_fields m)"
    using list_all_ok [OF fields] get_put_field_desc by (rule those_map_read)
  then show ?thesis using assms repeated_ok [OF _ _ fields, of 2]
    by (simp add: get_message_desc_def put_message_desc_def message_desc_ok_def wire_read_defs wire_fields_put)
qed

lemma get_put_service_desc:
  assumes "service_desc_ok s"
  shows "get_service_desc (put_service_desc s) = Some s"
proof -
  have methods: "list_all (\<lambda>m. method_desc_ok m \<and> fits (put_method_desc m)) (service_methods s)"
    using assms by (simp add: service_desc_ok_def)
  have "those (map (get_method_desc \<circ> put_method_desc) (service_methods s)) = Some (service_methods s)"
    using list_all_ok [OF methods] get_put_method_desc by (rule those_map_read)
  then show ?thesis using assms repeated_ok [OF _ _ methods, of 2]
    by (simp add: get_service_desc_def put_service_desc_def service_desc_ok_def wire_read_defs wire_fields_put)
qed

lemma get_put_file_desc:
  assumes "file_desc_ok d"
  shows "get_file_desc (put_file_desc d) = Some d"
proof -
  have parts: "list_all (\<lambda>m. message_desc_ok m \<and> fits (put_message_desc m)) (proto_messages d)"
      "list_all (\<lambda>s. service_desc_ok s \<and> fits (put_service_desc s)) (proto_services d)"
    using assms by (simp_all add: file_desc_ok_def)
  have "list_all field_ok (file_options d)"
    using assms by (simp add: file_desc_ok_def file_options_def wire_read_defs)
  then have options: "wire_fields (put_fields (file_options d)) = Some (file_options d)" by (rule wire_fields_put)
  have "those (map (get_message_desc \<circ> put_message_desc) (proto_messages d)) = Some (proto_messages d)"
      "those (map (get_service_desc \<circ> put_service_desc) (proto_services d)) = Some (proto_services d)"
    using those_map_read [of message_desc_ok _ get_message_desc put_message_desc, OF list_all_ok [OF parts(1)] get_put_message_desc]
      those_map_read [of service_desc_ok _ get_service_desc put_service_desc, OF list_all_ok [OF parts(2)] get_put_service_desc]
    by simp_all
  moreover have "put_file_desc d = put_fields
     ([(1, text_value (proto_name d)), (2, text_value (proto_package d))]
      @ map (\<lambda>m. (4, LenField (put_message_desc m))) (proto_messages d)
      @ map (\<lambda>s. (6, LenField (put_service_desc s))) (proto_services d)
      @ [(8, LenField (put_fields (file_options d))), (12, text_value (proto_syntax d))])"
    by (simp add: put_file_desc_def file_options_def)
  ultimately show ?thesis
    using assms options repeated_ok [OF _ _ parts(1), of 4] repeated_ok [OF _ _ parts(2), of 6]
    by (simp add: get_file_desc_def file_desc_ok_def wire_fields_put wire_read_defs)
      (simp add: file_options_def wire_read_defs)
qed

end
