(* ===== verification/ProviderGrpc.thy ===== *)
theory ProviderGrpc
  imports MessageCatalog
begin

text \<open>
  Package provider, the gRPC service APIKeyProvider of provider\_grpc.pb.go over the
  declared fields of its two messages (ProviderProto has the rest of them): the client stubs, the handlers and the service description.
  The gRPC library that carries a call is the parameter \<open>Invoke\<close>.
\<close>

section \<open>provider.pb.go\<close>

text \<open>The request has no fields of its own, the response has one.\<close>

record APIKey =
  Apikey :: string

definition GetApikey :: "APIKey option \<Rightarrow> string" where
  "GetApikey x = (case x of Some k \<Rightarrow> Apikey k | None \<Rightarrow> [])"

section \<open>The client\<close>

datatype rpc_error = StatusError (rpc_code: grpc_code) (rpc_text: string) | OtherError string

type_synonym 'a rpc_result = "'a \<times> rpc_error option"

text \<open>Invoke fills the response it is given and says whether the call failed.\<close>

type_synonym invoke = "string \<Rightarrow> unit \<Rightarrow> APIKey \<Rightarrow> APIKey rpc_result"

definition client_GetVPCAPIKey :: "invoke \<Rightarrow> unit \<Rightarrow> APIKey option rpc_result" where
  "client_GetVPCAPIKey Invoke p =
     (case Invoke ''/provider.APIKeyProvider/GetVPCAPIKey'' p \<lparr>Apikey = []\<rparr> of
        (out, Some err) \<Rightarrow> (None, Some err)
      | (out, None) \<Rightarrow> (Some out, None))"

definition client_GetContainerAPIKey :: "invoke \<Rightarrow> unit \<Rightarrow> APIKey option rpc_result" where
  "client_GetContainerAPIKey Invoke p =
     (case Invoke ''/provider.APIKeyProvider/GetContainerAPIKey'' p \<lparr>Apikey = []\<rparr> of
        (out, Some err) \<Rightarrow> (None, Some err)
      | (out, None) \<Rightarrow> (Some out, None))"

section \<open>The server\<close>

record APIKeyProviderServer =
  GetVPCAPIKey :: "unit \<Rightarrow> APIKey option rpc_result"
  GetContainerAPIKey :: "unit \<Rightarrow> APIKey option rpc_result"

definition unimplemented_GetVPCAPIKey :: "unit \<Rightarrow> APIKey option rpc_result" where
  "unimplemented_GetVPCAPIKey p = (None, Some (StatusError Unimplemented ''method GetVPCAPIKey not implemented''))"

definition unimplemented_GetContainerAPIKey :: "unit \<Rightarrow> APIKey option rpc_result" where
  "unimplemented_GetContainerAPIKey p =
     (None, Some (StatusError Unimplemented ''method GetContainerAPIKey not implemented''))"

definition UnimplementedAPIKeyProviderServer :: APIKeyProviderServer where
  "UnimplementedAPIKeyProviderServer =
     \<lparr>GetVPCAPIKey = unimplemented_GetVPCAPIKey, GetContainerAPIKey = unimplemented_GetContainerAPIKey\<rparr>"

text \<open>
  A handler decodes the request, which may fail, and calls the method directly or through the
  interceptor, which gets the request, the full method name and the method.
\<close>

type_synonym rpc_method = "unit \<Rightarrow> APIKey option rpc_result"

type_synonym interceptor = "unit \<Rightarrow> string \<Rightarrow> rpc_method \<Rightarrow> APIKey option rpc_result"

type_synonym handler =
  "APIKeyProviderServer \<Rightarrow> (unit \<Rightarrow> unit rpc_result) \<Rightarrow> interceptor option \<Rightarrow> APIKey option rpc_result"

definition GetVPCAPIKey_Handler :: handler where
  "GetVPCAPIKey_Handler srv dec intercept =
     (case dec () of
        (p, Some err) \<Rightarrow> (None, Some err)
      | (p, None) \<Rightarrow>
        (case intercept of None \<Rightarrow> GetVPCAPIKey srv p
         | Some f \<Rightarrow> f p ''/provider.APIKeyProvider/GetVPCAPIKey'' (GetVPCAPIKey srv)))"

definition GetContainerAPIKey_Handler :: handler where
  "GetContainerAPIKey_Handler srv dec intercept =
     (case dec () of
        (p, Some err) \<Rightarrow> (None, Some err)
      | (p, None) \<Rightarrow>
        (case intercept of None \<Rightarrow> GetContainerAPIKey srv p
         | Some f \<Rightarrow> f p ''/provider.APIKeyProvider/GetContainerAPIKey'' (GetContainerAPIKey srv)))"

record ServiceDesc =
  ServiceName :: string
  Methods :: "(string \<times> handler) list"
  DescMetadata :: string

definition APIKeyProvider_serviceDesc :: ServiceDesc where
  "APIKeyProvider_serviceDesc =
     \<lparr>ServiceName = ''provider.APIKeyProvider'',
      Methods = [(''GetVPCAPIKey'', GetVPCAPIKey_Handler), (''GetContainerAPIKey'', GetContainerAPIKey_Handler)],
      DescMetadata = ''provider.proto''\<rparr>"

text \<open>RegisterService enters a description and its server in the list of a gRPC server.\<close>

definition RegisterAPIKeyProviderServer ::
  "(ServiceDesc \<times> APIKeyProviderServer) list \<Rightarrow> APIKeyProviderServer \<Rightarrow> (ServiceDesc \<times> APIKeyProviderServer) list" where
  "RegisterAPIKeyProviderServer s srv = s @ [(APIKeyProvider_serviceDesc, srv)]"

text \<open>
  What gRPC promises of a call to a server with these services: a path made of the name of a
  service and of one of its methods reaches the handler of that method, with the request
  decoded as it was sent; its response comes back whole, and so does its error. Nothing is
  said of a handler that returns neither.
\<close>

definition carries :: "(ServiceDesc \<times> APIKeyProviderServer) list \<Rightarrow> interceptor option \<Rightarrow> invoke \<Rightarrow> bool" where
  "carries services intercept Invoke \<longleftrightarrow>
     (\<forall>desc srv name h p out. (desc, srv) \<in> set services \<longrightarrow> (name, h) \<in> set (Methods desc) \<longrightarrow>
        (case h srv (\<lambda>u. (p, None)) intercept of
           (r, Some err) \<Rightarrow> snd (Invoke (''/'' @ ServiceName desc @ ''/'' @ name) p out) = Some err
         | (Some r, None) \<Rightarrow> Invoke (''/'' @ ServiceName desc @ ''/'' @ name) p out = (r, None)
         | (None, None) \<Rightarrow> True))"

lemma carries_APIKeyProvider:
  assumes "carries (RegisterAPIKeyProviderServer services srv) intercept Invoke"
    and "(name, h) \<in> set (Methods APIKeyProvider_serviceDesc)"
  shows "case h srv (\<lambda>u. (p, None)) intercept of
      (r, Some err) \<Rightarrow> snd (Invoke (''/provider.APIKeyProvider/'' @ name) p out) = Some err
    | (Some r, None) \<Rightarrow> Invoke (''/provider.APIKeyProvider/'' @ name) p out = (r, None)
    | (None, None) \<Rightarrow> True"
proof -
  have reg: "(APIKeyProvider_serviceDesc, srv) \<in> set (RegisterAPIKeyProviderServer services srv)"
    by (simp add: RegisterAPIKeyProviderServer_def)
  have name: "''/'' @ ServiceName APIKeyProvider_serviceDesc @ ''/'' @ x = ''/provider.APIKeyProvider/'' @ x" for x
    by (simp add: APIKeyProvider_serviceDesc_def)
  show ?thesis
    using assms(1) [unfolded carries_def, rule_format, OF reg assms(2), unfolded name] .
qed

lemma handlers_listed:
  "(''GetVPCAPIKey'', GetVPCAPIKey_Handler) \<in> set (Methods APIKeyProvider_serviceDesc)"
  "(''GetContainerAPIKey'', GetContainerAPIKey_Handler) \<in> set (Methods APIKeyProvider_serviceDesc)"
  by (simp_all add: APIKeyProvider_serviceDesc_def)

text \<open>A method behind an interceptor, and a method that answers with a key or an error, never with neither.\<close>

definition intercepted :: "interceptor option \<Rightarrow> string \<Rightarrow> rpc_method \<Rightarrow> rpc_method" where
  "intercepted intercept path m p = (case intercept of None \<Rightarrow> m p | Some f \<Rightarrow> f p path m)"

definition answers :: "rpc_method \<Rightarrow> bool" where
  "answers m \<longleftrightarrow> (\<forall>p. (\<exists>k. m p = (Some k, None)) \<or> (\<exists>e. m p = (None, Some e)))"

lemma handler_calls:
  "GetVPCAPIKey_Handler srv (\<lambda>u. (p, None)) intercept
     = intercepted intercept ''/provider.APIKeyProvider/GetVPCAPIKey'' (GetVPCAPIKey srv) p"
  "GetContainerAPIKey_Handler srv (\<lambda>u. (p, None)) intercept
     = intercepted intercept ''/provider.APIKeyProvider/GetContainerAPIKey'' (GetContainerAPIKey srv) p"
  by (simp_all add: GetVPCAPIKey_Handler_def GetContainerAPIKey_Handler_def intercepted_def)

lemma client_result:
  assumes "answers m"
    and "case m p of (r, Some err) \<Rightarrow> snd x = Some err | (Some r, None) \<Rightarrow> x = (r, None) | (None, None) \<Rightarrow> True"
  shows "(case x of (out, Some err) \<Rightarrow> (None, Some err) | (out, None) \<Rightarrow> (Some out, None)) = m p"
  using assms(1) [unfolded answers_def, rule_format, of p] assms(2) by (cases x) auto

section \<open>Properties\<close>

text \<open>The client stubs, the service description and the handlers fit together: over a gRPC that
  carries calls to a server registered with RegisterAPIKeyProviderServer, each stub returns
  exactly what the method of the same name of that server returns, through the interceptor
  if there is one, which is told the path the client called.\<close>

lemma client_reaches_server:
  assumes "carries (RegisterAPIKeyProviderServer services srv) intercept Invoke"
    and "answers (intercepted intercept ''/provider.APIKeyProvider/GetVPCAPIKey'' (GetVPCAPIKey srv))"
    and "answers (intercepted intercept ''/provider.APIKeyProvider/GetContainerAPIKey'' (GetContainerAPIKey srv))"
  shows "client_GetVPCAPIKey Invoke p
      = intercepted intercept ''/provider.APIKeyProvider/GetVPCAPIKey'' (GetVPCAPIKey srv) p
    \<and> client_GetContainerAPIKey Invoke p
      = intercepted intercept ''/provider.APIKeyProvider/GetContainerAPIKey'' (GetContainerAPIKey srv) p"
  using client_result [OF assms(2) carries_APIKeyProvider [OF assms(1) handlers_listed(1), unfolded handler_calls]]
    client_result [OF assms(3) carries_APIKeyProvider [OF assms(1) handlers_listed(2), unfolded handler_calls]]
  by (simp add: client_GetVPCAPIKey_def client_GetContainerAPIKey_def)

definition unimplemented_invoke :: invoke where
  "unimplemented_invoke path p out =
     (if path = ''/provider.APIKeyProvider/GetVPCAPIKey''
      then (out, Some (StatusError Unimplemented ''method GetVPCAPIKey not implemented''))
      else (out, Some (StatusError Unimplemented ''method GetContainerAPIKey not implemented'')))"

lemma client_reaches_server_witness:
  "client_GetVPCAPIKey unimplemented_invoke ()
     = (None, Some (StatusError Unimplemented ''method GetVPCAPIKey not implemented''))"
proof -
  let ?srv = UnimplementedAPIKeyProviderServer
  have "carries (RegisterAPIKeyProviderServer [] ?srv) None unimplemented_invoke"
    by (auto simp: carries_def RegisterAPIKeyProviderServer_def APIKeyProvider_serviceDesc_def unimplemented_invoke_def
        GetVPCAPIKey_Handler_def GetContainerAPIKey_Handler_def UnimplementedAPIKeyProviderServer_def
        unimplemented_GetVPCAPIKey_def unimplemented_GetContainerAPIKey_def)
  moreover have "answers (intercepted None path (GetVPCAPIKey ?srv))"
    and "answers (intercepted None path (GetContainerAPIKey ?srv))" for path
    by (simp_all add: answers_def intercepted_def UnimplementedAPIKeyProviderServer_def unimplemented_GetVPCAPIKey_def
        unimplemented_GetContainerAPIKey_def)
  ultimately show ?thesis
    using client_reaches_server [of "[]" ?srv None unimplemented_invoke "()"]
    by (simp add: intercepted_def UnimplementedAPIKeyProviderServer_def unimplemented_GetVPCAPIKey_def)
qed

end
