(* ===== verification/ProviderProto.thy ===== *)
theory ProviderProto
  imports ProtoWire ProviderGrpc
begin

text \<open>
  Package provider, the messages of provider.pb.go: the structs with their bookkeeping, Reset,
  ProtoReflect and Descriptor, the variables of the package (the raw descriptor and the tables
  its type builder gets), and the initialisation that hands them to the protobuf runtime. The
  runtime is the record \<open>protoimpl\<close> of parameters; what it documents of the message state and of
  the type builder are the predicates \<open>state_contract\<close> and \<open>build_contract\<close>.
\<close>

section \<open>The messages\<close>

text \<open>
  A message struct has three bookkeeping fields before its declared ones. Provider declares none,
  APIKey has the key. The type of the state and what can be done with it are the runtime's.
\<close>

record ('st, 'c) message =
  state :: 'st
  sizeCache :: "32 word"
  unknownFields :: "byte8 list"
  contents :: 'c

datatype go_type = PtrProvider | PtrAPIKey

datatype internal_field = StateField | SizeCacheField | UnknownFieldsField

text \<open>The address of an internal field, by its index; the value must have the asserted type.\<close>

type_synonym exporter = "go_type \<Rightarrow> int \<Rightarrow> internal_field option can_panic"

record message_info =
  Exporter :: "exporter option"
  Desc :: "string option"

record type_builder =
  GoPackagePath :: string
  RawDescriptor :: "byte8 list"
  NumEnums :: nat
  NumMessages :: nat
  NumExtensions :: nat
  NumServices :: nat
  GoTypes :: "go_type list"
  DependencyIndexes :: "32 word list"
  MessageInfos :: "message_info list"

text \<open>Build gives the file descriptor and fills in the message infos, or panics (\<open>None\<close>).\<close>

record ('st, 'f) protoimpl =
  UnsafeEnabled :: bool
  zeroState :: 'st
  StoreMessageInfo :: "'st \<Rightarrow> nat \<Rightarrow> 'st"
  LoadMessageInfo :: "'st \<Rightarrow> nat option"
  CompressGZIP :: "byte8 list \<Rightarrow> byte8 list"
  Build :: "type_builder \<Rightarrow> ('f \<times> message_info list) option"

text \<open>A message info is the index into msgTypes it points to.\<close>

definition reset_message :: "('st, 'f) protoimpl \<Rightarrow> nat \<Rightarrow> 'c \<Rightarrow> ('st, 'c) message option \<Rightarrow> ('st, 'c) message can_panic" where
  "reset_message lib k zero x =
     (case x of None \<Rightarrow> Inl NilDereference
      | Some _ \<Rightarrow>
          let m = \<lparr>state = zeroState lib, sizeCache = 0, unknownFields = [], contents = zero\<rparr>
          in Inr (if UnsafeEnabled lib then m\<lparr>state := StoreMessageInfo lib (state m) k\<rparr> else m))"

definition Provider_Reset :: "('st, 'f) protoimpl \<Rightarrow> ('st, unit) message option \<Rightarrow> ('st, unit) message can_panic" where
  "Provider_Reset lib x = reset_message lib 0 () x"

definition APIKey_Reset :: "('st, 'f) protoimpl \<Rightarrow> ('st, APIKey) message option \<Rightarrow> ('st, APIKey) message can_panic" where
  "APIKey_Reset lib x = reset_message lib 1 \<lparr>Apikey = []\<rparr> x"

text \<open>The reflective view of a message: through its own state, or a wrapper of the message info.\<close>

datatype reflect_view = StateView | WrapperView nat

definition reflect_message ::
  "('st, 'f) protoimpl \<Rightarrow> nat \<Rightarrow> ('st, 'c) message option \<Rightarrow> ('st, 'c) message option \<times> reflect_view" where
  "reflect_message lib k x =
     (case x of
        Some m \<Rightarrow>
          if UnsafeEnabled lib
          then (Some (if LoadMessageInfo lib (state m) = None then m\<lparr>state := StoreMessageInfo lib (state m) k\<rparr> else m),
                StateView)
          else (x, WrapperView k)
      | None \<Rightarrow> (x, WrapperView k))"

definition Provider_ProtoReflect ::
  "('st, 'f) protoimpl \<Rightarrow> ('st, unit) message option \<Rightarrow> ('st, unit) message option \<times> reflect_view" where
  "Provider_ProtoReflect lib x = reflect_message lib 0 x"

definition APIKey_ProtoReflect ::
  "('st, 'f) protoimpl \<Rightarrow> ('st, APIKey) message option \<Rightarrow> ('st, APIKey) message option \<times> reflect_view" where
  "APIKey_ProtoReflect lib x = reflect_message lib 1 x"

section \<open>The variables of the package\<close>

definition file_provider_proto_rawDesc :: "byte8 list" where
  "file_provider_proto_rawDesc =
     [0x0a, 0x0e, 0x70, 0x72, 0x6f, 0x76, 0x69, 0x64, 0x65, 0x72, 0x2e, 0x70, 0x72, 0x6f, 0x74, 0x6f,
      0x12, 0x08, 0x70, 0x72, 0x6f, 0x76, 0x69, 0x64, 0x65, 0x72, 0x22, 0x0a, 0x0a, 0x08, 0x50, 0x72,
      0x6f, 0x76, 0x69, 0x64, 0x65, 0x72, 0x22, 0x20, 0x0a, 0x06, 0x41, 0x50, 0x49, 0x4b, 0x65, 0x79,
      0x12, 0x16, 0x0a, 0x06, 0x61, 0x70, 0x69, 0x6b, 0x65, 0x79, 0x18, 0x01, 0x20, 0x01, 0x28, 0x09,
      0x52, 0x06, 0x61, 0x70, 0x69, 0x6b, 0x65, 0x79, 0x32, 0x86, 0x01, 0x0a, 0x0e, 0x41, 0x50, 0x49,
      0x4b, 0x65, 0x79, 0x50, 0x72, 0x6f, 0x76, 0x69, 0x64, 0x65, 0x72, 0x12, 0x36, 0x0a, 0x0c, 0x47,
      0x65, 0x74, 0x56, 0x50, 0x43, 0x41, 0x50, 0x49, 0x4b, 0x65, 0x79, 0x12, 0x12, 0x2e, 0x70, 0x72,
      0x6f, 0x76, 0x69, 0x64, 0x65, 0x72, 0x2e, 0x50, 0x72, 0x6f, 0x76, 0x69, 0x64, 0x65, 0x72, 0x1a,
      0x10, 0x2e, 0x70, 0x72, 0x6f, 0x76, 0x69, 0x64, 0x65, 0x72, 0x2e, 0x41, 0x50, 0x49, 0x4b, 0x65,
      0x79, 0x22, 0x00, 0x12, 0x3c, 0x0a, 0x12, 0x47, 0x65, 0x74, 0x43, 0x6f, 0x6e, 0x74, 0x61, 0x69,
      0x6e, 0x65, 0x72, 0x41, 0x50, 0x49, 0x4b, 0x65, 0x79, 0x12, 0x12, 0x2e, 0x70, 0x72, 0x6f, 0x76,
      0x69, 0x64, 0x65, 0x72, 0x2e, 0x50, 0x72, 0x6f, 0x76, 0x69, 0x64, 0x65, 0x72, 0x1a, 0x10, 0x2e,
      0x70, 0x72, 0x6f, 0x76, 0x69, 0x64, 0x65, 0x72, 0x2e, 0x41, 0x50, 0x49, 0x4b, 0x65, 0x79, 0x22,
      0x00, 0x42, 0x74, 0x0a, 0x1a, 0x69, 0x6f, 0x2e, 0x67, 0x72, 0x70, 0x63, 0x2e, 0x69, 0x62, 0x6d,
      0x2e, 0x73, 0x74, 0x6f, 0x72, 0x61, 0x67, 0x65, 0x2d, 0x73, 0x65, 0x63, 0x72, 0x65, 0x74, 0x42,
      0x12, 0x53, 0x74, 0x6f, 0x72, 0x61, 0x67, 0x65, 0x53, 0x65, 0x63, 0x72, 0x65, 0x74, 0x43, 0x6c,
      0x61, 0x73, 0x73, 0x50, 0x01, 0x5a, 0x40, 0x67, 0x69, 0x74, 0x68, 0x75, 0x62, 0x2e, 0x69, 0x62,
      0x6d, 0x2e, 0x63, 0x6f, 0x6d, 0x2f, 0x61, 0x6c, 0x63, 0x68, 0x65, 0x6d, 0x79, 0x2d, 0x63, 0x6f,
      0x6e, 0x74, 0x61, 0x69, 0x6e, 0x65, 0x72, 0x73, 0x2f, 0x61, 0x72, 0x6d, 0x61, 0x64, 0x61, 0x2d,
      0x73, 0x74, 0x6f, 0x72, 0x61, 0x67, 0x65, 0x2d, 0x73, 0x65, 0x63, 0x72, 0x65, 0x74, 0x2f, 0x70,
      0x72, 0x6f, 0x76, 0x69, 0x64, 0x65, 0x72, 0x62, 0x06, 0x70, 0x72, 0x6f, 0x74, 0x6f, 0x33]"

definition file_provider_proto_goTypes :: "go_type list" where
  "file_provider_proto_goTypes = [PtrProvider, PtrAPIKey]"

definition file_provider_proto_depIdxs :: "32 word list" where
  "file_provider_proto_depIdxs = [0, 0, 1, 1, 2, 0, 0, 0, 0]"

record 'f proto_package =
  File_provider_proto :: "'f option"
  rawDesc :: "byte8 list"
  rawDescOnce :: bool
  rawDescData :: "byte8 list"
  msgTypes :: "message_info list"
  goTypes :: "go_type list"
  depIdxs :: "32 word list"

definition initial_package :: "'f proto_package" where
  "initial_package =
     \<lparr>File_provider_proto = None, rawDesc = file_provider_proto_rawDesc, rawDescOnce = False,
      rawDescData = file_provider_proto_rawDesc,
      msgTypes = replicate 2 \<lparr>Exporter = None, Desc = None\<rparr>,
      goTypes = file_provider_proto_goTypes, depIdxs = file_provider_proto_depIdxs\<rparr>"

definition file_provider_proto_rawDescGZIP :: "('st, 'f) protoimpl \<Rightarrow> 'f proto_package \<Rightarrow> byte8 list \<times> 'f proto_package" where
  "file_provider_proto_rawDescGZIP lib pkg =
     (let pkg' = if rawDescOnce pkg then pkg
                 else pkg\<lparr>rawDescData := CompressGZIP lib (rawDescData pkg), rawDescOnce := True\<rparr>
      in (rawDescData pkg', pkg'))"

definition Provider_Descriptor :: "('st, 'f) protoimpl \<Rightarrow> 'f proto_package \<Rightarrow> (byte8 list \<times> nat list) \<times> 'f proto_package" where
  "Provider_Descriptor lib pkg = (case file_provider_proto_rawDescGZIP lib pkg of (bs, pkg') \<Rightarrow> ((bs, [0]), pkg'))"

definition APIKey_Descriptor :: "('st, 'f) protoimpl \<Rightarrow> 'f proto_package \<Rightarrow> (byte8 list \<times> nat list) \<times> 'f proto_package" where
  "APIKey_Descriptor lib pkg = (case file_provider_proto_rawDescGZIP lib pkg of (bs, pkg') \<Rightarrow> ((bs, [1]), pkg'))"

section \<open>Initialisation\<close>

definition internal_field_at :: "int \<Rightarrow> internal_field option" where
  "internal_field_at i =
     (if i = 0 then Some StateField else if i = 1 then Some SizeCacheField
      else if i = 2 then Some UnknownFieldsField else None)"

definition Provider_Exporter :: exporter where
  "Provider_Exporter v i = (if v = PtrProvider then Inr (internal_field_at i) else Inl TypeAssertion)"

definition APIKey_Exporter :: exporter where
  "APIKey_Exporter v i = (if v = PtrAPIKey then Inr (internal_field_at i) else Inl TypeAssertion)"

definition package_path :: string where
  "package_path = ''github.com/IBM/ibm-csi-common/provider''"

definition builder_of :: "'f proto_package \<Rightarrow> type_builder" where
  "builder_of pkg =
     \<lparr>GoPackagePath = package_path, RawDescriptor = rawDesc pkg, NumEnums = 0, NumMessages = 2, NumExtensions = 0,
      NumServices = 1, GoTypes = goTypes pkg, DependencyIndexes = depIdxs pkg, MessageInfos = msgTypes pkg\<rparr>"

definition set_exporters :: "message_info list \<Rightarrow> message_info list" where
  "set_exporters infos = infos
     [0 := (infos ! 0)\<lparr>Exporter := Some Provider_Exporter\<rparr>,
      1 := (infos ! 1)\<lparr>Exporter := Some APIKey_Exporter\<rparr>]"

text \<open>\<open>None\<close> is a panic of the type builder.\<close>

definition file_provider_proto_init :: "('st, 'f) protoimpl \<Rightarrow> 'f proto_package \<Rightarrow> 'f proto_package option" where
  "file_provider_proto_init lib pkg =
     (if File_provider_proto pkg \<noteq> None then Some pkg
      else
        let pkg1 = if \<not> UnsafeEnabled lib then pkg\<lparr>msgTypes := set_exporters (msgTypes pkg)\<rparr> else pkg
        in (case Build lib (builder_of pkg1) of
              None \<Rightarrow> None
            | Some (out, infos) \<Rightarrow>
                Some (pkg1\<lparr>msgTypes := infos, File_provider_proto := Some out, rawDesc := [], goTypes := [], depIdxs := []\<rparr>)))"

section \<open>What the raw descriptor says\<close>

definition provider_proto :: file_desc where
  "provider_proto =
     \<lparr>proto_name = ''provider.proto'', proto_package = ''provider'',
      proto_messages =
        [\<lparr>message_name = ''Provider'', message_fields = []\<rparr>,
         \<lparr>message_name = ''APIKey'', message_fields =
            [\<lparr>field_name = ''apikey'', field_number = 1, field_label = 1, field_type = 9, json_name = ''apikey''\<rparr>]\<rparr>],
      proto_services =
        [\<lparr>service_name = ''APIKeyProvider'', service_methods =
            [\<lparr>method_name = ''GetVPCAPIKey'', input_type = ''.provider.Provider'', output_type = ''.provider.APIKey''\<rparr>,
             \<lparr>method_name = ''GetContainerAPIKey'', input_type = ''.provider.Provider'', output_type = ''.provider.APIKey''\<rparr>]\<rparr>],
      java_package = ''io.grpc.ibm.storage-secret'', java_outer_classname = ''StorageSecretClass'',
      java_multiple_files = 1,
      go_package = ''github.ibm.com/alchemy-containers/armada-storage-secret/provider'',
      proto_syntax = ''proto3''\<rparr>"

lemmas provider_put_defs = provider_proto_def put_file_desc_def put_message_desc_def put_field_desc_def put_service_desc_def
  put_method_desc_def put_fields_def text_value_def bytes_of_text_def

lemma put_varint_small: "n < 128 \<Longrightarrow> put_varint n = [of_nat n]"
  by (subst put_varint.simps) simp

lemma put_varint_large: "\<not> n < 128 \<Longrightarrow> put_varint n = of_nat (128 + n mod 128) # put_varint (n div 128)"
  by (subst put_varint.simps) simp

lemma raw_is_encoding: "file_provider_proto_rawDesc = put_file_desc provider_proto"
  by (simp add: file_provider_proto_rawDesc_def provider_put_defs put_varint_small put_varint_large)

lemma provider_proto_ok: "file_desc_ok provider_proto"
  by (simp add: file_desc_ok_def message_desc_ok_def field_desc_ok_def service_desc_ok_def method_desc_ok_def fits_def
      file_options_def provider_put_defs put_varint_small put_varint_large)

lemma decode_raw: "get_file_desc file_provider_proto_rawDesc = Some provider_proto"
  unfolding raw_is_encoding by (rule get_put_file_desc [OF provider_proto_ok])

section \<open>What the type builder documents\<close>

text \<open>
  DependencyIndexes holds five lists of indexes into GoTypes: the types of message fields, the
  extendees and the types of extensions, the inputs and the outputs of methods. The offsets of
  their starts follow at the end, in reverse order.
\<close>

definition dependency_start :: "32 word list \<Rightarrow> nat \<Rightarrow> nat" where
  "dependency_start deps i = (if i < 5 then unat (deps ! (length deps - 1 - i)) else length deps - 5)"

definition dependency_list :: "32 word list \<Rightarrow> nat \<Rightarrow> nat list" where
  "dependency_list deps i =
     map unat (take (dependency_start deps (Suc i) - dependency_start deps i) (drop (dependency_start deps i) deps))"

definition full_names :: "file_desc \<Rightarrow> string list" where
  "full_names d = map (\<lambda>m. proto_package d @ ''.'' @ message_name m) (proto_messages d)"

definition all_methods :: "file_desc \<Rightarrow> method_desc list" where
  "all_methods d = concat (map service_methods (proto_services d))"

text \<open>The message of a Go type, by the index its Descriptor and its ProtoReflect use.\<close>

fun message_index :: "go_type \<Rightarrow> nat" where
  "message_index PtrProvider = 0"
| "message_index PtrAPIKey = 1"

text \<open>
  The arguments fit a description without enums and extensions: the counts are right, the
  messages come first among the Go types, in their order, and the types of the methods, which
  a descriptor writes with a leading dot, are what their dependencies resolve to. A field of
  type 11 or 14 would have a dependency of its own.
\<close>

definition builder_fits :: "type_builder \<Rightarrow> file_desc \<Rightarrow> bool" where
  "builder_fits tb d \<longleftrightarrow>
     NumEnums tb = 0 \<and> NumExtensions tb = 0
     \<and> NumMessages tb = length (proto_messages d) \<and> NumServices tb = length (proto_services d)
     \<and> length (MessageInfos tb) = NumMessages tb \<and> distinct (GoTypes tb)
     \<and> map message_index (take (NumMessages tb) (GoTypes tb)) = [0..<NumMessages tb]
     \<and> list_all (\<lambda>m. list_all (\<lambda>f. field_type f \<notin> {11, 14}) (message_fields m)) (proto_messages d)
     \<and> dependency_list (DependencyIndexes tb) 0 = [] \<and> dependency_list (DependencyIndexes tb) 1 = []
     \<and> dependency_list (DependencyIndexes tb) 2 = []
     \<and> map (\<lambda>i. ''.'' @ full_names d ! message_index (GoTypes tb ! i)) (dependency_list (DependencyIndexes tb) 3)
         = map input_type (all_methods d)
     \<and> map (\<lambda>i. ''.'' @ full_names d ! message_index (GoTypes tb ! i)) (dependency_list (DependencyIndexes tb) 4)
         = map output_type (all_methods d)"

text \<open>
  Build succeeds on arguments that fit what the raw descriptor says, its file describes just
  that, and every message info gets the name of its message and keeps its exporter.
\<close>

definition build_contract :: "('st, 'f) protoimpl \<Rightarrow> ('f \<Rightarrow> file_desc) \<Rightarrow> bool" where
  "build_contract lib describes \<longleftrightarrow>
     (\<forall>tb d. get_file_desc (RawDescriptor tb) = Some d \<longrightarrow> builder_fits tb d \<longrightarrow>
        (\<exists>f infos. Build lib tb = Some (f, infos) \<and> describes f = d
           \<and> map Exporter infos = map Exporter (MessageInfos tb) \<and> map Desc infos = map Some (full_names d)))"

text \<open>A zero state has no message info, and one that was stored is loaded.\<close>

definition state_contract :: "('st, 'f) protoimpl \<Rightarrow> bool" where
  "state_contract lib \<longleftrightarrow>
     LoadMessageInfo lib (zeroState lib) = None \<and> (\<forall>st k. LoadMessageInfo lib (StoreMessageInfo lib st k) = Some k)"

section \<open>The package at work\<close>

text \<open>The calls that touch the variables of the package, and their answers.\<close>

datatype package_call = CallInit | CallProviderDescriptor | CallAPIKeyDescriptor

fun package_step :: "('st, 'f) protoimpl \<Rightarrow> package_call \<Rightarrow> 'f proto_package \<Rightarrow> ((byte8 list \<times> nat list) option \<times> 'f proto_package) option" where
  "package_step lib CallInit pkg = map_option (Pair None) (file_provider_proto_init lib pkg)"
| "package_step lib CallProviderDescriptor pkg = Some (case Provider_Descriptor lib pkg of (a, pkg') \<Rightarrow> (Some a, pkg'))"
| "package_step lib CallAPIKeyDescriptor pkg = Some (case APIKey_Descriptor lib pkg of (a, pkg') \<Rightarrow> (Some a, pkg'))"

fun package_run :: "('st, 'f) protoimpl \<Rightarrow> package_call list \<Rightarrow> 'f proto_package \<Rightarrow> ((byte8 list \<times> nat list) option list \<times> 'f proto_package) option" where
  "package_run lib [] pkg = Some ([], pkg)"
| "package_run lib (c # cs) pkg =
     (case package_step lib c pkg of None \<Rightarrow> None
      | Some (a, pkg') \<Rightarrow> map_option (\<lambda>(as, pkg''). (a # as, pkg'')) (package_run lib cs pkg'))"

text \<open>
  The invariant: the data is the raw descriptor or, once it was asked for, its compression, and
  what init takes its arguments from is untouched until init has built the file.
\<close>

definition package_inv :: "('st, 'f) protoimpl \<Rightarrow> ('f \<Rightarrow> file_desc) \<Rightarrow> 'f proto_package \<Rightarrow> bool" where
  "package_inv lib describes pkg \<longleftrightarrow>
     rawDescData pkg = (if rawDescOnce pkg then CompressGZIP lib file_provider_proto_rawDesc else file_provider_proto_rawDesc)
     \<and> (case File_provider_proto pkg of
          None \<Rightarrow> rawDesc pkg = file_provider_proto_rawDesc \<and> goTypes pkg = file_provider_proto_goTypes
            \<and> depIdxs pkg = file_provider_proto_depIdxs \<and> msgTypes pkg = msgTypes (initial_package :: 'f proto_package)
        | Some f \<Rightarrow> describes f = provider_proto
            \<and> map Desc (msgTypes pkg) = [Some ''provider.Provider'', Some ''provider.APIKey'']
            \<and> map Exporter (msgTypes pkg)
                = (if UnsafeEnabled lib then [None, None] else [Some Provider_Exporter, Some APIKey_Exporter]))"

lemma initial_package_inv: "package_inv lib describes initial_package"
  by (simp add: package_inv_def initial_package_def)

lemmas provider_facts = provider_proto_def file_provider_proto_goTypes_def file_provider_proto_depIdxs_def
  full_names_def all_methods_def

lemma provider_dependencies:
  "dependency_list file_provider_proto_depIdxs 0 = []" "dependency_list file_provider_proto_depIdxs 1 = []"
  "dependency_list file_provider_proto_depIdxs 2 = []" "dependency_list file_provider_proto_depIdxs 3 = [0, 0]"
  "dependency_list file_provider_proto_depIdxs 4 = [1, 1]"
  by code_simp+

lemma provider_builder_fits:
  assumes "goTypes pkg = file_provider_proto_goTypes" and "depIdxs pkg = file_provider_proto_depIdxs"
    and "length (msgTypes pkg) = 2"
  shows "builder_fits (builder_of pkg) provider_proto"
proof -
  have "[0..<2] = [0, 1 :: nat]" by code_simp
  then show ?thesis using assms
    by (simp add: builder_fits_def builder_of_def provider_dependencies [simplified])
      (simp add: provider_facts)
qed

lemma init_builds:
  assumes "build_contract lib describes" and "rawDesc pkg = file_provider_proto_rawDesc"
    and "goTypes pkg = file_provider_proto_goTypes" and "depIdxs pkg = file_provider_proto_depIdxs"
    and "length (msgTypes pkg) = 2"
  shows "\<exists>f infos. Build lib (builder_of pkg) = Some (f, infos) \<and> describes f = provider_proto
    \<and> map Exporter infos = map Exporter (msgTypes pkg)
    \<and> map Desc infos = [Some ''provider.Provider'', Some ''provider.APIKey'']"
proof -
  have "get_file_desc (RawDescriptor (builder_of pkg)) = Some provider_proto"
    by (simp add: builder_of_def assms(2) decode_raw)
  moreover have "MessageInfos (builder_of pkg) = msgTypes pkg" by (simp add: builder_of_def)
  moreover have "map Some (full_names provider_proto) = [Some ''provider.Provider'', Some ''provider.APIKey'']"
    by (simp add: provider_facts)
  ultimately show ?thesis
    using assms(1) provider_builder_fits [OF assms(3-5)] unfolding build_contract_def by metis
qed

lemma init_inv:
  assumes "build_contract lib describes" and "package_inv lib describes pkg"
  shows "\<exists>pkg'. file_provider_proto_init lib pkg = Some pkg' \<and> package_inv lib describes pkg' \<and> File_provider_proto pkg' \<noteq> None"
proof (cases "File_provider_proto pkg")
  case (Some f)
  then show ?thesis using assms(2) by (simp add: file_provider_proto_init_def)
next
  case None
  let ?infos = "if UnsafeEnabled lib then msgTypes pkg else set_exporters (msgTypes pkg)"
  let ?pkg = "pkg\<lparr>msgTypes := ?infos\<rparr>"
  have fresh: "rawDesc pkg = file_provider_proto_rawDesc" "goTypes pkg = file_provider_proto_goTypes"
      "depIdxs pkg = file_provider_proto_depIdxs" "msgTypes pkg = replicate 2 \<lparr>Exporter = None, Desc = None\<rparr>"
    using assms(2) None by (simp_all add: package_inv_def initial_package_def)
  have exporters: "map Exporter ?infos
      = (if UnsafeEnabled lib then [None, None] else [Some Provider_Exporter, Some APIKey_Exporter])" and "length ?infos = 2"
    by (simp_all add: fresh(4) set_exporters_def numeral_2_eq_2)
  then obtain f infos where f: "Build lib (builder_of ?pkg) = Some (f, infos)" "describes f = provider_proto"
      "map Exporter infos = map Exporter ?infos" "map Desc infos = [Some ''provider.Provider'', Some ''provider.APIKey'']"
    using init_builds [OF assms(1), of ?pkg] fresh by (auto split: if_splits)
  have "file_provider_proto_init lib pkg
      = Some (?pkg\<lparr>msgTypes := infos, File_provider_proto := Some f, rawDesc := [], goTypes := [], depIdxs := []\<rparr>)"
    using None f(1) by (cases "UnsafeEnabled lib") (simp_all add: file_provider_proto_init_def)
  then show ?thesis using assms(2) f exporters by (simp add: package_inv_def)
qed

text \<open>What each call answers, whatever was called before.\<close>

fun expected_answer :: "('st, 'f) protoimpl \<Rightarrow> package_call \<Rightarrow> (byte8 list \<times> nat list) option" where
  "expected_answer lib CallInit = None"
| "expected_answer lib CallProviderDescriptor = Some (CompressGZIP lib file_provider_proto_rawDesc, [0])"
| "expected_answer lib CallAPIKeyDescriptor = Some (CompressGZIP lib file_provider_proto_rawDesc, [1])"

lemma rawDescGZIP_inv:
  assumes "package_inv lib describes pkg"
  shows "\<exists>pkg'. file_provider_proto_rawDescGZIP lib pkg = (CompressGZIP lib file_provider_proto_rawDesc, pkg')
    \<and> package_inv lib describes pkg' \<and> File_provider_proto pkg' = File_provider_proto pkg"
  using assms by (auto simp: file_provider_proto_rawDescGZIP_def package_inv_def Let_def split: option.splits)

lemma package_step_inv:
  assumes "build_contract lib describes" and "package_inv lib describes pkg"
  shows "\<exists>pkg'. package_step lib c pkg = Some (expected_answer lib c, pkg') \<and> package_inv lib describes pkg'
    \<and> (File_provider_proto pkg' \<noteq> None \<longleftrightarrow> c = CallInit \<or> File_provider_proto pkg \<noteq> None)"
proof (cases c)
  case CallInit
  then show ?thesis using init_inv [OF assms] by auto
next
  case CallProviderDescriptor
  then show ?thesis using rawDescGZIP_inv [OF assms(2)] by (auto simp: Provider_Descriptor_def)
next
  case CallAPIKeyDescriptor
  then show ?thesis using rawDescGZIP_inv [OF assms(2)] by (auto simp: APIKey_Descriptor_def)
qed

lemma package_run_inv:
  assumes "build_contract lib describes" and "package_inv lib describes pkg"
  shows "\<exists>pkg'. package_run lib cs pkg = Some (map (expected_answer lib) cs, pkg') \<and> package_inv lib describes pkg'
    \<and> (File_provider_proto pkg' \<noteq> None \<longleftrightarrow> CallInit \<in> set cs \<or> File_provider_proto pkg \<noteq> None)"
  using assms(2)
proof (induction cs arbitrary: pkg)
  case (Cons c cs)
  obtain pkg1 where step: "package_step lib c pkg = Some (expected_answer lib c, pkg1)" "package_inv lib describes pkg1"
      "File_provider_proto pkg1 \<noteq> None \<longleftrightarrow> c = CallInit \<or> File_provider_proto pkg \<noteq> None"
    using package_step_inv [OF assms(1) Cons.prems] by blast
  then show ?case using Cons.IH [OF step(2)] by auto
qed simp

section \<open>Reflection\<close>

text \<open>The message info behind a view, and the messages whose info is the one of their own type.\<close>

definition view_info :: "('st, 'f) protoimpl \<Rightarrow> ('st, 'c) message option \<Rightarrow> reflect_view \<Rightarrow> nat option" where
  "view_info lib x view = (case view of WrapperView k \<Rightarrow> Some k | StateView \<Rightarrow> Option.bind x (\<lambda>m. LoadMessageInfo lib (state m)))"

definition message_ok :: "('st, 'f) protoimpl \<Rightarrow> nat \<Rightarrow> ('st, 'c) message option \<Rightarrow> bool" where
  "message_ok lib k x \<longleftrightarrow> (case x of None \<Rightarrow> True | Some m \<Rightarrow> LoadMessageInfo lib (state m) \<in> {None, Some k})"

lemma reflect_message_ok:
  assumes "state_contract lib" and "message_ok lib k x" and "reflect_message lib k x = (x', view)"
  shows "view_info lib x' view = Some k" and "message_ok lib k x'" and "map_option contents x' = map_option contents x"
  using assms by (auto simp: state_contract_def message_ok_def reflect_message_def view_info_def split: option.splits if_splits)

lemma reset_message_ok:
  assumes "state_contract lib" and "reset_message lib k zero x = Inr m"
  shows "message_ok lib k (Some m)" and "contents m = zero" and "unknownFields m = []"
  using assms by (auto simp: state_contract_def message_ok_def reset_message_def Let_def split: option.splits if_splits)

text \<open>After init the reflection of a message of each type has the descriptor of that type's message.\<close>

lemma reflection_names_type:
  assumes "package_inv lib describes pkg" and "File_provider_proto pkg \<noteq> None" and "state_contract lib"
    and "message_ok lib 0 x" and "message_ok lib 1 y"
    and "Provider_ProtoReflect lib x = (x', v)" and "APIKey_ProtoReflect lib y = (y', w)"
  shows "map_option (\<lambda>i. Desc (msgTypes pkg ! i)) (view_info lib x' v) = Some (Some ''provider.Provider'')"
    and "map_option (\<lambda>i. Desc (msgTypes pkg ! i)) (view_info lib y' w) = Some (Some ''provider.APIKey'')"
proof -
  have desc: "map Desc (msgTypes pkg) = [Some ''provider.Provider'', Some ''provider.APIKey'']"
    using assms(1,2) by (auto simp: package_inv_def)
  then have "Desc (msgTypes pkg ! 0) = Some ''provider.Provider''" "Desc (msgTypes pkg ! 1) = Some ''provider.APIKey''"
    by (auto simp: map_eq_Cons_conv)
  moreover have "view_info lib x' v = Some 0" "view_info lib y' w = Some 1"
    using reflect_message_ok(1) [OF assms(3,4)] reflect_message_ok(1) [OF assms(3,5)] assms(6,7)
    by (simp_all add: Provider_ProtoReflect_def APIKey_ProtoReflect_def)
  ultimately show "map_option (\<lambda>i. Desc (msgTypes pkg ! i)) (view_info lib x' v) = Some (Some ''provider.Provider'')"
    and "map_option (\<lambda>i. Desc (msgTypes pkg ! i)) (view_info lib y' w) = Some (Some ''provider.APIKey'')"
    by simp_all
qed

section \<open>Properties\<close>

definition rpc_stub :: "APIKey rpc_result \<Rightarrow> APIKey option rpc_result" where
  "rpc_stub r = (case r of (out, Some err) \<Rightarrow> (None, Some err) | (out, None) \<Rightarrow> (Some out, None))"

text \<open>C38: The generated files agree with each other. The raw descriptor of provider.pb.go decodes, by the wire
  format, to the file provider.proto with the messages Provider and APIKey (one optional string field
  apikey, number 1) and one service, whose full name, methods and file are those of the service
  description of provider\_grpc.pb.go, in their order; and each client stub calls the path made of
  the full name and of its method.\<close>

theorem descriptor_names_service:
  "get_file_desc file_provider_proto_rawDesc = Some provider_proto
   \<and> map (\<lambda>s. proto_package provider_proto @ ''.'' @ service_name s) (proto_services provider_proto)
       = [ServiceName APIKeyProvider_serviceDesc]
   \<and> map method_name (all_methods provider_proto) = map fst (Methods APIKeyProvider_serviceDesc)
   \<and> proto_name provider_proto = DescMetadata APIKeyProvider_serviceDesc
   \<and> list_all2 (\<lambda>client m. \<forall>Invoke p. client Invoke p
         = rpc_stub (Invoke (''/'' @ ServiceName APIKeyProvider_serviceDesc @ ''/'' @ method_name m) p \<lparr>Apikey = []\<rparr>))
       [client_GetVPCAPIKey, client_GetContainerAPIKey] (all_methods provider_proto)"
proof -
  have stubs: "client_GetVPCAPIKey Invoke p = rpc_stub (Invoke ''/provider.APIKeyProvider/GetVPCAPIKey'' p \<lparr>Apikey = []\<rparr>)"
    "client_GetContainerAPIKey Invoke p = rpc_stub (Invoke ''/provider.APIKeyProvider/GetContainerAPIKey'' p \<lparr>Apikey = []\<rparr>)"
    for Invoke p
    by (simp_all add: client_GetVPCAPIKey_def client_GetContainerAPIKey_def rpc_stub_def)
  show ?thesis
    by (simp add: decode_raw) (simp add: stubs provider_facts APIKeyProvider_serviceDesc_def)
qed

text \<open>C39: The package variables are used in an order that is safe. Whatever sequence of initialisations and
  calls of Descriptor runs, over a runtime whose type builder accepts arguments that fit the
  descriptor, nothing panics, every Descriptor returns the compression of the whole raw descriptor
  (although init sets rawDesc to nil, and although the data is compressed in place) with the index of
  its message, and once init was called the file describes provider.proto and the message infos
  have the names of the two messages.\<close>

theorem package_descriptor_intact:
  assumes "build_contract lib describes"
  shows "\<exists>pkg. package_run lib calls initial_package = Some (map (expected_answer lib) calls, pkg)
    \<and> (CallInit \<in> set calls \<longrightarrow> map_option describes (File_provider_proto pkg) = Some provider_proto
        \<and> map Desc (msgTypes pkg) = [Some ''provider.Provider'', Some ''provider.APIKey''])"
proof -
  obtain pkg where pkg: "package_run lib calls initial_package = Some (map (expected_answer lib) calls, pkg)"
      "package_inv lib describes pkg" "File_provider_proto pkg \<noteq> None \<longleftrightarrow> CallInit \<in> set calls"
    using package_run_inv [OF assms initial_package_inv, of calls] by (auto simp: initial_package_def)
  then show ?thesis by (auto simp: package_inv_def)
qed

text \<open>A runtime for the witness: the state is the message info itself, Build decodes the raw descriptor.\<close>

definition demo_build :: "type_builder \<Rightarrow> (file_desc \<times> message_info list) option" where
  "demo_build tb = map_option
     (\<lambda>d. (d, map (\<lambda>(i, n). i\<lparr>Desc := Some n\<rparr>) (zip (MessageInfos tb) (full_names d)))) (get_file_desc (RawDescriptor tb))"

definition demo_runtime :: "(nat option, file_desc) protoimpl" where
  "demo_runtime = \<lparr>UnsafeEnabled = True, zeroState = None, StoreMessageInfo = (\<lambda>st k. Some k),
     LoadMessageInfo = (\<lambda>st. st), CompressGZIP = rev, Build = demo_build\<rparr>"

lemma demo_infos:
  "length is = length ns \<Longrightarrow> map Exporter (map (\<lambda>(i, n). i\<lparr>Desc := Some n\<rparr>) (zip is ns)) = map Exporter is
    \<and> map Desc (map (\<lambda>(i, n). i\<lparr>Desc := Some n\<rparr>) (zip is ns)) = map Some ns"
  by (induction "is" ns rule: list_induct2) simp_all

lemma demo_runtime_contract: "build_contract demo_runtime (\<lambda>d. d)"
  unfolding build_contract_def
proof (intro allI impI)
  fix tb d
  assume d: "get_file_desc (RawDescriptor tb) = Some d" and fit: "builder_fits tb d"
  then have "length (MessageInfos tb) = length (full_names d)" by (simp add: builder_fits_def full_names_def)
  from demo_infos [OF this] show "\<exists>f infos. Build demo_runtime tb = Some (f, infos) \<and> f = d
      \<and> map Exporter infos = map Exporter (MessageInfos tb) \<and> map Desc infos = map Some (full_names d)"
    using d by (simp add: demo_runtime_def demo_build_def)
qed

theorem package_descriptor_intact_witness:
  "\<exists>pkg. package_run demo_runtime [CallProviderDescriptor, CallInit, CallAPIKeyDescriptor, CallInit] initial_package
      = Some ([Some (rev file_provider_proto_rawDesc, [0]), None, Some (rev file_provider_proto_rawDesc, [1]), None], pkg)
    \<and> map Desc (msgTypes pkg) = [Some ''provider.Provider'', Some ''provider.APIKey'']"
  using package_descriptor_intact [OF demo_runtime_contract, of "[CallProviderDescriptor, CallInit, CallAPIKeyDescriptor, CallInit]"]
  by (auto simp: demo_runtime_def)

end
