(* ===== verification/LockProgress.thy ===== *)
theory LockProgress
  imports LockSafety Threads
begin

text \<open>
  The calls of Lock and Unlock that are under way end: with no new call, every interleaving of
  the threads is finite, and what is left when nobody can move are calls of Lock for names
  whose Lock has returned to a thread and whose Unlock has not been called.
\<close>

section \<open>Steps left\<close>

definition lock_thread_step :: "tid \<Rightarrow> lock_state \<Rightarrow> lock_state option" where
  "lock_thread_step t st = (case thread_step t st of Moved st' \<Rightarrow> Some st' | _ \<Rightarrow> None)"

lemma lock_thread_step_iff [simp]: "lock_thread_step t st = Some st' \<longleftrightarrow> thread_step t st = Moved st'"
  by (simp add: lock_thread_step_def split: thread_result.split)

text \<open>The steps a call has left, counting its branch that locks.\<close>

fun pc_rank :: "pc \<Rightarrow> nat" where
  "pc_rank Idle = 0"
| "pc_rank (TestEnabled op k) = 7"
| "pc_rank (WaitStoreMux op k) = 6"
| "pc_rank (InitStore op k) = 5"
| "pc_rank (LookupLock op k) = 4"
| "pc_rank (ReturnLock op k) = 3"
| "pc_rank (DeferUnlock op k m) = 2"
| "pc_rank (UseMutex op k m) = 1"

lemma pc_rank_0 [simp]: "pc_rank p = 0 \<longleftrightarrow> p = Idle"
  by (cases p) simp_all

lemma pc_rank_le: "pc_rank p \<le> 7"
  by (cases p) simp_all

lemma thread_step_rank: "thread_step t st = Moved st' \<Longrightarrow> pc_rank (pcs st' t) < pc_rank (pcs st t)"
  by (erule thread_step_Moved_cases) (simp_all add: createMissing_state_fields)

interpretation lock_threads: ranked_threads lock_thread_step "\<lambda>t st. pc_rank (pcs st t)" "lock_reachable e" n
  for e n
  by unfold_locales
    (auto intro: lock_reachable.reach_step lock_step.run thread_step_rank simp: thread_step_others)

section \<open>Quiet states\<close>

lemma quiet_locks: "quiet lock_thread_step st \<longleftrightarrow> (\<forall>t st'. thread_step t st \<noteq> Moved st')"
  by (auto simp: quiet_def lock_thread_step_def split: thread_result.splits)

lemma quiet_blocked:
  assumes "lock_reachable e st" and "quiet lock_thread_step st"
  shows "thread_step t st = Blocked"
  using assms lock_not_crashed [OF assms(1)] by (cases "thread_step t st") (auto simp: quiet_locks)

text \<open>With locking switched off nothing waits.\<close>

lemma quiet_disabled:
  assumes "lock_reachable False st" and "quiet lock_thread_step st"
  shows "pcs st t = Idle"
  using disabled_pc [OF assms(1), of t] quiet_blocked [OF assms, of t]
  by (auto simp: thread_step_def split: if_splits)

lemma quiet_enabled:
  assumes "lock_reachable True st" and "quiet lock_thread_step st" and "pcs st t \<noteq> Idle"
  shows "\<exists>k m u. pcs st t = UseMutex OpLock k m \<and> k \<in> held st u"
proof -
  note wait = lock_blocked [OF assms(1) _ quiet_blocked [OF assms(1,2)]]
  have owner: "\<exists>k m u. pcs st v = UseMutex OpLock k m \<and> owns st u k" if "pcs st v \<noteq> Idle" for v
    using wait [OF that] assms(2) by (auto simp: quiet_locks)
  then obtain k m u where "pcs st t = UseMutex OpLock k m" "owns st u k" using assms(3) by blast
  moreover have "unlocking (pcs st u) \<noteq> Some k"
    using owner [of u] by (cases "pcs st u = Idle") auto
  ultimately show ?thesis by (auto simp: owns_def)
qed

section \<open>Properties\<close>

text \<open>The calls of Lock and Unlock that n threads have under way end: when nobody starts a new
  call, at most seven steps per thread are taken in any order, and every order can be
  continued until every call has returned, but for calls of Lock that wait for a name some
  thread has locked and not begun to unlock (with locking switched off there are none).\<close>

lemma lock_calls_end:
  assumes "lock_reachable e st" and "\<forall>t\<ge>n. pcs st t = Idle"
    and "run_schedule lock_thread_step ts st = Some st1"
  shows "(\<forall>t. count_list ts t \<le> 7) \<and> length ts \<le> 7 * n
    \<and> (\<exists>us st2. run_schedule lock_thread_step us st1 = Some st2
        \<and> (\<forall>t. pcs st2 t = Idle \<or> e \<and> (\<exists>k m u. pcs st2 t = UseMutex OpLock k m \<and> k \<in> held st2 u)))"
proof -
  have good: "lock_reachable e st \<and> (\<forall>t\<ge>n. pc_rank (pcs st t) = 0)" using assms(1,2) by simp
  have "count_list ts t \<le> 7" for t
    using lock_threads.thread_bound [OF assms(3), of t] pc_rank_le [of "pcs st t"] by simp
  moreover have "lock_threads.total n st \<le> (\<Sum>t<n. 7)"
    unfolding lock_threads.total_def by (intro sum_mono pc_rank_le)
  then have "length ts \<le> 7 * n"
    using lock_threads.schedule_bound [OF good assms(3)] by simp
  moreover obtain us st2 where us: "run_schedule lock_thread_step us st1 = Some st2" "quiet lock_thread_step st2"
    using lock_threads.reaches_quiet lock_threads.schedule_good [OF assms(3) good] by blast
  moreover have "\<forall>t. pcs st2 t = Idle \<or> e \<and> (\<exists>k m u. pcs st2 t = UseMutex OpLock k m \<and> k \<in> held st2 u)"
  proof -
    have "lock_reachable e st2"
      using lock_threads.schedule_good [OF us(1) lock_threads.schedule_good [OF assms(3) good]] by blast
    then show ?thesis using quiet_disabled [OF _ us(2)] quiet_enabled [OF _ us(2)] by (metis (full_types))
  qed
  ultimately show ?thesis by blast
qed

lemma lock_calls_end_witness:
  "\<exists>us st2. run_schedule lock_thread_step us one_waiting = Some st2
     \<and> (\<forall>t. pcs st2 t = Idle \<or> (\<exists>k m u. pcs st2 t = UseMutex OpLock k m \<and> k \<in> held st2 u))"
proof -
  have "\<forall>t\<ge>3. pcs one_waiting t = Idle"
    by (simp add: one_waiting_def one_locked_eq numeral_eq_Suc thread_step_def goto_def
        checkAndInitLockStore_def createMissing_def lock_lookup_def)
  from lock_calls_end [OF one_waiting_reachable this, of "[]"] show ?thesis by simp
qed

end
