(* ===== verification/LockClients.thy ===== *)
theory LockClients
  imports LockProgress
begin

text \<open>
  The lock store as its clients use it: every thread runs a script of calls of Lock, calls of
  Unlock and updates of data that the names protect. Any number of threads may ask for the
  same names or for different ones, one at a time or nested. The calls themselves are the
  steps of \<open>thread_step\<close>; an update reads its datum in one step and writes it in another.
  Disciplines of scripts are instances of one locale; they give the completion of all scripts
  and the absence of lost updates, and two concrete systems show what happens without them.
\<close>

declare split_paired_All [simp del] split_paired_Ex [simp del]

section \<open>Clients\<close>

text \<open>
  A client locks a name, unlocks it, or replaces the datum it keeps under a name by a function
  of its value. \<open>loaded\<close> is the value an update has read and not yet used.
\<close>

datatype 'd client_op = CLock lock_key | CUnlock lock_key | CUpdate lock_key "'d \<Rightarrow> 'd"

record 'd clients =
  locks :: lock_state
  script :: "tid \<Rightarrow> 'd client_op list"
  shared :: "lock_key \<Rightarrow> 'd"
  loaded :: "tid \<Rightarrow> 'd option"

definition release :: "tid \<Rightarrow> lock_key \<Rightarrow> lock_state \<Rightarrow> lock_state" where
  "release t k st = goto t (TestEnabled OpUnlock k) (st\<lparr>held := (held st)(t := held st t - {k})\<rparr>)"

fun client_op_step :: "tid \<Rightarrow> 'd client_op \<Rightarrow> 'd client_op list \<Rightarrow> 'd clients \<Rightarrow> 'd clients" where
  "client_op_step t (CLock k) ops s =
     s\<lparr>locks := goto t (TestEnabled OpLock k) (locks s), script := (script s)(t := ops)\<rparr>"
| "client_op_step t (CUnlock k) ops s =
     s\<lparr>locks := release t k (locks s), script := (script s)(t := ops)\<rparr>"
| "client_op_step t (CUpdate k f) ops s =
     (case loaded s t of
        None \<Rightarrow> s\<lparr>loaded := (loaded s)(t := Some (shared s k))\<rparr>
      | Some v \<Rightarrow> s\<lparr>shared := (shared s)(k := f v), loaded := (loaded s)(t := None),
          script := (script s)(t := ops)\<rparr>)"

definition client_step :: "tid \<Rightarrow> 'd clients \<Rightarrow> 'd clients option" where
  "client_step t s =
     (if pcs (locks s) t \<noteq> Idle then map_option (\<lambda>st. s\<lparr>locks := st\<rparr>) (lock_thread_step t (locks s))
      else case script s t of
        [] \<Rightarrow> None
      | op # ops \<Rightarrow> Some (client_op_step t op ops s))"

definition clients_init ::
    "bool \<Rightarrow> (lock_key \<Rightarrow> 'd) \<Rightarrow> (tid \<Rightarrow> 'd client_op list) \<Rightarrow> 'd clients" where
  "clients_init enabled d scripts =
     \<lparr>locks = init_locks enabled, script = scripts, shared = d, loaded = (\<lambda>t. None)\<rparr>"

lemma clients_init_fields [simp]:
  "script (clients_init e d scripts) = scripts" "shared (clients_init e d scripts) = d"
  "loaded (clients_init e d scripts) t = None" "locks (clients_init e d scripts) = init_locks e"
  "pcs (init_locks e) t = Idle" "held (init_locks e) t = {}"
  by (simp_all add: clients_init_def init_locks_def)

lemma release_fields [simp]:
  "pcs (release t k st) = (pcs st)(t := TestEnabled OpUnlock k)"
  "held (release t k st) = (held st)(t := held st t - {k})"
  by (simp_all add: release_def)

lemma client_step_cases:
  assumes "client_step t s = Some s'"
  obtains (call) st where "pcs (locks s) t \<noteq> Idle" "thread_step t (locks s) = Moved st" "s' = s\<lparr>locks := st\<rparr>"
  | (lock) k ops where "pcs (locks s) t = Idle" "script s t = CLock k # ops"
      "s' = s\<lparr>locks := goto t (TestEnabled OpLock k) (locks s), script := (script s)(t := ops)\<rparr>"
  | (unlock) k ops where "pcs (locks s) t = Idle" "script s t = CUnlock k # ops"
      "s' = s\<lparr>locks := release t k (locks s), script := (script s)(t := ops)\<rparr>"
  | (load) k f ops where "pcs (locks s) t = Idle" "script s t = CUpdate k f # ops" "loaded s t = None"
      "s' = s\<lparr>loaded := (loaded s)(t := Some (shared s k))\<rparr>"
  | (put) k f ops v where "pcs (locks s) t = Idle" "script s t = CUpdate k f # ops" "loaded s t = Some v"
      "s' = s\<lparr>shared := (shared s)(k := f v), loaded := (loaded s)(t := None), script := (script s)(t := ops)\<rparr>"
proof (cases "pcs (locks s) t = Idle")
  case True
  then obtain op ops where "script s t = op # ops" and "s' = client_op_step t op ops s"
    using assms by (auto simp: client_step_def split: list.splits)
  with True show ?thesis
    by (cases op; cases "loaded s t") (auto intro: lock unlock load put)
next
  case False
  then show ?thesis using assms by (auto simp: client_step_def intro: call)
qed

text \<open>Between two calls only a thread whose script is done has no step.\<close>

lemma idle_client_moves: "pcs (locks s) t = Idle \<Longrightarrow> client_step t s = None \<longleftrightarrow> script s t = []"
  by (simp add: client_step_def split: list.splits)

section \<open>The names a client has asked for\<close>

text \<open>The operation and the name of a call.\<close>

fun call_of :: "pc \<Rightarrow> (lock_op \<times> lock_key) option" where
  "call_of Idle = None"
| "call_of (TestEnabled op k) = Some (op, k)"
| "call_of (WaitStoreMux op k) = Some (op, k)"
| "call_of (InitStore op k) = Some (op, k)"
| "call_of (LookupLock op k) = Some (op, k)"
| "call_of (ReturnLock op k) = Some (op, k)"
| "call_of (DeferUnlock op k m) = Some (op, k)"
| "call_of (UseMutex op k m) = Some (op, k)"

lemma call_of_None [simp]: "call_of p = None \<longleftrightarrow> p = Idle"
  by (cases p) simp_all

text \<open>A step inside a call keeps the call, or ends it; the end of Lock adds the name.\<close>

lemma thread_step_call:
  assumes "thread_step t st = Moved st'" and "call_of (pcs st t) = Some (op, k)"
  shows "(\<forall>u. u \<noteq> t \<longrightarrow> held st' u = held st u)
    \<and> (call_of (pcs st' t) = Some (op, k) \<and> held st' t = held st t
       \<or> pcs st' t = Idle \<and> held st' t = (case op of OpLock \<Rightarrow> insert k (held st t) | OpUnlock \<Rightarrow> held st t))"
  using assms(1)
  by (cases rule: thread_step_Moved_cases)
    (use assms(2) in \<open>auto simp: createMissing_state_fields return_disabled_def split: lock_op.splits\<close>)

text \<open>What a thread holds once the call it is in has returned.\<close>

definition session :: "'d clients \<Rightarrow> tid \<Rightarrow> lock_key set" where
  "session s t =
     (case call_of (pcs (locks s) t) of
        Some (OpLock, k) \<Rightarrow> insert k (held (locks s) t)
      | _ \<Rightarrow> held (locks s) t)"

lemma session_idle [simp]: "pcs (locks s) t = Idle \<Longrightarrow> session s t = held (locks s) t"
  by (simp add: session_def)

lemma held_session: "held (locks s) t \<subseteq> session s t"
  by (auto simp: session_def split: option.splits lock_op.splits)

lemma client_step_others:
  assumes "client_step t s = Some s'" and "u \<noteq> t"
  shows "pcs (locks s') u = pcs (locks s) u" and "held (locks s') u = held (locks s) u"
    and "session s' u = session s u" and "script s' u = script s u" and "loaded s' u = loaded s u"
proof -
  show p: "pcs (locks s') u = pcs (locks s) u"
    using assms by (cases rule: client_step_cases) (auto simp: thread_step_others)
  show h: "held (locks s') u = held (locks s) u"
    using assms(1)
  proof (cases rule: client_step_cases)
    case (call st)
    then obtain op k where "call_of (pcs (locks s) t) = Some (op, k)"
      by (cases "call_of (pcs (locks s) t)") auto
    from thread_step_call [OF call(2) this] show ?thesis using assms(2) call(3) by simp
  qed (use assms(2) in auto)
  show "session s' u = session s u" by (simp only: session_def p h)
  show "script s' u = script s u" "loaded s' u = loaded s u"
    using assms by (cases rule: client_step_cases; auto)+
qed

lemma session_call:
  assumes "thread_step t (locks s) = Moved st" and "pcs (locks s) t \<noteq> Idle"
  shows "session (s\<lparr>locks := st\<rparr>) t = session s t"
proof -
  obtain op k where c: "call_of (pcs (locks s) t) = Some (op, k)"
    using assms(2) by (cases "call_of (pcs (locks s) t)") auto
  show ?thesis using thread_step_call [OF assms(1) c] c by (cases op) (auto simp: session_def)
qed

section \<open>Disciplines\<close>

text \<open>
  A discipline says of the names a thread holds and of the rest of its script that they fit,
  and it goes on to fit after every operation.
\<close>

locale script_discipline =
  fixes fits :: "lock_key set \<Rightarrow> 'd client_op list \<Rightarrow> bool"
  assumes fits_lock: "fits hs (CLock k # ops) \<Longrightarrow> fits (insert k hs) ops"
    and fits_unlock: "fits hs (CUnlock k # ops) \<Longrightarrow> fits (hs - {k}) ops"
    and fits_update: "fits hs (CUpdate k f # ops) \<Longrightarrow> fits hs ops"
begin

lemma session_fits:
  assumes "client_step t s = Some s'" and "\<forall>u. fits (session s u) (script s u)"
  shows "fits (session s' u) (script s' u)"
proof (cases "u = t")
  case False
  then show ?thesis using assms(2) client_step_others [OF assms(1) False] by simp
next
  case True
  have fit: "fits (session s t) (script s t)" using assms(2) by blast
  from assms(1) have "fits (session s' t) (script s' t)"
  proof (cases rule: client_step_cases)
    case (call st)
    then show ?thesis using fit session_call [OF call(2,1)] by simp
  next
    case (lock k ops)
    then show ?thesis using fit fits_lock by (simp add: session_def)
  next
    case (unlock k ops)
    then show ?thesis using fit fits_unlock by (simp add: session_def)
  qed (use fit fits_update in \<open>auto simp: session_def\<close>)
  then show ?thesis by (simp add: True)
qed

end

text \<open>Guarded: only names that are held are unlocked, and their data updated.\<close>

fun guarded :: "lock_key set \<Rightarrow> 'd client_op list \<Rightarrow> bool" where
  "guarded hs [] = True"
| "guarded hs (CLock k # ops) = guarded (insert k hs) ops"
| "guarded hs (CUnlock k # ops) = (k \<in> hs \<and> guarded (hs - {k}) ops)"
| "guarded hs (CUpdate k f # ops) = (k \<in> hs \<and> guarded hs ops)"

text \<open>Ordered: a name is locked only above all names held, and at the end none is held.\<close>

fun ordered :: "(lock_key \<Rightarrow> nat) \<Rightarrow> lock_key set \<Rightarrow> 'd client_op list \<Rightarrow> bool" where
  "ordered ord hs [] = (hs = {})"
| "ordered ord hs (CLock k # ops) = ((\<forall>j\<in>hs. ord j < ord k) \<and> ordered ord (insert k hs) ops)"
| "ordered ord hs (CUnlock k # ops) = ordered ord (hs - {k}) ops"
| "ordered ord hs (CUpdate k f # ops) = ordered ord hs ops"

interpretation guarded_scripts: script_discipline guarded
  by unfold_locales simp_all

interpretation ordered_scripts: script_discipline "ordered ord" for ord
  by unfold_locales simp_all

section \<open>The invariant of guarded clients\<close>

text \<open>
  Every thread's script fits what it holds, and a value that was loaded is that of the update
  at the head of the script; with locking enabled it is still the current one.
\<close>

definition loaded_ok :: "bool \<Rightarrow> 'd clients \<Rightarrow> tid \<Rightarrow> bool" where
  "loaded_ok e s t \<longleftrightarrow>
     (\<forall>v. loaded s t = Some v \<longrightarrow> pcs (locks s) t = Idle
        \<and> (\<exists>k f ops. script s t = CUpdate k f # ops \<and> (e \<longrightarrow> v = shared s k)))"

definition guarded_inv :: "bool \<Rightarrow> 'd clients \<Rightarrow> bool" where
  "guarded_inv e s \<longleftrightarrow> lock_reachable e (locks s)
     \<and> (\<forall>t. guarded (session s t) (script s t)) \<and> (\<forall>t. loaded_ok e s t)"

lemma guarded_invD:
  assumes "guarded_inv e s"
  shows "lock_reachable e (locks s)" and "guarded (session s t) (script s t)"
    and "loaded s t = Some v \<Longrightarrow> pcs (locks s) t = Idle"
    and "loaded s t = Some v \<Longrightarrow> script s t = CUpdate k f # ops \<Longrightarrow> e \<Longrightarrow> v = shared s k"
  using assms by (force simp: guarded_inv_def loaded_ok_def)+

lemma client_step_reachable:
  assumes "client_step t s = Some s'" and "guarded_inv e s"
  shows "lock_reachable e (locks s')"
  using assms(1)
proof (cases rule: client_step_cases)
  case (call st)
  then show ?thesis
    using lock_reachable.reach_step [OF guarded_invD(1) [OF assms(2)] lock_step.run [OF call(2)]] by simp
next
  case (lock k ops)
  then show ?thesis
    using lock_reachable.reach_step [OF guarded_invD(1) [OF assms(2)] lock_step.call_lock [OF lock(1)]] by simp
next
  case (unlock k ops)
  then have "k \<in> held (locks s) t" using guarded_invD(2) [OF assms(2), of t] by simp
  then have "lock_step (locks s) (release t k (locks s))"
    unfolding release_def by (rule lock_step.call_unlock [OF unlock(1)])
  then show ?thesis
    using lock_reachable.reach_step [OF guarded_invD(1) [OF assms(2)]] unlock(3) by simp
qed (use guarded_invD(1) [OF assms(2)] in simp_all)

text \<open>The datum of a name that is held is written by no other thread, nor is one that was loaded.\<close>

lemma held_data_stable:
  assumes "guarded_inv True s" and "client_step t s = Some s'" and "u \<noteq> t" and "k \<in> held (locks s) u"
  shows "shared s' k = shared s k"
  using assms(2)
proof (cases rule: client_step_cases)
  case (put j g rest w)
  have "j \<in> held (locks s) t" using guarded_invD(2) [OF assms(1), of t] put(1,2) by simp
  moreover have "owner_inv (locks s)" using reachableD(4) [OF guarded_invD(1) [OF assms(1)]] by simp
  ultimately have "k \<noteq> j" using owner_invD(2) [of "locks s" u j t] assms(3,4) by (auto simp: owns_def)
  then show ?thesis using put(4) by simp
qed simp_all

lemma loaded_data_stable:
  assumes "guarded_inv True s" and "client_step t s = Some s'" and "u \<noteq> t"
    and "loaded s u = Some v" and "script s u = CUpdate k f # ops"
  shows "shared s' k = shared s k"
proof (rule held_data_stable [OF assms(1-3)])
  have "pcs (locks s) u = Idle" using assms(1,4) by (rule guarded_invD(3))
  then show "k \<in> held (locks s) u" using guarded_invD(2) [OF assms(1), of u] assms(5) by simp
qed

lemma client_step_loaded_ok:
  assumes "client_step t s = Some s'" and inv: "guarded_inv e s"
  shows "loaded_ok e s' u"
proof (cases "u = t")
  case True
  have "loaded_ok e s t" using inv by (simp add: guarded_inv_def)
  with assms(1) have "loaded_ok e s' t" by (cases rule: client_step_cases) (auto simp: loaded_ok_def)
  then show ?thesis by (simp add: True)
next
  case False
  note same = client_step_others [OF assms(1) False]
  have "loaded_ok e s u" using inv by (simp add: guarded_inv_def)
  moreover have "e \<Longrightarrow> loaded s u = Some v \<Longrightarrow> script s u = CUpdate k f # ops \<Longrightarrow> shared s' k = shared s k"
    for v k f ops using loaded_data_stable [OF _ assms(1) False] inv by (cases e) auto
  ultimately show ?thesis by (fastforce simp: loaded_ok_def same)
qed

lemma guarded_inv_step: "guarded_inv e s \<Longrightarrow> client_step t s = Some s' \<Longrightarrow> guarded_inv e s'"
  using client_step_reachable [of t s s' e] client_step_loaded_ok [of t s s' e] guarded_scripts.session_fits [of t s s']
  by (auto simp: guarded_inv_def)

lemma guarded_inv_init: "\<forall>t. guarded {} (scripts t) \<Longrightarrow> guarded_inv e (clients_init e d scripts)"
  by (simp add: guarded_inv_def loaded_ok_def lock_reachable.reach_init)

section \<open>Ordered clients go on\<close>

text \<open>A call of Lock under way asks for a name above all names its thread holds.\<close>

definition ordered_inv :: "(lock_key \<Rightarrow> nat) \<Rightarrow> 'd clients \<Rightarrow> bool" where
  "ordered_inv ord s \<longleftrightarrow> (\<forall>t. ordered ord (session s t) (script s t))
     \<and> (\<forall>t k. call_of (pcs (locks s) t) = Some (OpLock, k) \<longrightarrow> (\<forall>j\<in>held (locks s) t. ord j < ord k))"

lemma ordered_invD:
  assumes "ordered_inv ord s"
  shows "ordered ord (session s t) (script s t)"
    and "call_of (pcs (locks s) t) = Some (OpLock, k) \<Longrightarrow> j \<in> held (locks s) t \<Longrightarrow> ord j < ord k"
  using assms unfolding ordered_inv_def by blast+

lemma client_step_waits_upward:
  assumes "client_step t s = Some s'" and "ordered_inv ord s"
    and "call_of (pcs (locks s') u) = Some (OpLock, k)" and "j \<in> held (locks s') u"
  shows "ord j < ord k"
proof (cases "u = t")
  case False
  then show ?thesis using client_step_others [OF assms(1) False] assms(2-4) by (auto simp: ordered_inv_def)
next
  case True
  note assms(3,4) [unfolded True]
  with assms(1) show ?thesis
  proof (cases rule: client_step_cases)
    case (call st)
    obtain op k' where c: "call_of (pcs (locks s) t) = Some (op, k')"
      using call(1) by (cases "call_of (pcs (locks s) t)") auto
    then show ?thesis
      using thread_step_call [OF call(2) c] assms(2-4) call(3) True by (auto simp: ordered_inv_def)
  next
    case (lock k' ops)
    have "ordered ord (held (locks s) t) (CLock k' # ops)"
      using ordered_invD(1) [OF assms(2), of t] lock(1,2) by simp
    then show ?thesis using assms(3,4) lock(3) True by simp
  qed (use assms(3,4) True in auto)
qed

lemma ordered_inv_step: "ordered_inv ord s \<Longrightarrow> client_step t s = Some s' \<Longrightarrow> ordered_inv ord s'"
  using client_step_waits_upward [of t s s' ord] ordered_scripts.session_fits [of t s s' ord]
  by (auto simp: ordered_inv_def)

lemma ordered_inv_init: "\<forall>t. ordered ord {} (scripts t) \<Longrightarrow> ordered_inv ord (clients_init e d scripts)"
  by (simp add: ordered_inv_def)

text \<open>The steps a script takes: a call has at most seven after the step that makes it.\<close>

fun script_steps :: "bool \<Rightarrow> 'd client_op list \<Rightarrow> nat" where
  "script_steps l [] = 0"
| "script_steps l (CLock k # ops) = 8 + script_steps False ops"
| "script_steps l (CUnlock k # ops) = 8 + script_steps False ops"
| "script_steps l (CUpdate k f # ops) = (if l then 1 else 2) + script_steps False ops"

lemma script_steps_loaded: "script_steps l ops \<le> script_steps False ops"
  by (cases "(l, ops)" rule: script_steps.cases) simp_all

lemma script_steps_0 [simp]: "script_steps l ops = 0 \<longleftrightarrow> ops = []"
  by (cases "(l, ops)" rule: script_steps.cases) simp_all

definition client_rank :: "tid \<Rightarrow> 'd clients \<Rightarrow> nat" where
  "client_rank t s = pc_rank (pcs (locks s) t) + script_steps (loaded s t \<noteq> None) (script s t)"

lemma client_rank_0: "client_rank t s = 0 \<longleftrightarrow> pcs (locks s) t = Idle \<and> script s t = []"
  by (simp add: client_rank_def)

lemma client_step_rank:
  assumes "client_step t s = Some s'"
  shows "client_rank t s' < client_rank t s"
  using assms script_steps_loaded [of "\<exists>y. loaded s t = Some y" "script s' t"]
  by (cases rule: client_step_cases) (auto simp: client_rank_def dest: thread_step_rank)

lemma client_step_rank_other: "client_step t s = Some s' \<Longrightarrow> u \<noteq> t \<Longrightarrow> client_rank u s' = client_rank u s"
  by (simp add: client_rank_def client_step_others)

lemma client_rank_beyond:
  assumes "client_step t s = Some s'" and "\<forall>u\<ge>n. client_rank u s = 0"
  shows "\<forall>u\<ge>n. client_rank u s' = 0"
  using client_step_rank [OF assms(1)] client_step_rank_other [OF assms(1)] assms(2)
  by (metis less_nat_zero_code)

lemma no_ascent:
  fixes f :: "'a \<Rightarrow> nat"
  assumes "finite W" and "w \<in> W" and "\<And>u. u \<in> W \<Longrightarrow> \<exists>v\<in>W. f u < f v"
  shows False
proof -
  have "Max (f ` W) \<in> f ` W" using assms(1,2) by (intro Max_in) auto
  then obtain u where u: "u \<in> W" "f u = Max (f ` W)" by force
  then obtain v where "v \<in> W" "f u < f v" using assms(3) by blast
  moreover have "f v \<le> Max (f ` W)" using \<open>v \<in> W\<close> assms(1) by (intro Max_ge) auto
  ultimately show False using u(2) by simp
qed

text \<open>
  Where nobody can move, the threads that wait would each hold up one that waits for a name
  above theirs; there are finitely many, so nobody waits.
\<close>

lemma ordered_clients_progress:
  assumes "guarded_inv e s" and "ordered_inv ord s" and few: "\<forall>u\<ge>n. client_rank u s = 0"
    and "client_rank t s \<noteq> 0"
  shows "\<exists>u s'. client_step u s = Some s'"
proof (rule ccontr)
  assume "\<not> (\<exists>u s'. client_step u s = Some s')"
  then have none: "client_step u s = None" for u by (cases "client_step u s") auto
  then have idle: "script s u = []" if "pcs (locks s) u = Idle" for u using idle_client_moves that by blast
  then have "pcs (locks s) t \<noteq> Idle" using assms(4) by (auto simp: client_rank_0)
  have "lock_thread_step u (locks s) = None" for u
    using none [of u]
    by (cases "pcs (locks s) u = Idle") (simp_all add: client_step_def lock_thread_step_def thread_step_def)
  then have quiet: "quiet lock_thread_step (locks s)" by (simp add: quiet_def)
  note reach = guarded_invD(1) [OF assms(1)]
  have e
  proof (rule ccontr)
    assume "\<not> e"
    then have "lock_reachable False (locks s)" using reach by simp
    from quiet_disabled [OF this quiet] show False using \<open>pcs (locks s) t \<noteq> Idle\<close> by simp
  qed
  have above: "\<exists>v k'. pcs (locks s) v \<noteq> Idle \<and> call_of (pcs (locks s) v) = Some (OpLock, k') \<and> ord k < ord k'"
    if "pcs (locks s) u = UseMutex OpLock k m" and "k \<in> held (locks s) v" for u k m v
  proof -
    have "ordered ord (session s v) (script s v)" using assms(2) by (rule ordered_invD(1))
    then have "pcs (locks s) v \<noteq> Idle" using idle [of v] that(2) by auto
    then obtain k' m' where k': "pcs (locks s) v = UseMutex OpLock k' m'"
      using quiet_enabled [OF _ quiet, of v] reach \<open>e\<close> by auto
    then have "ord k < ord k'" using ordered_invD(2) [OF assms(2), of v k' k] that(2) by simp
    then show ?thesis using k' by (intro exI [of _ v] exI [of _ k']) simp
  qed
  let ?wanted = "\<lambda>u. ord (snd (the (call_of (pcs (locks s) u))))"
  have "\<exists>v\<in>{u. pcs (locks s) u \<noteq> Idle}. ?wanted u < ?wanted v" if "u \<in> {u. pcs (locks s) u \<noteq> Idle}" for u
  proof -
    obtain k m v where k: "pcs (locks s) u = UseMutex OpLock k m" "k \<in> held (locks s) v"
      using quiet_enabled [OF _ quiet, of u] reach \<open>e\<close> \<open>u \<in> _\<close> by auto
    from above [OF this] k(1) show ?thesis by force
  qed
  moreover have "{u. pcs (locks s) u \<noteq> Idle} \<subseteq> {..<n}"
    using few by (auto simp: client_rank_0 not_less [symmetric])
  then have "finite {u. pcs (locks s) u \<noteq> Idle}" by (rule finite_subset) simp
  ultimately show False
    using no_ascent [of "{u. pcs (locks s) u \<noteq> Idle}" t ?wanted] \<open>pcs (locks s) t \<noteq> Idle\<close> by blast
qed

definition ordered_system :: "bool \<Rightarrow> (lock_key \<Rightarrow> nat) \<Rightarrow> nat \<Rightarrow> 'd clients \<Rightarrow> bool" where
  "ordered_system e ord n s \<longleftrightarrow> guarded_inv e s \<and> ordered_inv ord s \<and> (\<forall>u\<ge>n. client_rank u s = 0)"

interpretation lock_clients: live_ranked_threads client_step client_rank "ordered_system e ord n" n
  for e ord n
proof unfold_locales
  show "ordered_system e ord n s'" if "ordered_system e ord n s" and "client_step t s = Some s'" for t s s'
    using that guarded_inv_step ordered_inv_step client_rank_beyond [of t s s' n]
    by (auto simp: ordered_system_def)
  show "\<exists>u s'. client_step u s = Some s'" if "ordered_system e ord n s" and "client_rank t s \<noteq> 0" for t s
    using that ordered_clients_progress [of e s ord n t] by (simp add: ordered_system_def)
qed (auto intro: client_step_rank client_step_rank_other)

section \<open>Sequential histories\<close>

text \<open>The updates of a script in order, the updates of a thread in a log, and the effect of a log.\<close>

fun updates_of :: "'d client_op list \<Rightarrow> (lock_key \<times> ('d \<Rightarrow> 'd)) list" where
  "updates_of [] = []"
| "updates_of (CUpdate k f # ops) = (k, f) # updates_of ops"
| "updates_of (CLock k # ops) = updates_of ops"
| "updates_of (CUnlock k # ops) = updates_of ops"

definition logged_by :: "tid \<Rightarrow> (tid \<times> lock_key \<times> ('d \<Rightarrow> 'd)) list \<Rightarrow> (lock_key \<times> ('d \<Rightarrow> 'd)) list" where
  "logged_by t log = map snd (filter (\<lambda>e. fst e = t) log)"

fun apply_update :: "tid \<times> lock_key \<times> ('d \<Rightarrow> 'd) \<Rightarrow> (lock_key \<Rightarrow> 'd) \<Rightarrow> lock_key \<Rightarrow> 'd" where
  "apply_update (t, k, f) d = d(k := f (d k))"

definition sequential ::
    "(lock_key \<Rightarrow> 'd) \<Rightarrow> (tid \<Rightarrow> 'd client_op list) \<Rightarrow> 'd clients \<Rightarrow> bool" where
  "sequential d scripts s \<longleftrightarrow>
     (\<exists>log. (\<forall>t. logged_by t log @ updates_of (script s t) = updates_of (scripts t))
        \<and> shared s = fold apply_update log d)"

lemma sequential_init: "sequential d scripts (clients_init e d scripts)"
  unfolding sequential_def by (rule exI [of _ "[]"]) (simp add: logged_by_def)

lemma sequential_same:
  assumes "sequential d scripts s" and "\<And>u. updates_of (script s' u) = updates_of (script s u)"
    and "shared s' = shared s"
  shows "sequential d scripts s'"
  using assms by (simp add: sequential_def)

lemma sequential_step:
  assumes "guarded_inv True s" and "sequential d scripts s" and "client_step t s = Some s'"
  shows "sequential d scripts s'"
  using assms(3)
proof (cases rule: client_step_cases)
  case (put k f ops v)
  have v: "v = shared s k" using guarded_invD(4) [OF assms(1) put(3,2)] by simp
  obtain log where log: "\<And>u. logged_by u log @ updates_of (script s u) = updates_of (scripts u)"
    and d: "shared s = fold apply_update log d" using assms(2) by (auto simp: sequential_def)
  have "logged_by u (log @ [(t, k, f)]) @ updates_of (script s' u) = updates_of (scripts u)" for u
    using log [of u] put(2,4) by (auto simp: logged_by_def)
  moreover have "shared s' = fold apply_update (log @ [(t, k, f)]) d"
    using put(4) by (simp add: v d)
  ultimately show ?thesis unfolding sequential_def by blast
qed (auto intro: sequential_same [OF assms(2)])

lemma guarded_runs_sequential:
  assumes "\<forall>t. guarded {} (scripts t)" and "run_schedule client_step ts (clients_init True d scripts) = Some s"
  shows "guarded_inv True s \<and> sequential d scripts s"
  using assms(2)
proof (rule run_schedule_induct)
  show "guarded_inv True (clients_init True d scripts) \<and> sequential d scripts (clients_init True d scripts)"
    using guarded_inv_init [OF assms(1)] sequential_init by blast
qed (auto intro: guarded_inv_step sequential_step)

section \<open>The end of the scripts\<close>

lemma ordered_system_init:
  assumes "\<forall>t. guarded {} (scripts t)" and "\<forall>t. ordered ord {} (scripts t)" and "\<forall>t\<ge>n. scripts t = []"
  shows "ordered_system e ord n (clients_init e d scripts)"
  using guarded_inv_init [OF assms(1)] ordered_inv_init [OF assms(2)] assms(3)
  by (simp add: ordered_system_def client_rank_0)

lemma ordered_system_finished:
  assumes "ordered_system e ord n s" and "\<forall>t. client_rank t s = 0"
  shows "script s t = [] \<and> pcs (locks s) t = Idle \<and> held (locks s) t = {}" and "e \<Longrightarrow> \<not> locked (locks s) k"
proof -
  have idle: "script s u = [] \<and> pcs (locks s) u = Idle" for u using assms(2) by (simp add: client_rank_0)
  moreover have "ordered ord (session s u) (script s u)" for u
    using assms(1) by (simp add: ordered_system_def ordered_inv_def)
  ultimately have free: "held (locks s) u = {}" for u by (metis ordered.simps(1) session_idle)
  then show "script s t = [] \<and> pcs (locks s) t = Idle \<and> held (locks s) t = {}" using idle by simp
  assume e
  then have "owner_inv (locks s)"
    using assms(1) reachableD(4) by (simp add: ordered_system_def guarded_inv_def)
  then show "\<not> locked (locks s) k" using free idle by (auto simp: owner_inv_def owns_def)
qed

lemma ordered_clients_end:
  assumes "\<forall>t. guarded {} (scripts t)" and "\<forall>t. ordered ord {} (scripts t)" and "\<forall>t\<ge>n. scripts t = []"
    and "run_schedule client_step ts (clients_init e d scripts) = Some s"
  shows "length ts \<le> (\<Sum>t<n. script_steps False (scripts t))
    \<and> (\<exists>us s'. run_schedule client_step us s = Some s'
        \<and> (\<forall>t. script s' t = [] \<and> pcs (locks s') t = Idle \<and> held (locks s') t = {})
        \<and> (e \<longrightarrow> (\<forall>k. \<not> locked (locks s') k)
            \<and> (\<exists>log. (\<forall>t. logged_by t log = updates_of (scripts t)) \<and> shared s' = fold apply_update log d)))"
proof -
  have good: "ordered_system e ord n (clients_init e d scripts) \<and> (\<forall>t\<ge>n. client_rank t (clients_init e d scripts) = 0)"
    using ordered_system_init [OF assms(1-3)] assms(3) by (simp add: client_rank_0)
  have "lock_clients.total n (clients_init e d scripts) = (\<Sum>t<n. script_steps False (scripts t))"
    by (simp add: lock_clients.total_def client_rank_def)
  then have "length ts \<le> (\<Sum>t<n. script_steps False (scripts t))"
    using lock_clients.schedule_bound [OF good assms(4)] by simp
  moreover obtain us s' where run: "run_schedule client_step (ts @ us) (clients_init e d scripts) = Some s'"
    and finished: "\<forall>t. client_rank t s' = 0"
    using lock_clients.all_finish [OF good assms(4)] by blast
  moreover have "run_schedule client_step us s = Some s'" using run assms(4) by (simp add: run_schedule_append)
  moreover have "ordered_system e ord n s'" using lock_clients.schedule_good [OF run good] by blast
  note end_of = ordered_system_finished [OF this finished]
  moreover have "\<exists>log. (\<forall>t. logged_by t log = updates_of (scripts t)) \<and> shared s' = fold apply_update log d" if e
  proof -
    have "sequential d scripts s'" using guarded_runs_sequential [OF assms(1), of "ts @ us" d s'] run that by simp
    then show ?thesis using end_of(1) by (simp add: sequential_def)
  qed
  ultimately show ?thesis by blast
qed

section \<open>Properties\<close>

text \<open>C5: lock ordering makes the store free of deadlock and starvation: clients that lock names
  in ascending order of some ranking, as many at once as they like, and unlock them all again
  finish whatever the order in which n threads run. Every run is bounded by the steps of the
  scripts, and can be completed until every script is done, every call has returned, no mutex
  is left locked and the data are those of a sequential history of all updates.\<close>

theorem ordered_clients_complete:
  assumes "\<forall>t. guarded {} (scripts t)" and "\<forall>t. ordered ord {} (scripts t)" and "\<forall>t\<ge>n. scripts t = []"
    and "run_schedule client_step ts (clients_init e d scripts) = Some s"
  shows "length ts \<le> (\<Sum>t<n. script_steps False (scripts t))
    \<and> (\<exists>us s'. run_schedule client_step us s = Some s'
        \<and> (\<forall>t. script s' t = [] \<and> pcs (locks s') t = Idle \<and> held (locks s') t = {})
        \<and> (e \<longrightarrow> (\<forall>k. \<not> locked (locks s') k)
            \<and> (\<exists>log. (\<forall>t. logged_by t log = updates_of (scripts t)) \<and> shared s' = fold apply_update log d)))"
  by (rule ordered_clients_end [OF assms])

text \<open>The systems below run on concrete schedules; these definitions evaluate them.\<close>

lemmas client_run_defs = clients_init_def init_locks_def client_step_def lock_thread_step_def
  thread_step_def goto_def hold_def createMissing_def checkAndInitLockStore_def lock_lookup_def

text \<open>Two threads that move a unit from one account to another, each locking both in name order.\<close>

definition transfers :: "tid \<Rightarrow> int client_op list" where
  "transfers t =
     (if t < 2 then [CLock (0, ''a''), CLock (0, ''b''), CUpdate (0, ''a'') (\<lambda>x. x - 1),
        CUpdate (0, ''b'') (\<lambda>x. x + 1), CUnlock (0, ''b''), CUnlock (0, ''a'')] else [])"

lemma transfers_guarded: "\<forall>t. guarded {} (transfers t)"
  by (simp add: transfers_def)

definition transfers_begun :: "int clients" where
  "transfers_begun = the (run_schedule client_step [0, 0, 1, 0] (clients_init True (\<lambda>k. 5) transfers))"

lemma transfers_begun: "run_schedule client_step [0, 0, 1, 0] (clients_init True (\<lambda>k. 5) transfers) = Some transfers_begun"
  by (simp add: transfers_begun_def transfers_def client_run_defs)

theorem ordered_clients_complete_witness:
  "\<exists>us s'. run_schedule client_step us transfers_begun = Some s' \<and> (\<forall>t. script s' t = [])
     \<and> (\<forall>k. \<not> locked (locks s') k)"
proof -
  have "\<forall>t. ordered (\<lambda>k. if snd k = ''b'' then 1 else 0) {} (transfers t)"
    by (simp add: transfers_def)
  from ordered_clients_complete [OF transfers_guarded this _ transfers_begun, of 2]
  show ?thesis by (auto simp: transfers_def)
qed

text \<open>C6: no update is lost: with locking enabled, clients that update a datum only while they hold
  its name see their updates take effect one after the other. Every state that a run reaches
  is that of a sequential history in which each thread has done a prefix of its updates in
  order, each applied to the result of the one before; and while a thread holds a name no
  step of another thread changes the datum.\<close>

theorem no_lost_updates:
  assumes "\<forall>t. guarded {} (scripts t)" and "run_schedule client_step ts (clients_init True d scripts) = Some s"
  shows "(\<exists>log. (\<forall>t. logged_by t log @ updates_of (script s t) = updates_of (scripts t))
      \<and> shared s = fold apply_update log d)
    \<and> (\<forall>t u s' k. u \<noteq> t \<longrightarrow> client_step t s = Some s' \<longrightarrow> k \<in> held (locks s) u \<longrightarrow> shared s' k = shared s k)"
  using guarded_runs_sequential [OF assms] held_data_stable unfolding sequential_def by blast

theorem no_lost_updates_witness:
  "\<exists>log. (\<forall>t. logged_by t log @ updates_of (script transfers_begun t) = updates_of (transfers t))
     \<and> shared transfers_begun = fold apply_update log (\<lambda>k. 5)"
  using no_lost_updates [OF transfers_guarded transfers_begun] by (rule conjunct1)

text \<open>With the flag lock_enabled switched off updates are lost: two clients that both lock a name,
  add one to its datum and unlock it can finish with only one added.\<close>

lemma disabled_locks_lose_updates:
  "\<exists>ts s. run_schedule client_step ts
       (clients_init False d (\<lambda>t. if t < 2 then [CLock k, CUpdate k (\<lambda>x. x + 1), CUnlock k] else [])) = Some s
     \<and> (\<forall>t. script s t = [] \<and> pcs (locks s) t = Idle) \<and> shared s k = d k + (1 :: nat)"
  by (rule exI [of _ "[0, 0, 1, 1, 0, 1, 0, 1, 0, 0, 1, 1]"])
    (simp add: client_run_defs return_disabled_def release_def)

definition opposite_orders :: "lock_key \<Rightarrow> lock_key \<Rightarrow> tid \<Rightarrow> 'd client_op list" where
  "opposite_orders a b t =
     (if t = 0 then [CLock a, CLock b, CUnlock b, CUnlock a]
      else if t = 1 then [CLock b, CLock a, CUnlock a, CUnlock b] else [])"

definition locks_twice :: "lock_key \<Rightarrow> tid \<Rightarrow> 'd client_op list" where
  "locks_twice a t = (if t = 0 then [CLock a, CLock a, CUnlock a] else [])"

lemma opposite_orders_hang:
  assumes "a \<noteq> b"
  shows "\<exists>ts s. run_schedule client_step ts (clients_init True d (opposite_orders a b)) = Some s
    \<and> quiet client_step s \<and> script s 0 \<noteq> [] \<and> script s 1 \<noteq> []"
proof (rule exI [of _ "replicate 8 0 @ replicate 8 1 @ replicate 7 0 @ replicate 7 1"])
  obtain sa na sb nb where ab: "a = (sa, na)" "b = (sb, nb)" by (cases a, cases b)
  show "\<exists>s. run_schedule client_step (replicate 8 0 @ replicate 8 1 @ replicate 7 0 @ replicate 7 1)
      (clients_init True d (opposite_orders a b)) = Some s
    \<and> quiet client_step s \<and> script s 0 \<noteq> [] \<and> script s 1 \<noteq> []"
    using assms unfolding ab opposite_orders_def
    by (cases "sa = sb") (simp_all add: client_run_defs numeral_eq_Suc quiet_def)
qed

lemma locks_twice_hangs:
  "\<exists>ts s. run_schedule client_step ts (clients_init True d (locks_twice a)) = Some s
    \<and> quiet client_step s \<and> script s 0 \<noteq> []"
  by (rule exI [of _ "replicate 15 0"])
    (simp add: locks_twice_def client_run_defs numeral_eq_Suc quiet_def)

text \<open>C7: without a common order of the names clients can hang: of two that lock two names in opposite
  orders both can come to wait for each other, and one that locks a name it holds waits for
  itself; then nobody can take a step any more. Their scripts are guarded and unlock what
  they lock.\<close>

theorem unordered_clients_hang:
  assumes "a \<noteq> b"
  shows "(\<exists>ts s. run_schedule client_step ts (clients_init True d (opposite_orders a b)) = Some s
       \<and> quiet client_step s \<and> script s 0 \<noteq> [] \<and> script s 1 \<noteq> [])
    \<and> (\<exists>ts s. run_schedule client_step ts (clients_init True d (locks_twice a)) = Some s
       \<and> quiet client_step s \<and> script s 0 \<noteq> [])
    \<and> (\<forall>t. guarded {} (opposite_orders a b t) \<and> guarded {} (locks_twice a t))"
proof (intro conjI)
  show "\<forall>t. guarded {} (opposite_orders a b t) \<and> guarded {} (locks_twice a t)"
    using assms by (simp add: opposite_orders_def locks_twice_def)
qed (use opposite_orders_hang [OF assms, of d] locks_twice_hangs [of d a] in blast)+

theorem unordered_clients_hang_witness:
  "\<exists>ts s. run_schedule client_step ts
       (clients_init True (\<lambda>k. ()) (opposite_orders (0, ''vol'') (0, ''snap''))) = Some s
     \<and> quiet client_step s \<and> script s 1 \<noteq> []"
  using unordered_clients_hang [of "(0, ''vol'')" "(0, ''snap'')" "\<lambda>k. ()"] by auto

section \<open>One name at a time\<close>

text \<open>
  The plainest clients lock one name, unlock it and go on to the next request. They are
  ordered under every ranking, so they never deadlock, within sixteen steps per request.
\<close>

definition serial_requests :: "lock_key list \<Rightarrow> 'd client_op list" where
  "serial_requests ks = concat (map (\<lambda>k. [CLock k, CUnlock k]) ks)"

lemma serial_requests_fit:
  "guarded {} (serial_requests ks)" "ordered ord {} (serial_requests ks)"
  "script_steps False (serial_requests ks) = 16 * length ks"
  by (induction ks) (simp_all add: serial_requests_def)

lemma lock_clients_complete:
  assumes "\<forall>t\<ge>n. reqs t = []"
    and "run_schedule client_step ts (clients_init e d (\<lambda>t. serial_requests (reqs t))) = Some s"
  shows "length ts \<le> (\<Sum>t<n. 16 * length (reqs t))
    \<and> (\<exists>us s'. run_schedule client_step us s = Some s'
        \<and> (\<forall>t. script s' t = [] \<and> pcs (locks s') t = Idle \<and> held (locks s') t = {})
        \<and> (e \<longrightarrow> (\<forall>k. \<not> locked (locks s') k)))"
proof -
  have "\<forall>t\<ge>n. serial_requests (reqs t) = []" using assms(1) by (simp add: serial_requests_def)
  from ordered_clients_end [OF _ _ this assms(2), of "\<lambda>k. 0"] show ?thesis
    by (auto simp: serial_requests_fit)
qed

end
