(* ===== verification/WatcherRun.thy ===== *)
theory WatcherRun
  imports Watcher Threads "HOL-Library.Multiset"
begin

text \<open>
  The watcher at work: the package variables and flags of pv\_watcher.go, Start with the informer it
  builds, and the goroutines that updateVolume starts, one step per access to something
  shared (the provider, the type map, UpdateVolume, the event recorder), interleaved with
  each other, with the events of the informer and with watchers made for other drivers.
\<close>

section \<open>Package variables\<close>

definition VolumeTypeMap :: "string go_map" where
  "VolumeTypeMap = []"

text \<open>
  The flag set of the process as name, default and usage; flag.String panics on a name that is
  taken. The two variables are initialised in the order of their declarations.
\<close>

type_synonym flag_set = "(string \<times> string \<times> string) list"

definition flag_String :: "string \<Rightarrow> string \<Rightarrow> string \<Rightarrow> flag_set \<Rightarrow> flag_set can_panic" where
  "flag_String name value usage fs =
     (if name \<in> set (map fst fs) then Inl DuplicateRegistration else Inr (fs @ [(name, value, usage)]))"

definition master_flag :: "flag_set \<Rightarrow> flag_set can_panic" where
  "master_flag = flag_String ''master'' ''''
     ''Master URL to build a client config from. Either this or kubeconfig needs to be set if the provisioner is being run out of cluster.''"

definition kubeconfig_flag :: "flag_set \<Rightarrow> flag_set can_panic" where
  "kubeconfig_flag = flag_String ''kubeconfig'' ''''
     ''Absolute path to the kubeconfig file. Either this or master needs to be set if the provisioner is being run out of cluster.''"

definition watcher_flags :: "flag_set \<Rightarrow> flag_set can_panic" where
  "watcher_flags fs = bind_panic (master_flag fs) kubeconfig_flag"

section \<open>Start\<close>

text \<open>
  What the informer tells a handler, and the handler functions, which may be nil. A handler
  function is given by the objects of the goroutines it starts: updateVolume starts one, for
  the new object, and returns at once.
\<close>

datatype handler_event =
    OnAdd kube_object
  | OnUpdate kube_object kube_object
  | OnDelete kube_object

record ResourceEventHandlerFuncs =
  AddFunc :: "(kube_object \<Rightarrow> kube_object list) option"
  UpdateFunc :: "(kube_object \<Rightarrow> kube_object \<Rightarrow> kube_object list) option"
  DeleteFunc :: "(kube_object \<Rightarrow> kube_object list) option"

definition start_updateVolume :: "kube_object \<Rightarrow> kube_object \<Rightarrow> kube_object list" where
  "start_updateVolume oldobj obj = [obj]"

record list_watch =
  lw_resource :: string
  lw_namespace :: string
  lw_selector :: string

record informer =
  watchlist :: list_watch
  resyncPeriod :: int
  Handler :: ResourceEventHandlerFuncs
  FilterFunc :: "kube_object \<Rightarrow> bool"

datatype start_action = StartLog string | GoRun informer | WaitForStop

text \<open>The empty selector selects everything. NeverStop is a channel nobody closes.\<close>

definition Start :: "('k, 'cp) PVWatcher \<Rightarrow> start_action list" where
  "Start pvw =
     (let watchlist = \<lparr>lw_resource = ''persistentvolumes'', lw_namespace = [], lw_selector = []\<rparr>;
          controller = \<lparr>watchlist = watchlist, resyncPeriod = 0,
            Handler = \<lparr>AddFunc = None, UpdateFunc = Some start_updateVolume, DeleteFunc = None\<rparr>,
            FilterFunc = filter_pv pvw\<rparr>
      in [StartLog ''PVWatcher starting'', GoRun controller, StartLog ''PVWatcher started'', WaitForStop])"

definition informers :: "start_action list \<Rightarrow> informer list" where
  "informers acts = concat (map (\<lambda>a. case a of GoRun ctl \<Rightarrow> [ctl] | _ \<Rightarrow> []) acts)"

text \<open>
  client-go's FilteringResourceEventHandler, a parameter of the model, is documented so: events of
  objects that fail the filter are dropped, an object that starts to pass it with an update
  counts as added and one that stops to pass it as deleted; a nil function is not called.
\<close>

definition call_handler :: "ResourceEventHandlerFuncs \<Rightarrow> handler_event \<Rightarrow> kube_object list" where
  "call_handler h ev =
     (case ev of
        OnAdd obj \<Rightarrow> (case AddFunc h of None \<Rightarrow> [] | Some f \<Rightarrow> f obj)
      | OnUpdate old new \<Rightarrow> (case UpdateFunc h of None \<Rightarrow> [] | Some f \<Rightarrow> f old new)
      | OnDelete obj \<Rightarrow> (case DeleteFunc h of None \<Rightarrow> [] | Some f \<Rightarrow> f obj))"

definition filtering_contract ::
  "((kube_object \<Rightarrow> bool) \<Rightarrow> ResourceEventHandlerFuncs \<Rightarrow> handler_event \<Rightarrow> kube_object list) \<Rightarrow> bool" where
  "filtering_contract F \<longleftrightarrow>
     (\<forall>p h.
       (\<forall>obj. F p h (OnAdd obj) = (if p obj then call_handler h (OnAdd obj) else []))
       \<and> (\<forall>obj. F p h (OnDelete obj) = (if p obj then call_handler h (OnDelete obj) else []))
       \<and> (\<forall>old new. F p h (OnUpdate old new) =
            (if p new then (if p old then call_handler h (OnUpdate old new) else call_handler h (OnAdd new))
             else if p old then call_handler h (OnDelete old) else [])))"

section \<open>The goroutines\<close>

text \<open>
  Where a goroutine of updateVolume is: just started, with a session, with the description of its
  volume, with the result of UpdateVolume, or at its end. A panic runs the deferred function
  and ends it.
\<close>

datatype 'sess goroutine =
    Spawned kube_object
  | HasSession kube_object 'sess "go_error option"
  | HasVolume kube_object 'sess Volume "go_error option"
  | Updated kube_object "go_error option" "go_error option"
  | Finished

text \<open>The libraries the watcher calls.\<close>

record ('cp, 'sess, 'w) watch_lib =
  lib_GetProviderSession :: "'cp \<Rightarrow> 'w \<Rightarrow> 'sess option go_result can_panic \<times> 'w"
  lib_UpdateVolume :: "'sess \<Rightarrow> Volume \<Rightarrow> 'w \<Rightarrow> go_error option can_panic \<times> 'w"
  lib_unicode :: "string \<Rightarrow> string"
  lib_Filtering :: "(kube_object \<Rightarrow> bool) \<Rightarrow> ResourceEventHandlerFuncs \<Rightarrow> handler_event \<Rightarrow> kube_object list"

definition entry_log :: watch_effect where
  "entry_log = Log InfoLevel ''Entry updateVolume()'' None"

definition exit_log :: "go_error option \<Rightarrow> watch_effect" where
  "exit_log err = Log InfoLevel ''Exit updateVolume()'' err"

definition recovery_log :: watch_effect where
  "recovery_log = Log ErrorLevel ''Recovered from panic in pvwatcher'' None"

definition saved_effects :: "kube_object \<Rightarrow> go_error option \<Rightarrow> watch_effect list" where
  "saved_effects obj r =
     (case r of
        Some e \<Rightarrow> [Log WarnLevel ''Unable to update the volume'' (Some e),
          Event (as_pv obj) EventTypeWarning VolumeUpdateEventReason (error_text e)]
      | None \<Rightarrow> [Event (as_pv obj) EventTypeNormal VolumeUpdateEventReason VolumeUpdateEventSuccess,
          Log WarnLevel ''Volume Metadata saved successfully'' None])"

fun goroutine_step ::
  "('cp, 'sess, 'w) watch_lib \<Rightarrow> ('k, 'cp) PVWatcher \<Rightarrow> string go_map \<Rightarrow> 'sess goroutine \<Rightarrow> 'w
   \<Rightarrow> ('sess goroutine \<times> watch_effect list \<times> 'w) option" where
  "goroutine_step lib pvw typeMap (Spawned obj) w =
     Some (case lib_GetProviderSession lib (cloudProvider pvw) w of
       (Inl p, w1) \<Rightarrow> (Finished, [entry_log, recovery_log], w1)
     | (Inr (None, err), w1) \<Rightarrow> (Finished, [entry_log, exit_log err], w1)
     | (Inr (Some session, err), w1) \<Rightarrow> (HasSession obj session err, [entry_log], w1))"
| "goroutine_step lib pvw typeMap (HasSession obj session err) w =
     Some (case getVolume (lib_unicode lib) typeMap pvw (as_pv obj) of
       Inl p \<Rightarrow> (Finished, [recovery_log], w)
     | Inr volume \<Rightarrow> (HasVolume obj session volume err, [Log InfoLevel ''volume to update '' None], w))"
| "goroutine_step lib pvw typeMap (HasVolume obj session volume err) w =
     Some (case lib_UpdateVolume lib session volume w of
       (Inl p, w2) \<Rightarrow> (Finished, [UpdateCall volume, recovery_log], w2)
     | (Inr r, w2) \<Rightarrow> (Updated obj r err, [UpdateCall volume], w2))"
| "goroutine_step lib pvw typeMap (Updated obj r err) w =
     Some (Finished, saved_effects obj r @ [exit_log err], w)"
| "goroutine_step lib pvw typeMap Finished w = None"

section \<open>The system\<close>

text \<open>
  The state: the events the informer has not delivered yet, the goroutines in the order of their
  start, the type map, the world outside, and what has been done by which goroutine.
  \<open>delivered\<close> and \<open>spawned\<close> are ghosts: the events delivered and the object of each goroutine.
\<close>

record ('sess, 'w) watch_state =
  inbox :: "handler_event list"
  goroutines :: "'sess goroutine list"
  type_map :: "string go_map"
  outside :: 'w
  trace :: "(nat \<times> watch_effect) list"
  delivered :: "handler_event list"
  spawned :: "kube_object list"

definition deliver ::
  "('cp, 'sess, 'w) watch_lib \<Rightarrow> ('k, 'cp) PVWatcher \<Rightarrow> handler_event \<Rightarrow> kube_object list" where
  "deliver lib pvw ev =
     concat (map (\<lambda>ctl. lib_Filtering lib (FilterFunc ctl) (Handler ctl) ev) (informers (Start pvw)))"

text \<open>Thread 0 is the informer, thread \<open>Suc i\<close> is goroutine i.\<close>

fun watch_step ::
  "('cp, 'sess, 'w) watch_lib \<Rightarrow> ('k, 'cp) PVWatcher \<Rightarrow> nat \<Rightarrow> ('sess, 'w) watch_state
   \<Rightarrow> ('sess, 'w) watch_state option" where
  "watch_step lib pvw 0 s =
     (case inbox s of [] \<Rightarrow> None
      | ev # evs \<Rightarrow>
          Some (s\<lparr>inbox := evs, goroutines := goroutines s @ map Spawned (deliver lib pvw ev),
                  delivered := delivered s @ [ev], spawned := spawned s @ deliver lib pvw ev\<rparr>))"
| "watch_step lib pvw (Suc i) s =
     (if i < length (goroutines s) then
        map_option (\<lambda>(g, es, w). s\<lparr>goroutines := (goroutines s)[i := g], outside := w,
                                   trace := trace s @ map (Pair i) es\<rparr>)
          (goroutine_step lib pvw (type_map s) (goroutines s ! i) (outside s))
      else None)"

text \<open>
  Besides the threads, events of the cluster arrive, and New of another watcher registers the
  type of its driver in the package's map. The map has no lock; WatcherRace says when an
  access may be taken as one step, as it is here.
\<close>

inductive watch_trans ::
  "('cp, 'sess, 'w) watch_lib \<Rightarrow> ('k, 'cp) PVWatcher \<Rightarrow> ('sess, 'w) watch_state \<Rightarrow> ('sess, 'w) watch_state \<Rightarrow> bool"
  for lib pvw where
  thread: "watch_step lib pvw t s = Some s' \<Longrightarrow> watch_trans lib pvw s s'"
| arrive: "watch_trans lib pvw s (s\<lparr>inbox := inbox s @ [ev]\<rparr>)"
| register: "prov \<noteq> provisionerName pvw \<Longrightarrow>
     watch_trans lib pvw s (s\<lparr>type_map := register_type (type_map s) prov ty\<rparr>)"

definition watch_init :: "string go_map \<Rightarrow> 'w \<Rightarrow> ('sess, 'w) watch_state" where
  "watch_init typeMap w = \<lparr>inbox = [], goroutines = [], type_map = typeMap, outside = w, trace = [],
     delivered = [], spawned = []\<rparr>"

inductive watch_reach ::
  "('cp, 'sess, 'w) watch_lib \<Rightarrow> ('k, 'cp) PVWatcher \<Rightarrow> string go_map \<Rightarrow> 'w \<Rightarrow> ('sess, 'w) watch_state \<Rightarrow> bool"
  for lib pvw typeMap w where
  reach_init: "watch_reach lib pvw typeMap w (watch_init typeMap w)"
| reach_trans: "watch_reach lib pvw typeMap w s \<Longrightarrow> watch_trans lib pvw s s' \<Longrightarrow> watch_reach lib pvw typeMap w s'"

definition effects_of :: "nat \<Rightarrow> ('sess, 'w) watch_state \<Rightarrow> watch_effect list" where
  "effects_of i s = map snd (filter (\<lambda>e. fst e = i) (trace s))"


section \<open>One goroutine\<close>

text \<open>
  What updateVolume does for an object in one go, when the call of the provider meets the world
  \<open>wa\<close> and the call of UpdateVolume the world \<open>wb\<close>.
\<close>

definition atomic_run ::
  "('cp, 'sess, 'w) watch_lib \<Rightarrow> ('k, 'cp) PVWatcher \<Rightarrow> string go_map \<Rightarrow> kube_object \<Rightarrow> 'w \<Rightarrow> 'w \<Rightarrow> watch_effect list" where
  "atomic_run lib pvw typeMap obj wa wb =
     fst (updateVolume (\<lambda>cp u. (fst (lib_GetProviderSession lib cp wa), u))
       (\<lambda>session volume u. (fst (lib_UpdateVolume lib session volume wb), u))
       (lib_unicode lib) typeMap pvw obj ())"

lemmas run_defs = atomic_run_def updateVolume_def updateVolume_body_def entry_log_def exit_log_def recovery_log_def
  saved_effects_def Let_def

text \<open>What a goroutine for \<open>obj\<close> that has come to \<open>g\<close> has done.\<close>

fun go_at ::
  "('cp, 'sess, 'w) watch_lib \<Rightarrow> ('k, 'cp) PVWatcher \<Rightarrow> string go_map \<Rightarrow> kube_object \<Rightarrow> 'sess goroutine
   \<Rightarrow> watch_effect list \<Rightarrow> bool" where
  "go_at lib pvw typeMap obj (Spawned o') es \<longleftrightarrow> o' = obj \<and> es = []"
| "go_at lib pvw typeMap obj (HasSession o' session err) es \<longleftrightarrow> o' = obj \<and> es = [entry_log]
     \<and> (\<exists>wa. fst (lib_GetProviderSession lib (cloudProvider pvw) wa) = Inr (Some session, err))"
| "go_at lib pvw typeMap obj (HasVolume o' session volume err) es \<longleftrightarrow>
     o' = obj \<and> es = [entry_log, Log InfoLevel ''volume to update '' None]
     \<and> (\<exists>wa. fst (lib_GetProviderSession lib (cloudProvider pvw) wa) = Inr (Some session, err))
     \<and> getVolume (lib_unicode lib) typeMap pvw (as_pv obj) = Inr volume"
| "go_at lib pvw typeMap obj (Updated o' r err) es \<longleftrightarrow> o' = obj
     \<and> (\<exists>session volume wa wb. es = [entry_log, Log InfoLevel ''volume to update '' None, UpdateCall volume]
       \<and> fst (lib_GetProviderSession lib (cloudProvider pvw) wa) = Inr (Some session, err)
       \<and> getVolume (lib_unicode lib) typeMap pvw (as_pv obj) = Inr volume
       \<and> fst (lib_UpdateVolume lib session volume wb) = Inr r)"
| "go_at lib pvw typeMap obj Finished es \<longleftrightarrow> (\<exists>wa wb. es = atomic_run lib pvw typeMap obj wa wb)"

lemma run_session_panic:
  "fst (lib_GetProviderSession lib (cloudProvider pvw) wa) = Inl p \<Longrightarrow>
     atomic_run lib pvw typeMap obj wa wb = [entry_log, recovery_log]"
  by (simp add: run_defs)

lemma run_no_session:
  "fst (lib_GetProviderSession lib (cloudProvider pvw) wa) = Inr (None, err) \<Longrightarrow>
     atomic_run lib pvw typeMap obj wa wb = [entry_log, exit_log err]"
  by (simp add: run_defs)

lemma run_undescribed:
  assumes "fst (lib_GetProviderSession lib (cloudProvider pvw) wa) = Inr (Some session, err)"
    and "getVolume (lib_unicode lib) typeMap pvw (as_pv obj) = Inl p"
  shows "atomic_run lib pvw typeMap obj wa wb = [entry_log, recovery_log]"
  using assms by (simp add: run_defs)

lemma run_described:
  assumes "fst (lib_GetProviderSession lib (cloudProvider pvw) wa) = Inr (Some session, err)"
    and "getVolume (lib_unicode lib) typeMap pvw (as_pv obj) = Inr volume"
  shows "atomic_run lib pvw typeMap obj wa wb = [entry_log, Log InfoLevel ''volume to update '' None, UpdateCall volume]
    @ (case fst (lib_UpdateVolume lib session volume wb) of
         Inl p \<Rightarrow> [recovery_log] | Inr r \<Rightarrow> saved_effects obj r @ [exit_log err])"
  using assms by (simp add: run_defs split: sum.split option.split)

lemma go_at_FinishedI: "es = atomic_run lib pvw typeMap obj wa wb \<Longrightarrow> go_at lib pvw typeMap obj Finished es"
  by auto

lemma entry_first: "\<exists>es. atomic_run lib pvw typeMap obj wa wb = entry_log # es"
  by (simp add: run_defs split: sum.split option.split prod.split)

lemma go_at_prefix:
  assumes "go_at lib pvw typeMap obj g es"
  shows "\<exists>wa wb. prefix es (atomic_run lib pvw typeMap obj wa wb)"
  using assms
proof (cases rule: go_at.cases [of "(lib, pvw, typeMap, obj, g, es)"])
  case (2 lib pvw typeMap obj o' session err es)
  then show ?thesis using assms entry_first [of lib pvw typeMap obj] by (auto simp: prefix_def)
next
  case (3 lib pvw typeMap obj o' session volume err es)
  then obtain wa where "fst (lib_GetProviderSession lib (cloudProvider pvw) wa) = Inr (Some session, err)"
    using assms by auto
  then show ?thesis using 3 assms run_described [of lib pvw wa session err typeMap obj volume]
    by (intro exI [of _ wa]) (auto simp: prefix_def)
next
  case (4 lib pvw typeMap obj o' r err es)
  then obtain session volume wa where "fst (lib_GetProviderSession lib (cloudProvider pvw) wa) = Inr (Some session, err)"
    "getVolume (lib_unicode lib) typeMap pvw (as_pv obj) = Inr volume"
    "es = [entry_log, Log InfoLevel ''volume to update '' None, UpdateCall volume]" using assms by auto
  then show ?thesis using 4 run_described [of lib pvw wa session err typeMap obj volume] by (auto simp: prefix_def)
qed auto

text \<open>Each step continues the run.\<close>

lemma start_step:
  assumes "goroutine_step lib pvw typeMap' (Spawned obj) w = Some (g', es', w')"
  shows "go_at lib pvw typeMap obj g' es'"
proof -
  obtain r w1 where call: "lib_GetProviderSession lib (cloudProvider pvw) w = (r, w1)" by fastforce
  have r: "fst (lib_GetProviderSession lib (cloudProvider pvw) w) = r" by (simp add: call)
  consider (panic) p where "r = Inl p" | (none) err where "r = Inr (None, err)"
    | (session) session err where "r = Inr (Some session, err)"
    by (metis option.exhaust prod.exhaust sum.exhaust)
  then show ?thesis
  proof cases
    case panic
    then have "es' = atomic_run lib pvw typeMap obj w w" and "g' = Finished"
      using assms call run_session_panic [of lib pvw w p typeMap obj w] by auto
    then show ?thesis by (blast intro: go_at_FinishedI)
  next
    case none
    then have "es' = atomic_run lib pvw typeMap obj w w" and "g' = Finished"
      using assms call run_no_session [of lib pvw w err typeMap obj w] by auto
    then show ?thesis by (blast intro: go_at_FinishedI)
  next
    case session
    then have "es' = [entry_log]" and "g' = HasSession obj session err" using assms call by simp_all
    then show ?thesis using r session by auto
  qed
qed

lemma describe_step:
  assumes "go_at lib pvw typeMap obj (HasSession obj session err) es"
    and "goroutine_step lib pvw typeMap' (HasSession obj session err) w = Some (g', es', w')"
    and "getVolume (lib_unicode lib) typeMap' pvw (as_pv obj) = getVolume (lib_unicode lib) typeMap pvw (as_pv obj)"
  shows "go_at lib pvw typeMap obj g' (es @ es')"
proof (cases "getVolume (lib_unicode lib) typeMap pvw (as_pv obj)")
  case (Inl p)
  obtain wa where "fst (lib_GetProviderSession lib (cloudProvider pvw) wa) = Inr (Some session, err)"
    and "es = [entry_log]" using assms(1) by auto
  then have "es @ es' = atomic_run lib pvw typeMap obj wa wa" and "g' = Finished"
    using assms(2,3) Inl run_undescribed [of lib pvw wa session err typeMap obj p wa] by auto
  then show ?thesis by (blast intro: go_at_FinishedI)
next
  case (Inr volume)
  then show ?thesis using assms by auto
qed

lemma update_step:
  assumes "go_at lib pvw typeMap obj (HasVolume obj session volume err) es"
    and "goroutine_step lib pvw typeMap' (HasVolume obj session volume err) w = Some (g', es', w')"
  shows "go_at lib pvw typeMap obj g' (es @ es')"
proof -
  obtain wa where wa: "fst (lib_GetProviderSession lib (cloudProvider pvw) wa) = Inr (Some session, err)"
    and v: "getVolume (lib_unicode lib) typeMap pvw (as_pv obj) = Inr volume"
    and es: "es = [entry_log, Log InfoLevel ''volume to update '' None]" using assms(1) by auto
  obtain r w2 where call: "lib_UpdateVolume lib session volume w = (r, w2)" by fastforce
  then have r: "fst (lib_UpdateVolume lib session volume w) = r" by simp
  show ?thesis
  proof (cases r)
    case (Inl p)
    then have "es @ es' = atomic_run lib pvw typeMap obj wa w"
      using assms(2) call r by (simp add: run_described [OF wa v] es)
    then show ?thesis using Inl assms(2) call by auto
  next
    case (Inr r')
    have "g' = Updated obj r' err" and "es @ es' = [entry_log, Log InfoLevel ''volume to update '' None, UpdateCall volume]"
      using assms(2) call Inr es by simp_all
    then show ?thesis using wa v r Inr by auto
  qed
qed

lemma last_step:
  assumes "go_at lib pvw typeMap obj (Updated obj r err) es"
    and "goroutine_step lib pvw typeMap' (Updated obj r err) w = Some (g', es', w')"
  shows "go_at lib pvw typeMap obj g' (es @ es')"
proof -
  obtain session volume wa wb where
    wa: "fst (lib_GetProviderSession lib (cloudProvider pvw) wa) = Inr (Some session, err)"
    and v: "getVolume (lib_unicode lib) typeMap pvw (as_pv obj) = Inr volume"
    and wb: "fst (lib_UpdateVolume lib session volume wb) = Inr r"
    and es: "es = [entry_log, Log InfoLevel ''volume to update '' None, UpdateCall volume]"
    using assms(1) by auto
  have "es @ es' = atomic_run lib pvw typeMap obj wa wb"
    using assms(2) wb by (simp add: run_described [OF wa v] es)
  then show ?thesis using assms(2) by auto
qed

lemma go_at_step:
  assumes "go_at lib pvw typeMap obj g es" and "goroutine_step lib pvw typeMap' g w = Some (g', es', w')"
    and "getVolume (lib_unicode lib) typeMap' pvw (as_pv obj) = getVolume (lib_unicode lib) typeMap pvw (as_pv obj)"
  shows "go_at lib pvw typeMap obj g' (es @ es')"
proof (cases g)
  case (Spawned o')
  then show ?thesis using assms start_step [of lib pvw typeMap' obj w g' es' w' typeMap] by simp
next
  case (HasSession o' session err)
  then have "g = HasSession obj session err" using assms(1) by simp
  then show ?thesis using describe_step assms by metis
next
  case (HasVolume o' session volume err)
  then have "g = HasVolume obj session volume err" using assms(1) by simp
  then show ?thesis using update_step assms by metis
next
  case (Updated o' r err)
  then have "g = Updated obj r err" using assms(1) by simp
  then show ?thesis using last_step assms by metis
qed (use assms(2) in simp)


section \<open>What is delivered\<close>

lemma informers_Start:
  "informers (Start pvw) =
     [\<lparr>watchlist = \<lparr>lw_resource = ''persistentvolumes'', lw_namespace = [], lw_selector = []\<rparr>, resyncPeriod = 0,
       Handler = \<lparr>AddFunc = None, UpdateFunc = Some start_updateVolume, DeleteFunc = None\<rparr>,
       FilterFunc = filter_pv pvw\<rparr>]"
  by (simp add: Start_def informers_def)

text \<open>The volumes whose update is saved: those that pass the filter before and after.\<close>

definition watched_updates :: "('k, 'cp) PVWatcher \<Rightarrow> handler_event list \<Rightarrow> kube_object list" where
  "watched_updates pvw evs =
     concat (map (\<lambda>ev. case ev of
       OnUpdate old new \<Rightarrow> if filter_pv pvw old \<and> filter_pv pvw new then [new] else [] | _ \<Rightarrow> []) evs)"

lemma deliver_eq:
  "filtering_contract (lib_Filtering lib) \<Longrightarrow> deliver lib pvw ev = watched_updates pvw [ev]"
  by (cases ev) (simp_all add: deliver_def informers_Start watched_updates_def filtering_contract_def
      call_handler_def start_updateVolume_def)

lemma watched_updates_append: "watched_updates pvw (evs @ evs') = watched_updates pvw evs @ watched_updates pvw evs'"
  by (simp add: watched_updates_def)

lemma watched_updates_filtered: "obj \<in> set (watched_updates pvw evs) \<Longrightarrow> filter_pv pvw obj"
  by (auto simp: watched_updates_def split: handler_event.splits if_splits)

lemma watched_updates_length: "length (watched_updates pvw evs) \<le> length evs"
  by (induction evs) (auto simp: watched_updates_def split: handler_event.splits)

text \<open>The description of a watched volume depends on the entry of the driver only.\<close>

lemma getVolume_other_types:
  assumes "filter_pv pvw obj" and "map_read [] typeMap (provisionerName pvw) = map_read [] typeMap' (provisionerName pvw)"
  shows "getVolume uni typeMap pvw (as_pv obj) = getVolume uni typeMap' pvw (as_pv obj)"
proof -
  obtain pv csi where pv: "as_pv obj = Some pv" and csi: "CSI pv = Some csi" "Driver csi = provisionerName pvw"
    using assms(1) by (auto simp: filter_pv_def split: option.splits)
  show ?thesis
  proof (cases "describable pvw (Some pv)")
    case True
    then obtain claim conf vpc where "ClaimRef pv = Some claim" "config pvw = Some conf" "VPC conf = Some vpc"
      by (rule describableE) simp
    then show ?thesis using assms(2) csi pv by (simp add: getVolume_describable volume_of_def)
  qed (simp add: pv getVolume_panics)
qed

section \<open>The invariant of the run\<close>

lemmas watch_transE = watch_trans.cases [consumes 1, case_names thread arrive register]

lemma watch_step_cases:
  assumes "watch_step lib pvw t s = Some s'"
  obtains (informer) ev evs where "t = 0" "inbox s = ev # evs"
      "s' = s\<lparr>inbox := evs, goroutines := goroutines s @ map Spawned (deliver lib pvw ev),
              delivered := delivered s @ [ev], spawned := spawned s @ deliver lib pvw ev\<rparr>"
  | (goroutine) i g es w where "t = Suc i" "i < length (goroutines s)"
      "goroutine_step lib pvw (type_map s) (goroutines s ! i) (outside s) = Some (g, es, w)"
      "s' = s\<lparr>goroutines := (goroutines s)[i := g], outside := w, trace := trace s @ map (Pair i) es\<rparr>"
  using assms by (cases t) (auto split: list.splits if_splits)

lemma effects_of_append: "effects_of i (s\<lparr>trace := trace s @ map (Pair j) es\<rparr>) = effects_of i s @ (if i = j then es else [])"
  by (simp add: effects_of_def filter_map o_def)

lemma effects_of_cong: "trace s = trace s' \<Longrightarrow> effects_of i s = effects_of i s'"
  by (simp add: effects_of_def)

definition watch_inv ::
  "('cp, 'sess, 'w) watch_lib \<Rightarrow> ('k, 'cp) PVWatcher \<Rightarrow> string go_map \<Rightarrow> ('sess, 'w) watch_state \<Rightarrow> bool" where
  "watch_inv lib pvw typeMap s \<longleftrightarrow>
     map_read [] (type_map s) (provisionerName pvw) = map_read [] typeMap (provisionerName pvw)
     \<and> spawned s = watched_updates pvw (delivered s)
     \<and> length (goroutines s) = length (spawned s)
     \<and> (\<forall>i<length (spawned s). go_at lib pvw typeMap (spawned s ! i) (goroutines s ! i) (effects_of i s))
     \<and> (\<forall>i\<ge>length (spawned s). effects_of i s = [])"

lemma watch_invD:
  assumes "watch_inv lib pvw typeMap s"
  shows "spawned s = watched_updates pvw (delivered s)"
    and "length (goroutines s) = length (spawned s)"
    and "i < length (spawned s) \<Longrightarrow> go_at lib pvw typeMap (spawned s ! i) (goroutines s ! i) (effects_of i s)"
    and "i \<ge> length (spawned s) \<Longrightarrow> effects_of i s = []"
  using assms unfolding watch_inv_def by blast+

lemma watch_inv_cong:
  assumes "trace s' = trace s" and "goroutines s' = goroutines s" and "spawned s' = spawned s"
    and "delivered s' = delivered s"
    and "map_read [] (type_map s') (provisionerName pvw) = map_read [] (type_map s) (provisionerName pvw)"
  shows "watch_inv lib pvw typeMap s' \<longleftrightarrow> watch_inv lib pvw typeMap s"
  using assms by (simp add: watch_inv_def effects_of_def)

lemma watch_inv_step:
  assumes contract: "filtering_contract (lib_Filtering lib)" and inv: "watch_inv lib pvw typeMap s"
    and step: "watch_step lib pvw t s = Some s'"
  shows "watch_inv lib pvw typeMap s'"
  using step
proof (cases rule: watch_step_cases)
  case (informer ev evs)
  let ?new = "deliver lib pvw ev"
  have eff: "effects_of i s' = effects_of i s" for i using informer by (simp add: effects_of_def)
  have "go_at lib pvw typeMap (spawned s' ! i) (goroutines s' ! i) (effects_of i s')"
    if i: "i < length (spawned s')" for i
  proof (cases "i < length (spawned s)")
    case True
    then show ?thesis
      using watch_invD(3) [OF inv True] watch_invD(2) [OF inv] informer eff by (simp add: nth_append)
  next
    case False
    then have "spawned s' ! i = ?new ! (i - length (spawned s))"
      and "goroutines s' ! i = Spawned (?new ! (i - length (spawned s)))"
      using i inv informer by (auto simp: watch_inv_def nth_append)
    then show ?thesis using False inv eff by (simp add: watch_inv_def)
  qed
  moreover have "effects_of i s' = []" if "i \<ge> length (spawned s')" for i
    using that inv informer eff by (simp add: watch_inv_def)
  ultimately show ?thesis using inv informer
    by (simp add: watch_inv_def deliver_eq [OF contract] watched_updates_append)
next
  case (goroutine i g es w)
  have eff: "effects_of j s' = effects_of j s @ (if j = i then es else [])" for j
    using goroutine effects_of_append [of j s i es] by (simp add: effects_of_def)
  have filtered: "filter_pv pvw (spawned s ! i)"
    using watch_invD(1,2) [OF inv] goroutine(2) watched_updates_filtered nth_mem by metis
  have "go_at lib pvw typeMap (spawned s ! i) g (effects_of i s @ es)"
  proof (rule go_at_step)
    show "go_at lib pvw typeMap (spawned s ! i) (goroutines s ! i) (effects_of i s)"
      using watch_invD(2,3) [OF inv] goroutine(2) by simp
    show "getVolume (lib_unicode lib) (type_map s) pvw (as_pv (spawned s ! i))
        = getVolume (lib_unicode lib) typeMap pvw (as_pv (spawned s ! i))"
      using inv by (intro getVolume_other_types [OF filtered]) (simp add: watch_inv_def)
  qed (rule goroutine(3))
  moreover have "spawned s' = spawned s" "delivered s' = delivered s" "type_map s' = type_map s"
    "goroutines s' = (goroutines s)[i := g]" using goroutine(4) by simp_all
  ultimately show ?thesis using inv goroutine(2) by (auto simp: watch_inv_def eff nth_list_update)
qed

lemma watch_inv_trans:
  assumes "filtering_contract (lib_Filtering lib)" and "watch_inv lib pvw typeMap s" and "watch_trans lib pvw s s'"
  shows "watch_inv lib pvw typeMap s'"
  using assms(3)
proof (cases rule: watch_transE)
  case (thread t)
  then show ?thesis using watch_inv_step assms by blast
next
  case (arrive ev)
  then show ?thesis using assms(2) watch_inv_cong [of s' s pvw lib typeMap] by simp
next
  case (register prov ty)
  then show ?thesis using assms(2) watch_inv_cong [of s' s pvw lib typeMap] by simp
qed

lemma reach_watch_inv:
  assumes "filtering_contract (lib_Filtering lib)" and "watch_reach lib pvw typeMap w s"
  shows "watch_inv lib pvw typeMap s"
  using assms(2)
proof induction
  case reach_init
  show ?case by (simp add: watch_inv_def watch_init_def watched_updates_def effects_of_def)
next
  case (reach_trans s s')
  then show ?case using watch_inv_trans [OF assms(1)] by blast
qed

section \<open>The end of the run\<close>

fun go_rank :: "'sess goroutine \<Rightarrow> nat" where
  "go_rank (Spawned obj) = 4"
| "go_rank (HasSession obj session err) = 3"
| "go_rank (HasVolume obj session volume err) = 2"
| "go_rank (Updated obj r err) = 1"
| "go_rank Finished = 0"

definition watch_potential ::
  "('cp, 'sess, 'w) watch_lib \<Rightarrow> ('k, 'cp) PVWatcher \<Rightarrow> ('sess, 'w) watch_state \<Rightarrow> nat" where
  "watch_potential lib pvw s =
     (\<Sum>ev\<leftarrow>inbox s. Suc (4 * length (deliver lib pvw ev))) + (\<Sum>g\<leftarrow>goroutines s. go_rank g)"

definition watch_idle :: "('sess, 'w) watch_state \<Rightarrow> bool" where
  "watch_idle s \<longleftrightarrow> inbox s = [] \<and> list_all (\<lambda>g. g = Finished) (goroutines s)"

lemma goroutine_step_rank: "goroutine_step lib pvw typeMap g w = Some (g', es, w') \<Longrightarrow> go_rank g' < go_rank g"
  by (cases g) (auto split: prod.splits sum.splits option.splits)

lemma go_rank_le: "go_rank g \<le> 4"
  by (cases g) simp_all

lemma go_rank_update:
  "i < length gs \<Longrightarrow> (\<Sum>g\<leftarrow>gs[i := g']. go_rank g) + go_rank (gs ! i) = (\<Sum>g\<leftarrow>gs. go_rank g) + go_rank g'"
  by (induction gs arbitrary: i) (auto simp: nth_Cons split: nat.splits)

interpretation watch_threads: live_threads "watch_step lib pvw" "watch_potential lib pvw" "\<lambda>s. True" watch_idle
  for lib pvw
proof
  fix s s' :: "('b, 'c) watch_state" and t
  assume "watch_step lib pvw t s = Some s'"
  then show "watch_potential lib pvw s' < watch_potential lib pvw s"
  proof (cases rule: watch_step_cases)
    case (informer ev evs)
    then show ?thesis by (simp add: watch_potential_def o_def sum_list_triv)
  next
    case (goroutine i g es w)
    then show ?thesis
      using go_rank_update [of i "goroutines s" g] goroutine_step_rank [OF goroutine(3)]
      by (simp add: watch_potential_def)
  qed
next
  fix s :: "('b, 'c) watch_state"
  assume "\<not> watch_idle s"
  then consider ev evs where "inbox s = ev # evs"
    | i where "i < length (goroutines s)" "goroutines s ! i \<noteq> Finished"
    by (cases "inbox s") (auto simp: watch_idle_def list_all_length)
  then show "\<exists>t s'. watch_step lib pvw t s = Some s'"
  proof cases
    case 1
    then show ?thesis by (intro exI [of _ 0]) simp
  next
    case 2
    then show ?thesis by (cases "goroutines s ! i") (auto intro!: exI [of _ "Suc i"])
  qed
qed simp

end
