(* ===== verification/WatcherSaves.thy ===== *)
theory WatcherSaves
  imports WatcherRun
begin

text \<open>
  What the runs of the watcher do: every goroutine refines one atomic run of updateVolume, the
  volumes saved are those of the watched updates that were delivered, they are well formed,
  every run ends, and updates of one volume may be saved out of order.
\<close>

section \<open>Facts for the properties\<close>

lemma reach_schedule:
  "run_schedule (watch_step lib pvw) ts s = Some s' \<Longrightarrow> watch_reach lib pvw typeMap w s \<Longrightarrow> watch_reach lib pvw typeMap w s'"
  by (induction rule: run_schedule_induct) (auto intro: watch_reach.reach_trans watch_trans.thread)

lemma reach_arrive:
  "watch_reach lib pvw typeMap w s \<Longrightarrow> watch_reach lib pvw typeMap w (s\<lparr>inbox := inbox s @ [ev]\<rparr>)"
  by (rule watch_reach.reach_trans [OF _ watch_trans.arrive])

lemma updates_prefix: "prefix es es' \<Longrightarrow> prefix (updates es) (updates es')"
  by (auto simp: prefix_def)

lemma saved_effects_updates [simp]: "updates (saved_effects obj r) = []"
  by (cases r) (simp_all add: saved_effects_def)

lemma log_updates [simp]: "updates [entry_log] = []" "updates (exit_log err # es) = updates es"
  "updates (recovery_log # es) = updates es" "updates (entry_log # es) = updates es"
  by (simp_all add: entry_log_def exit_log_def recovery_log_def)

lemma atomic_updates:
  "updates (atomic_run lib pvw typeMap obj wa wb) = []
   \<or> (\<exists>v. getVolume (lib_unicode lib) typeMap pvw (as_pv obj) = Inr v \<and> updates (atomic_run lib pvw typeMap obj wa wb) = [v])"
proof -
  consider (panic) p where "fst (lib_GetProviderSession lib (cloudProvider pvw) wa) = Inl p"
    | (none) err where "fst (lib_GetProviderSession lib (cloudProvider pvw) wa) = Inr (None, err)"
    | (session) session err where "fst (lib_GetProviderSession lib (cloudProvider pvw) wa) = Inr (Some session, err)"
    by (metis option.exhaust prod.exhaust sum.exhaust)
  then show ?thesis
  proof cases
    case session
    then show ?thesis
      by (cases "getVolume (lib_unicode lib) typeMap pvw (as_pv obj)")
        (simp_all add: run_undescribed run_described split: sum.split)
  qed (simp_all add: run_session_panic run_no_session)
qed

lemma goroutine_updates:
  assumes "watch_inv lib pvw typeMap s"
  shows "updates (effects_of i s) = []
    \<or> i < length (spawned s) \<and> (\<exists>v. getVolume (lib_unicode lib) typeMap pvw (as_pv (spawned s ! i)) = Inr v
        \<and> updates (effects_of i s) = [v])"
proof (cases "i < length (spawned s)")
  case True
  obtain wa wb where "prefix (effects_of i s) (atomic_run lib pvw typeMap (spawned s ! i) wa wb)"
    using go_at_prefix [OF watch_invD(3) [OF assms True]] by blast
  then have "prefix (updates (effects_of i s)) (updates (atomic_run lib pvw typeMap (spawned s ! i) wa wb))"
    by (rule updates_prefix)
  then show ?thesis using True atomic_updates [of lib pvw typeMap "spawned s ! i" wa wb]
    by (auto simp: prefix_Cons)
next
  case False
  then show ?thesis using watch_invD(4) [OF assms] by simp
qed

lemma trace_updates: "(i, UpdateCall v) \<in> set (trace s) \<Longrightarrow> v \<in> set (updates (effects_of i s))"
  by (force simp: effects_of_def updates_def)

lemma goroutine_prefix:
  assumes "watch_inv lib pvw typeMap s" and "i < length (goroutines s)"
  shows "\<exists>wa wb. prefix (effects_of i s) (atomic_run lib pvw typeMap (spawned s ! i) wa wb)
    \<and> (goroutines s ! i = Finished \<longrightarrow> effects_of i s = atomic_run lib pvw typeMap (spawned s ! i) wa wb)"
proof -
  have at: "go_at lib pvw typeMap (spawned s ! i) (goroutines s ! i) (effects_of i s)"
    using watch_invD(2,3) [OF assms(1)] assms(2) by simp
  show ?thesis
  proof (cases "goroutines s ! i = Finished")
    case True
    then obtain wa wb where "effects_of i s = atomic_run lib pvw typeMap (spawned s ! i) wa wb" using at by auto
    then show ?thesis by (intro exI [of _ wa] exI [of _ wb]) simp
  qed (use go_at_prefix [OF at] in blast)
qed

lemma trace_started:
  assumes "watch_inv lib pvw typeMap s" and "e \<in> set (trace s)"
  shows "fst e < length (spawned s)" and "snd e \<in> set (effects_of (fst e) s)"
proof -
  show eff: "snd e \<in> set (effects_of (fst e) s)" using assms(2) by (simp add: effects_of_def)
  show "fst e < length (spawned s)"
  proof (rule ccontr)
    assume "\<not> fst e < length (spawned s)"
    then show False using watch_invD(4) [OF assms(1)] eff by simp
  qed
qed

lemma trace_Nil:
  assumes "\<And>i. effects_of i s = []"
  shows "trace s = []"
proof (cases "trace s")
  case (Cons e es)
  then show ?thesis using assms [of "fst e"] by (simp add: effects_of_def)
qed

lemma saved_volume:
  assumes "watch_inv lib pvw typeMap s" and "(i, UpdateCall v) \<in> set (trace s)"
  shows "i < length (spawned s)" and "getVolume (lib_unicode lib) typeMap pvw (as_pv (spawned s ! i)) = Inr v"
    and "filter_pv pvw (spawned s ! i)"
proof -
  show i: "i < length (spawned s)" and "getVolume (lib_unicode lib) typeMap pvw (as_pv (spawned s ! i)) = Inr v"
    using goroutine_updates [OF assms(1), of i] trace_updates [OF assms(2)] by auto
  show "filter_pv pvw (spawned s ! i)"
    using watch_invD(1) [OF assms(1)] i watched_updates_filtered nth_mem by metis
qed

lemma filtered_volume:
  assumes "filter_pv pvw obj" and "getVolume uni typeMap pvw (as_pv obj) = Inr v"
  shows "\<exists>pv csi claim vpc. v = volume_of typeMap pvw pv csi claim vpc \<and> Driver csi = provisionerName pvw"
proof -
  have "describable pvw (as_pv obj)" using assms(2) getVolume_iff by blast
  then obtain pv csi claim conf vpc where d: "as_pv obj = Some pv" "CSI pv = Some csi"
    "ClaimRef pv = Some claim" "config pvw = Some conf" "VPC conf = Some vpc" by (rule describableE)
  have "Driver csi = provisionerName pvw" using assms(1) d(1,2) by (simp add: filter_pv_def)
  moreover have "v = volume_of typeMap pvw pv csi claim vpc"
    using assms(2) getVolume_describable [OF d(2-5), of uni typeMap] d(1) by simp
  ultimately show ?thesis by blast
qed

lemma volume_of_type: "VolumeType (volume_of typeMap pvw pv csi claim vpc) = map_read [] typeMap (Driver csi)"
  by (simp add: volume_of_def Let_def)

lemma volume_of_attributes:
  "go_map_ok (Attributes (volume_of typeMap pvw pv csi claim vpc))"
  "map fst (Attributes (volume_of typeMap pvw pv csi claim vpc)) = [''clusterid'', ''status'']"
  "set (map fst (Attributes (volume_of typeMap pvw pv csi claim vpc))) = {''clusterid'', ''status''}"
  "map_read [] (Attributes (volume_of typeMap pvw pv csi claim vpc)) ''status'' =
     (if Phase pv = ''Released'' then ''deleted'' else ''created'')"
  by (simp_all add: volume_of_def Let_def go_map_ok_def)

lemma volume_of_rest:
  "Phase pv = ''Released'' \<Longrightarrow> Tags (volume_of typeMap pvw pv csi claim vpc) = []
     \<and> Capacity (volume_of typeMap pvw pv csi claim vpc) = None \<and> Iops (volume_of typeMap pvw pv csi claim vpc) = None"
  "Phase pv \<noteq> ''Released'' \<Longrightarrow> Tags (volume_of typeMap pvw pv csi claim vpc) \<noteq> []
     \<and> last (Tags (volume_of typeMap pvw pv csi claim vpc)) = ''provisioner:'' @ provisionerName pvw
     \<and> Capacity (volume_of typeMap pvw pv csi claim vpc) \<noteq> None \<and> Iops (volume_of typeMap pvw pv csi claim vpc) \<noteq> None"
  by (simp_all add: volume_of_def Let_def default_tags_def)

lemma volume_of_well_formed:
  assumes v: "v = volume_of typeMap pvw pv csi claim vpc"
    and "VolumeType v = map_read [] typeMap (provisionerName pvw)"
  shows "go_map_ok (Attributes v) \<and> set (map fst (Attributes v)) = {''clusterid'', ''status''}
    \<and> VolumeType v = map_read [] typeMap (provisionerName pvw)
    \<and> (if map_read [] (Attributes v) ''status'' = ''deleted''
       then Tags v = [] \<and> Capacity v = None \<and> Iops v = None
       else map_read [] (Attributes v) ''status'' = ''created''
         \<and> Tags v \<noteq> [] \<and> last (Tags v) = ''provisioner:'' @ provisionerName pvw
         \<and> Capacity v \<noteq> None \<and> Iops v \<noteq> None)"
  using volume_of_attributes(1,3,4) [of typeMap pvw pv csi claim vpc, folded v] assms(2)
    volume_of_rest [of pv typeMap pvw csi claim vpc, folded v]
  by (cases "Phase pv = ''Released''") (simp_all only: simp_thms if_True if_False list.inject char.inject)

lemma watch_potential_le:
  assumes "filtering_contract (lib_Filtering lib)"
  shows "watch_potential lib pvw s \<le> 5 * length (inbox s) + 4 * length (goroutines s)"
proof -
  have "Suc (4 * length (deliver lib pvw ev)) \<le> 5" for ev
    using watched_updates_length [of pvw "[ev]"] by (simp add: deliver_eq [OF assms])
  then have "(\<Sum>ev\<leftarrow>inbox s. Suc (4 * length (deliver lib pvw ev))) \<le> (\<Sum>ev\<leftarrow>inbox s. 5)"
    by (intro sum_list_mono) blast
  moreover have "(\<Sum>g\<leftarrow>goroutines s. go_rank g) \<le> (\<Sum>g\<leftarrow>goroutines s. 4)"
    by (intro sum_list_mono go_rank_le)
  ultimately show ?thesis by (simp add: watch_potential_def sum_list_triv)
qed

lemma schedule_inbox:
  "run_schedule (watch_step lib pvw) ts s = Some s' \<Longrightarrow> delivered s' @ inbox s' = delivered s @ inbox s"
  by (induction rule: run_schedule_induct) (auto elim: watch_step_cases)

section \<open>All updates of a run\<close>

lemma trace_by_goroutine:
  assumes "\<forall>e \<in> set tr. fst e < (n :: nat)"
  shows "mset (updates (map snd tr)) = (\<Sum>i<n. mset (updates (map snd (filter (\<lambda>e. fst e = i) tr))))"
  using assms
proof (induction tr)
  case (Cons e tr)
  obtain j x where e: "e = (j, x)" by fastforce
  have "(\<Sum>i<n. mset (updates (map snd (filter (\<lambda>e. fst e = i) (e # tr)))))
      = (\<Sum>i<n. (if i = j then mset (updates [x]) else 0) + mset (updates (map snd (filter (\<lambda>e. fst e = i) tr))))"
    by (intro sum.cong refl) (auto simp: e updates_def)
  also have "\<dots> = mset (updates [x]) + (\<Sum>i<n. mset (updates (map snd (filter (\<lambda>e. fst e = i) tr))))"
    unfolding sum.distrib by (subst sum.delta) (use Cons.prems in \<open>auto simp: e\<close>)
  finally show ?case using Cons by (simp add: e updates_def)
qed (simp add: updates_def)

lemma mset_concat_nth: "mset (concat (map f xs)) = (\<Sum>i<length xs. mset (f (xs ! i)))"
proof (induction xs rule: rev_induct)
  case (snoc x xs)
  have "(\<Sum>i<length xs. mset (f ((xs @ [x]) ! i))) = (\<Sum>i<length xs. mset (f (xs ! i)))"
    by (intro sum.cong refl) (simp add: nth_append)
  then show ?case using snoc by simp
qed simp

definition described :: "(string \<Rightarrow> string) \<Rightarrow> string go_map \<Rightarrow> ('k, 'cp) PVWatcher \<Rightarrow> kube_object \<Rightarrow> Volume list" where
  "described uni typeMap pvw obj = (case getVolume uni typeMap pvw (as_pv obj) of Inr v \<Rightarrow> [v] | Inl p \<Rightarrow> [])"

text \<open>With a provider that always has a session, a finished run has saved every watched update once.\<close>

lemma finished_saves_all:
  assumes "filtering_contract (lib_Filtering lib)" and "watch_reach lib pvw typeMap w s" and "watch_idle s"
    and session: "\<And>w. \<exists>session err. fst (lib_GetProviderSession lib (cloudProvider pvw) w) = Inr (Some session, err)"
  shows "mset (updates (map snd (trace s))) =
    mset (concat (map (described (lib_unicode lib) typeMap pvw) (watched_updates pvw (delivered s))))"
proof -
  note inv = reach_watch_inv [OF assms(1,2)]
  let ?n = "length (spawned s)"
  have eff: "updates (effects_of i s) = described (lib_unicode lib) typeMap pvw (spawned s ! i)" if i: "i < ?n" for i
  proof -
    have "goroutines s ! i = Finished"
      using assms(3) i watch_invD(2) [OF inv] by (simp add: watch_idle_def list_all_length)
    then obtain wa wb where run: "effects_of i s = atomic_run lib pvw typeMap (spawned s ! i) wa wb"
      using watch_invD(3) [OF inv i] by auto
    obtain x err where x: "fst (lib_GetProviderSession lib (cloudProvider pvw) wa) = Inr (Some x, err)"
      using session by blast
    then show ?thesis
      by (cases "getVolume (lib_unicode lib) typeMap pvw (as_pv (spawned s ! i))")
        (simp_all add: run run_undescribed run_described described_def split: sum.split)
  qed
  have "mset (updates (map snd (trace s))) = (\<Sum>i<?n. mset (updates (effects_of i s)))"
    unfolding effects_of_def using trace_started(1) [OF inv] by (intro trace_by_goroutine) blast
  also have "\<dots> = (\<Sum>i<?n. mset (described (lib_unicode lib) typeMap pvw (spawned s ! i)))"
    by (intro sum.cong refl) (simp add: eff)
  finally show ?thesis by (simp add: mset_concat_nth watch_invD(1) [OF inv])
qed

section \<open>Runs\<close>

text \<open>A goroutine that meets a provider and a session that work, from its start to its end.\<close>

lemma goroutine_saves:
  assumes "lib_GetProviderSession lib (cloudProvider pvw) = (\<lambda>w. (Inr (Some session, None), gw w))"
    and "lib_UpdateVolume lib session = (\<lambda>v w. (Inr None, uw v w))"
    and "i < length (goroutines s)" and "goroutines s ! i = Spawned obj"
    and "getVolume (lib_unicode lib) (type_map s) pvw (as_pv obj) = Inr v"
  shows "run_schedule (watch_step lib pvw) (replicate 4 (Suc i)) s =
    Some (s\<lparr>goroutines := (goroutines s)[i := Finished], outside := uw v (gw (outside s)),
      trace := trace s @ map (Pair i) ([entry_log, Log InfoLevel ''volume to update '' None, UpdateCall v]
        @ saved_effects obj None @ [exit_log None])\<rparr>)"
  using assms by (simp add: numeral_eq_Suc)

text \<open>The documented filtering and a provider, a session and a volume that work.\<close>

definition documented_filtering ::
  "(kube_object \<Rightarrow> bool) \<Rightarrow> ResourceEventHandlerFuncs \<Rightarrow> handler_event \<Rightarrow> kube_object list" where
  "documented_filtering p h ev =
     (case ev of
        OnAdd obj \<Rightarrow> if p obj then call_handler h ev else []
      | OnDelete obj \<Rightarrow> if p obj then call_handler h ev else []
      | OnUpdate old new \<Rightarrow>
          if p new then (if p old then call_handler h ev else call_handler h (OnAdd new))
          else if p old then call_handler h (OnDelete old) else [])"

lemma documented_filtering_contract: "filtering_contract documented_filtering"
  by (simp add: filtering_contract_def documented_filtering_def)

definition sample_lib :: "(unit, unit, nat) watch_lib" where
  "sample_lib = \<lparr>lib_GetProviderSession = (\<lambda>cp n. (Inr (Some (), None), n)),
     lib_UpdateVolume = (\<lambda>session v n. (Inr None, Suc n)), lib_unicode = (\<lambda>s. s),
     lib_Filtering = documented_filtering\<rparr>"

definition sample_watcher :: "(unit, unit) PVWatcher" where
  "sample_watcher = \<lparr>kclient = (), config = Some \<lparr>VPC = Some \<lparr>VPCBlockProviderType = ''g2'', VPCBlockProviderName = ''vpc''\<rparr>\<rparr>,
     provisionerName = ''drv'', recorder_component = [], cloudProvider = ()\<rparr>"

definition sample_pv :: "string \<Rightarrow> PersistentVolume" where
  "sample_pv phase = \<lparr>PVName = ''pv-1'', CSI = Some \<lparr>Driver = ''drv'', VolumeHandle = ''v1'', VolumeAttributes = []\<rparr>,
     PersistentVolumeReclaimPolicy = ''Delete'', StorageClassName = ''gp'',
     ClaimRef = Some \<lparr>ClaimNamespace = ''ns'', ClaimName = ''c''\<rparr>, PVCapacity = [], Phase = phase\<rparr>"

definition sample_volume :: "string \<Rightarrow> Volume" where
  "sample_volume phase = volume_of [(''drv'', ''vpc-file'')] sample_watcher (sample_pv phase)
     \<lparr>Driver = ''drv'', VolumeHandle = ''v1'', VolumeAttributes = []\<rparr> \<lparr>ClaimNamespace = ''ns'', ClaimName = ''c''\<rparr>
     \<lparr>VPCBlockProviderType = ''g2'', VPCBlockProviderName = ''vpc''\<rparr>"

lemma sample_contract: "filtering_contract (lib_Filtering sample_lib)"
  by (simp add: sample_lib_def documented_filtering_contract)

lemma sample_filter: "filter_pv sample_watcher (PVObject (Some (sample_pv phase)))"
  by (simp add: filter_pv_def sample_watcher_def sample_pv_def)

lemma sample_getVolume:
  "getVolume uni [(''drv'', ''vpc-file'')] sample_watcher (Some (sample_pv phase)) = Inr (sample_volume phase)"
  unfolding sample_volume_def
  by (rule getVolume_describable [where conf = "\<lparr>VPC = Some \<lparr>VPCBlockProviderType = ''g2'', VPCBlockProviderName = ''vpc''\<rparr>\<rparr>"])
    (simp_all add: sample_watcher_def sample_pv_def)

text \<open>One update of the sample volume, delivered and saved.\<close>

definition sample_saved :: "(unit, nat) watch_state" where
  "sample_saved = the (run_schedule (watch_step sample_lib sample_watcher) [0, 1, 1, 1]
     ((watch_init [(''drv'', ''vpc-file'')] 0)\<lparr>inbox :=
        [OnUpdate (PVObject (Some (sample_pv ''Available''))) (PVObject (Some (sample_pv ''Bound'')))]\<rparr>))"

lemma sample_run:
  "run_schedule (watch_step sample_lib sample_watcher) [0, 1, 1, 1]
     ((watch_init [(''drv'', ''vpc-file'')] 0)\<lparr>inbox :=
        [OnUpdate (PVObject (Some (sample_pv ''Available''))) (PVObject (Some (sample_pv ''Bound'')))]\<rparr>)
   = Some \<lparr>inbox = [], goroutines = [Updated (PVObject (Some (sample_pv ''Bound''))) None None],
       type_map = [(''drv'', ''vpc-file'')], outside = 1,
       trace = map (Pair 0) [entry_log, Log InfoLevel ''volume to update '' None, UpdateCall (sample_volume ''Bound'')],
       delivered = [OnUpdate (PVObject (Some (sample_pv ''Available''))) (PVObject (Some (sample_pv ''Bound'')))],
       spawned = [PVObject (Some (sample_pv ''Bound''))]\<rparr>"
  by (simp add: watch_init_def deliver_eq [OF sample_contract] watched_updates_def sample_filter)
    (simp add: sample_lib_def sample_getVolume)

lemmas sample_saved_eq = sample_saved_def [unfolded sample_run option.sel]

lemma sample_reach: "watch_reach sample_lib sample_watcher [(''drv'', ''vpc-file'')] 0 sample_saved"
  unfolding sample_saved_eq
  by (rule reach_schedule [OF sample_run])
    (use reach_arrive [OF watch_reach.reach_init [of sample_lib sample_watcher "[(''drv'', ''vpc-file'')]" 0]] in
      \<open>simp add: watch_init_def\<close>)

section \<open>Properties\<close>

text \<open>C8: the goroutines of the watcher do what updateVolume does in one go: in every reachable state of
  the run, with any interleaving with each other, with the informer and with the
  registration of other drivers, goroutine i has done a prefix of one run of updateVolume for
  its object with the type map the watcher started with, given some answers of the provider
  and of UpdateVolume, and all of it when it has finished; a panic in one is invisible to the
  others.\<close>

theorem watcher_refines_updateVolume:
  assumes "filtering_contract (lib_Filtering lib)" and "watch_reach lib pvw typeMap w s"
    and "i < length (goroutines s)"
  shows "\<exists>wa wb. prefix (effects_of i s) (atomic_run lib pvw typeMap (spawned s ! i) wa wb)
    \<and> (goroutines s ! i = Finished \<longrightarrow> effects_of i s = atomic_run lib pvw typeMap (spawned s ! i) wa wb)"
  by (rule goroutine_prefix [OF reach_watch_inv [OF assms(1,2)] assms(3)])

theorem watcher_refines_updateVolume_witness:
  "\<exists>wa wb. prefix (effects_of 0 sample_saved)
     (atomic_run sample_lib sample_watcher [(''drv'', ''vpc-file'')] (PVObject (Some (sample_pv ''Bound''))) wa wb)"
proof -
  have "0 < length (goroutines sample_saved)" and "spawned sample_saved ! 0 = PVObject (Some (sample_pv ''Bound''))"
    by (simp_all add: sample_saved_eq)
  then show ?thesis using watcher_refines_updateVolume [OF sample_contract sample_reach, of 0] by auto
qed

text \<open>C9: only updates are saved: in every reachable state the goroutines are, in order, those of the
  delivered updates whose volume passes the filter before and after; each calls UpdateVolume
  at most once, with the description of its new object. So as long as volumes are only
  listed, added, deleted or begin to match, nothing happens at all.\<close>

theorem watcher_saves_watched_updates:
  assumes "filtering_contract (lib_Filtering lib)" and "watch_reach lib pvw typeMap w s"
  shows "spawned s = watched_updates pvw (delivered s)
    \<and> (\<forall>i. length (updates (effects_of i s)) \<le> 1)
    \<and> (\<forall>i v. (i, UpdateCall v) \<in> set (trace s) \<longrightarrow> i < length (spawned s)
         \<and> getVolume (lib_unicode lib) typeMap pvw (as_pv (watched_updates pvw (delivered s) ! i)) = Inr v)
    \<and> (watched_updates pvw (delivered s) = [] \<longrightarrow> trace s = [])"
proof -
  note inv = reach_watch_inv [OF assms]
  have "length (updates (effects_of i s)) \<le> 1" for i using goroutine_updates [OF inv, of i] by auto
  moreover have "i < length (spawned s)
      \<and> getVolume (lib_unicode lib) typeMap pvw (as_pv (watched_updates pvw (delivered s) ! i)) = Inr v"
    if "(i, UpdateCall v) \<in> set (trace s)" for i v
    using saved_volume(1,2) [OF inv that] watch_invD(1) [OF inv] by simp
  moreover have "trace s = []" if none: "watched_updates pvw (delivered s) = []"
    using watch_invD(1,4) [OF inv] none by (intro trace_Nil) simp
  ultimately show ?thesis using watch_invD(1) [OF inv] by (intro conjI) auto
qed

theorem watcher_saves_watched_updates_witness:
  "spawned sample_saved = watched_updates sample_watcher (delivered sample_saved)
     \<and> watched_updates sample_watcher (delivered sample_saved) = [PVObject (Some (sample_pv ''Bound''))]"
  using watcher_saves_watched_updates [OF sample_contract sample_reach] by (simp add: sample_saved_eq)

text \<open>C10: every volume the watcher hands to UpdateVolume is well formed: its attributes are a map with
  exactly the cluster and the status, the status is created or deleted, a deleted one has
  neither tags nor capacity nor IOPS and a created one all of them, and its type is the one
  registered for the watcher's driver.\<close>

theorem saved_volume_well_formed:
  assumes "filtering_contract (lib_Filtering lib)" and "watch_reach lib pvw typeMap w s"
    and "(i, UpdateCall v) \<in> set (trace s)"
  shows "go_map_ok (Attributes v) \<and> set (map fst (Attributes v)) = {''clusterid'', ''status''}
    \<and> VolumeType v = map_read [] typeMap (provisionerName pvw)
    \<and> (if map_read [] (Attributes v) ''status'' = ''deleted''
       then Tags v = [] \<and> Capacity v = None \<and> Iops v = None
       else map_read [] (Attributes v) ''status'' = ''created''
         \<and> Tags v \<noteq> [] \<and> last (Tags v) = ''provisioner:'' @ provisionerName pvw
         \<and> Capacity v \<noteq> None \<and> Iops v \<noteq> None)"
proof -
  note saved = saved_volume [OF reach_watch_inv [OF assms(1,2)] assms(3)]
  obtain pv csi claim vpc where "v = volume_of typeMap pvw pv csi claim vpc" "Driver csi = provisionerName pvw"
    using filtered_volume [OF saved(3,2)] by blast
  then show ?thesis by (intro volume_of_well_formed) (simp_all add: volume_of_type)
qed

theorem saved_volume_well_formed_witness:
  "go_map_ok (Attributes (sample_volume ''Bound''))"
proof -
  have "(0, UpdateCall (sample_volume ''Bound'')) \<in> set (trace sample_saved)" by (simp add: sample_saved_eq)
  from saved_volume_well_formed [OF sample_contract sample_reach this] show ?thesis ..
qed



text \<open>C12: two updates of one volume can be saved in the wrong order: whatever the volume was before,
  there is a run in which the updates to \<open>o2\<close> and then to \<open>o3\<close> are delivered in this order,
  every goroutine finishes without error, and UpdateVolume is called with the description of
  \<open>o3\<close> first and of \<open>o2\<close> last, so that what is kept in the end is out of date.\<close>

theorem updates_may_be_reordered:
  assumes "filtering_contract (lib_Filtering lib)"
    and "lib_GetProviderSession lib (cloudProvider pvw) = (\<lambda>w. (Inr (Some session, None), gw w))"
    and "lib_UpdateVolume lib session = (\<lambda>v w. (Inr None, uw v w))"
    and "filter_pv pvw o1" and "filter_pv pvw o2" and "filter_pv pvw o3"
    and "getVolume (lib_unicode lib) typeMap pvw (as_pv o2) = Inr v2"
    and "getVolume (lib_unicode lib) typeMap pvw (as_pv o3) = Inr v3"
  shows "\<exists>s. watch_reach lib pvw typeMap w s \<and> delivered s = [OnUpdate o1 o2, OnUpdate o2 o3] \<and> watch_idle s
    \<and> updates (map snd (trace s)) = [v3, v2]"
proof -
  let ?s0 = "(watch_init typeMap w)\<lparr>inbox := [OnUpdate o1 o2, OnUpdate o2 o3]\<rparr>"
  let ?s1 = "?s0\<lparr>inbox := [], goroutines := [Spawned o2, Spawned o3], delivered := [OnUpdate o1 o2, OnUpdate o2 o3],
    spawned := [o2, o3]\<rparr>"
  have s0: "watch_reach lib pvw typeMap w ?s0"
    using reach_arrive [OF reach_arrive [OF watch_reach.reach_init, of lib pvw typeMap w "OnUpdate o1 o2"], of "OnUpdate o2 o3"]
    by (simp add: watch_init_def)
  have "run_schedule (watch_step lib pvw) [0, 0] ?s0 = Some ?s1"
    using assms(4-6) by (simp add: watch_init_def deliver_eq [OF assms(1)] watched_updates_def)
  note s1 = reach_schedule [OF this s0]
  let ?s2 = "the (run_schedule (watch_step lib pvw) (replicate 4 (Suc 1)) ?s1)"
  have run2: "run_schedule (watch_step lib pvw) (replicate 4 (Suc 1)) ?s1 = Some ?s2"
    and s2: "goroutines ?s2 = [Spawned o2, Finished]" "inbox ?s2 = []" "type_map ?s2 = typeMap"
      "delivered ?s2 = [OnUpdate o1 o2, OnUpdate o2 o3]" "updates (map snd (trace ?s2)) = [v3]"
    using goroutine_saves [OF assms(2,3), of 1 ?s1 o3 v3] assms(8) by (simp_all add: watch_init_def o_def)
  let ?s3 = "the (run_schedule (watch_step lib pvw) (replicate 4 (Suc 0)) ?s2)"
  have run3: "run_schedule (watch_step lib pvw) (replicate 4 (Suc 0)) ?s2 = Some ?s3"
    and s3: "goroutines ?s3 = [Finished, Finished]" "inbox ?s3 = []"
      "delivered ?s3 = [OnUpdate o1 o2, OnUpdate o2 o3]" "updates (map snd (trace ?s3)) = [v3, v2]"
    using goroutine_saves [OF assms(2,3), of 0 ?s2 o2 v2] assms(7) s2 by (simp_all add: o_def del: replicate_Suc)
  have "watch_reach lib pvw typeMap w ?s3" using reach_schedule [OF run3 reach_schedule [OF run2 s1]] .
  then show ?thesis using s3 by (intro exI [of _ ?s3]) (simp add: watch_idle_def)
qed

theorem updates_may_be_reordered_witness:
  "\<exists>s. watch_reach sample_lib sample_watcher [(''drv'', ''vpc-file'')] 0 s \<and> watch_idle s
     \<and> updates (map snd (trace s)) = [sample_volume ''Released'', sample_volume ''Bound'']
     \<and> map_read [] (Attributes (last (updates (map snd (trace s))))) ''status'' = ''created''"
proof -
  have g: "lib_GetProviderSession sample_lib (cloudProvider sample_watcher) = (\<lambda>n. (Inr (Some (), None), n))"
    and u: "lib_UpdateVolume sample_lib () = (\<lambda>v n. (Inr None, Suc n))" by (simp_all add: sample_lib_def)
  have v: "getVolume (lib_unicode sample_lib) [(''drv'', ''vpc-file'')] sample_watcher (as_pv (PVObject (Some (sample_pv phase))))
    = Inr (sample_volume phase)" for phase by (simp add: sample_getVolume)
  obtain s where "watch_reach sample_lib sample_watcher [(''drv'', ''vpc-file'')] 0 s" "watch_idle s"
    "updates (map snd (trace s)) = [sample_volume ''Released'', sample_volume ''Bound'']"
    using updates_may_be_reordered [OF sample_contract g u sample_filter sample_filter sample_filter
        v [of "''Bound''"] v [of "''Released''"]] by blast
  moreover have "map_read [] (Attributes (sample_volume ''Bound'')) ''status'' = ''created''"
    by (simp add: sample_volume_def volume_of_attributes sample_pv_def)
  ultimately show ?thesis by (intro exI [of _ s]) simp
qed

end
