(* ===== verification/WatcherRace.thy ===== *)
theory WatcherRace
  imports WatcherSaves
begin

text \<open>
  The accesses to VolumeTypeMap of pv\_watcher.go as what they are, reads by getVolume and writes
  by New that take time and are guarded by nothing. WatcherRun has each of them as one step; here
  they begin and end, two of them race when they overlap and one is a write, and after a race
  nothing is known any more. The theorems say when the coarse steps are right: in every run
  without a race, and races are impossible if all calls of New return before the first event
  arrives (or if a lock guarded the map), and possible otherwise.
\<close>

declare watch_step.simps [simp del]

section \<open>Accesses that take time\<close>

text \<open>
  \<open>readers\<close> are the goroutines whose read of the map is under way, \<open>writers\<close> the entries other
  calls of New are about to write; \<open>raced\<close> records that two conflicting accesses have
  overlapped, \<open>fatal\<close> that the Go runtime has noticed and stopped the process.
\<close>

record ('sess, 'w) race_state =
  sys :: "('sess, 'w) watch_state"
  readers :: "nat set"
  writers :: "(string \<times> string) list"
  raced :: bool
  fatal :: bool

text \<open>A goroutine at getVolume reads the map if nothing it dereferences before is nil.\<close>

fun reads_map :: "('k, 'cp) PVWatcher \<Rightarrow> 'sess goroutine \<Rightarrow> bool" where
  "reads_map pvw (HasSession obj session err) \<longleftrightarrow> describable pvw (as_pv obj)"
| "reads_map pvw _ \<longleftrightarrow> False"

definition at_map :: "('k, 'cp) PVWatcher \<Rightarrow> nat \<Rightarrow> ('sess, 'w) watch_state \<Rightarrow> bool" where
  "at_map pvw i s \<longleftrightarrow> i < length (goroutines s) \<and> reads_map pvw (goroutines s ! i)"

text \<open>What the program around the watcher may order: when events arrive, when reads and writes begin.\<close>

datatype race_event = Arrive | BeginRead | BeginWrite

type_synonym ('sess, 'w) discipline = "race_event \<Rightarrow> ('sess, 'w) race_state \<Rightarrow> bool"

text \<open>
  A read takes the map as it is at its end, which is how it was all the time if no write
  overlaps. By the Go memory model a race on a map may corrupt memory, so after one any state
  may follow (\<open>chaos\<close>); the runtime's own check may also end the process (\<open>crash\<close>).
\<close>

inductive race_trans ::
  "('sess, 'w) discipline \<Rightarrow> ('cp, 'sess, 'w) watch_lib \<Rightarrow> ('k, 'cp) PVWatcher
   \<Rightarrow> ('sess, 'w) race_state \<Rightarrow> ('sess, 'w) race_state \<Rightarrow> bool"
  for allowed lib pvw where
  inform: "\<not> fatal s \<Longrightarrow> watch_step lib pvw 0 (sys s) = Some s' \<Longrightarrow> race_trans allowed lib pvw s (s\<lparr>sys := s'\<rparr>)"
| move: "\<not> fatal s \<Longrightarrow> \<not> at_map pvw i (sys s) \<Longrightarrow> watch_step lib pvw (Suc i) (sys s) = Some s' \<Longrightarrow>
    race_trans allowed lib pvw s (s\<lparr>sys := s'\<rparr>)"
| arrives: "\<not> fatal s \<Longrightarrow> allowed Arrive s \<Longrightarrow>
    race_trans allowed lib pvw s (s\<lparr>sys := (sys s)\<lparr>inbox := inbox (sys s) @ [ev]\<rparr>\<rparr>)"
| begin_read: "\<not> fatal s \<Longrightarrow> allowed BeginRead s \<Longrightarrow> at_map pvw i (sys s) \<Longrightarrow> i \<notin> readers s \<Longrightarrow>
    race_trans allowed lib pvw s (s\<lparr>readers := insert i (readers s), raced := (raced s \<or> writers s \<noteq> [])\<rparr>)"
| end_read: "\<not> fatal s \<Longrightarrow> i \<in> readers s \<Longrightarrow> watch_step lib pvw (Suc i) (sys s) = Some s' \<Longrightarrow>
    race_trans allowed lib pvw s (s\<lparr>sys := s', readers := readers s - {i}\<rparr>)"
| begin_write: "\<not> fatal s \<Longrightarrow> allowed BeginWrite s \<Longrightarrow> prov \<noteq> provisionerName pvw \<Longrightarrow>
    race_trans allowed lib pvw s
      (s\<lparr>writers := writers s @ [(prov, ty)], raced := (raced s \<or> readers s \<noteq> {} \<or> writers s \<noteq> [])\<rparr>)"
| end_write: "\<not> fatal s \<Longrightarrow> (prov, ty) \<in> set (writers s) \<Longrightarrow>
    race_trans allowed lib pvw s
      (s\<lparr>sys := (sys s)\<lparr>type_map := register_type (type_map (sys s)) prov ty\<rparr>, writers := remove1 (prov, ty) (writers s)\<rparr>)"
| chaos: "\<not> fatal s \<Longrightarrow> raced s \<Longrightarrow> race_trans allowed lib pvw s (s'\<lparr>raced := True\<rparr>)"
| crash: "\<not> fatal s \<Longrightarrow> raced s \<Longrightarrow> race_trans allowed lib pvw s (s\<lparr>fatal := True\<rparr>)"

lemmas race_transE = race_trans.cases [consumes 1, case_names inform move arrives begin_read end_read begin_write end_write chaos crash]

definition race_init :: "string go_map \<Rightarrow> 'w \<Rightarrow> ('sess, 'w) race_state" where
  "race_init typeMap w = \<lparr>sys = watch_init typeMap w, readers = {}, writers = [], raced = False, fatal = False\<rparr>"

inductive race_reach ::
  "('sess, 'w) discipline \<Rightarrow> ('cp, 'sess, 'w) watch_lib \<Rightarrow> ('k, 'cp) PVWatcher \<Rightarrow> string go_map \<Rightarrow> 'w
   \<Rightarrow> ('sess, 'w) race_state \<Rightarrow> bool"
  for allowed lib pvw typeMap w where
  race_start: "race_reach allowed lib pvw typeMap w (race_init typeMap w)"
| race_next: "race_reach allowed lib pvw typeMap w s \<Longrightarrow> race_trans allowed lib pvw s s' \<Longrightarrow>
    race_reach allowed lib pvw typeMap w s'"

section \<open>Runs without a race\<close>

text \<open>The entries about to be written belong to other drivers.\<close>

definition foreign_writers :: "('k, 'cp) PVWatcher \<Rightarrow> ('sess, 'w) race_state \<Rightarrow> bool" where
  "foreign_writers pvw s \<longleftrightarrow> (\<forall>(prov, ty) \<in> set (writers s). prov \<noteq> provisionerName pvw)"

text \<open>A step that leaves no race behind is a step of the coarse system, or none of it.\<close>

lemma race_trans_projects:
  assumes "race_trans allowed lib pvw s s'" and "\<not> raced s'" and "foreign_writers pvw s"
  shows "\<not> raced s \<and> foreign_writers pvw s' \<and> (sys s' = sys s \<or> watch_trans lib pvw (sys s) (sys s'))"
  using assms(1)
proof (cases rule: race_transE)
  case (inform s1)
  then show ?thesis using assms by (auto simp: foreign_writers_def intro: watch_trans.thread)
next
  case (move i s1)
  then show ?thesis using assms by (auto simp: foreign_writers_def intro: watch_trans.thread)
next
  case (arrives ev)
  then show ?thesis using assms by (auto simp: foreign_writers_def intro: watch_trans.arrive)
next
  case (end_read i s1)
  then show ?thesis using assms by (auto simp: foreign_writers_def intro: watch_trans.thread)
next
  case (end_write prov ty)
  then have "prov \<noteq> provisionerName pvw" using assms(3) by (auto simp: foreign_writers_def)
  then have "watch_trans lib pvw (sys s) (sys s')" using end_write by (simp del: register_type_def add: watch_trans.register)
  then show ?thesis using assms end_write by (auto simp: foreign_writers_def dest: notin_set_remove1 [rotated])
qed (use assms in \<open>auto simp: foreign_writers_def\<close>)

lemma race_free_projects:
  assumes "race_reach allowed lib pvw typeMap w s"
  shows "\<not> raced s \<Longrightarrow> watch_reach lib pvw typeMap w (sys s) \<and> foreign_writers pvw s"
  using assms
proof (induction rule: race_reach.induct)
  case race_start
  show ?case by (simp add: race_init_def foreign_writers_def watch_reach.reach_init)
next
  case (race_next s s')
  show ?case
  proof (cases "raced s")
    case True
    from race_next.hyps(2) True have "raced s'" by (cases rule: race_transE) auto
    then show ?thesis using race_next.prems by simp
  next
    case False
    then have IH: "watch_reach lib pvw typeMap w (sys s)" "foreign_writers pvw s" using race_next.IH by auto
    from race_trans_projects [OF race_next.hyps(2) race_next.prems IH(2)]
    show ?thesis using IH(1) by (auto intro: watch_reach.reach_trans)
  qed
qed

fun any_time :: "('sess, 'w) discipline" where
  "any_time ev s \<longleftrightarrow> True"

text \<open>Conversely, each step of the coarse system can be made while no access is under way.\<close>

definition at_rest :: "('sess, 'w) race_state \<Rightarrow> bool" where
  "at_rest s \<longleftrightarrow> readers s = {} \<and> writers s = [] \<and> \<not> raced s \<and> \<not> fatal s"

lemma thread_at_rest:
  assumes "race_reach allowed lib pvw typeMap w rs" and "at_rest rs" and "watch_step lib pvw t (sys rs) = Some s'"
    and "allowed BeginRead rs"
  shows "\<exists>rs'. race_reach allowed lib pvw typeMap w rs' \<and> at_rest rs' \<and> sys rs' = s'"
proof (cases t)
  case 0
  then have "race_trans allowed lib pvw rs (rs\<lparr>sys := s'\<rparr>)"
    using assms(2,3) by (intro race_trans.inform) (simp_all add: at_rest_def)
  then show ?thesis using race_next [OF assms(1)] assms(2)
    by (intro exI [of _ "rs\<lparr>sys := s'\<rparr>"]) (simp add: at_rest_def)
next
  case (Suc i)
  show ?thesis
  proof (cases "at_map pvw i (sys rs)")
    case True
    let ?rs1 = "rs\<lparr>readers := {i}, raced := False\<rparr>"
    let ?rs2 = "?rs1\<lparr>sys := s', readers := {}\<rparr>"
    have "race_trans allowed lib pvw rs ?rs1"
      using race_trans.begin_read [of rs allowed pvw i lib] True assms(2,4) by (simp add: at_rest_def)
    moreover have "race_trans allowed lib pvw ?rs1 ?rs2"
      using race_trans.end_read [of ?rs1 i lib pvw s' allowed] assms(2,3) Suc by (simp add: at_rest_def)
    ultimately have "race_reach allowed lib pvw typeMap w ?rs2"
      by (rule race_next [OF race_next [OF assms(1)]])
    then show ?thesis using assms(2) by (intro exI [of _ ?rs2]) (simp add: at_rest_def)
  next
    case False
    then have "race_trans allowed lib pvw rs (rs\<lparr>sys := s'\<rparr>)"
      using assms(2,3) Suc by (intro race_trans.move) (simp_all add: at_rest_def)
    then show ?thesis using race_next [OF assms(1)] assms(2)
      by (intro exI [of _ "rs\<lparr>sys := s'\<rparr>"]) (simp add: at_rest_def)
  qed
qed

lemma access_at_rest:
  assumes "race_reach any_time lib pvw typeMap w rs" and "at_rest rs" and "watch_trans lib pvw (sys rs) s'"
  shows "\<exists>rs'. race_reach any_time lib pvw typeMap w rs' \<and> at_rest rs' \<and> sys rs' = s'"
  using assms(3)
proof (cases rule: watch_transE)
  case (thread t)
  show ?thesis by (rule thread_at_rest [OF assms(1,2) thread]) simp
next
  case (arrive ev)
  have "race_trans any_time lib pvw rs (rs\<lparr>sys := s'\<rparr>)"
    unfolding arrive using assms(2) by (intro race_trans.arrives) (simp_all add: at_rest_def)
  then show ?thesis using race_next [OF assms(1)] assms(2)
    by (intro exI [of _ "rs\<lparr>sys := s'\<rparr>"]) (simp add: at_rest_def)
next
  case (register prov ty)
  let ?rs1 = "rs\<lparr>writers := [(prov, ty)], raced := False\<rparr>"
  let ?rs2 = "?rs1\<lparr>sys := s', writers := []\<rparr>"
  have "race_trans any_time lib pvw rs ?rs1"
    using race_trans.begin_write [of rs any_time prov pvw lib ty] register assms(2) by (simp add: at_rest_def)
  moreover have "race_trans any_time lib pvw ?rs1 ?rs2"
    using race_trans.end_write [of ?rs1 prov ty any_time lib pvw] register assms(2) by (simp add: at_rest_def)
  ultimately have "race_reach any_time lib pvw typeMap w ?rs2"
    by (rule race_next [OF race_next [OF assms(1)]])
  then show ?thesis using assms(2) by (intro exI [of _ ?rs2]) (simp add: at_rest_def)
qed

lemma coarse_at_rest:
  "watch_reach lib pvw typeMap w s \<Longrightarrow> \<exists>rs. race_reach any_time lib pvw typeMap w rs \<and> at_rest rs \<and> sys rs = s"
proof (induction rule: watch_reach.induct)
  case reach_init
  show ?case by (intro exI [of _ "race_init typeMap w"]) (simp add: race_start at_rest_def, simp add: race_init_def)
next
  case (reach_trans s s')
  then obtain rs where rs: "race_reach any_time lib pvw typeMap w rs" "at_rest rs" "sys rs = s" by blast
  from reach_trans.hyps(2) have "watch_trans lib pvw (sys rs) s'" by (simp add: rs(3))
  with rs(1,2) show ?case by (rule access_at_rest)
qed

section \<open>Disciplines without races\<close>

text \<open>
  A discipline comes with an invariant, \<open>safe\<close>, under which no access it allows to begin meets a
  conflicting one.
\<close>

locale race_free_discipline =
  fixes allowed :: "('sess, 'w) discipline"
    and lib :: "('cp, 'sess, 'w) watch_lib"
    and pvw :: "('k, 'cp) PVWatcher"
    and safe :: "('sess, 'w) race_state \<Rightarrow> bool"
  assumes safe_init: "safe (race_init typeMap w)"
    and safe_read: "safe s \<Longrightarrow> allowed BeginRead s \<Longrightarrow> at_map pvw i (sys s) \<Longrightarrow> writers s = []"
    and safe_write: "safe s \<Longrightarrow> allowed BeginWrite s \<Longrightarrow> readers s = {} \<and> writers s = []"
    and safe_trans: "safe s \<Longrightarrow> race_trans allowed lib pvw s s' \<Longrightarrow> \<not> raced s \<Longrightarrow> \<not> raced s' \<Longrightarrow> safe s'"
begin

lemma no_race_trans:
  assumes "safe s" and "\<not> raced s" and "race_trans allowed lib pvw s s'"
  shows "\<not> raced s'"
  using assms(3)
proof (cases rule: race_transE)
  case (begin_read i)
  then show ?thesis using assms safe_read by simp
next
  case (begin_write prov ty)
  then show ?thesis using assms safe_write by simp
qed (use assms in simp_all)

lemma no_race: "race_reach allowed lib pvw typeMap w s \<Longrightarrow> safe s \<and> \<not> raced s"
proof (induction rule: race_reach.induct)
  case race_start
  show ?case using safe_init by (simp add: race_init_def)
next
  case (race_next s s')
  then show ?case using no_race_trans safe_trans by blast
qed

lemma atomic_accesses: "race_reach allowed lib pvw typeMap w s \<Longrightarrow> watch_reach lib pvw typeMap w (sys s)"
  using race_free_projects [of allowed lib pvw typeMap w s] no_race [of typeMap w s] by simp

end

text \<open>
  All watchers are made, one after the other, before the first event arrives: what a driver has
  to do. The second discipline is what a lock around the accesses would enforce.
\<close>

fun registered_first :: "('sess, 'w) discipline" where
  "registered_first Arrive s \<longleftrightarrow> writers s = []"
| "registered_first BeginRead s \<longleftrightarrow> True"
| "registered_first BeginWrite s \<longleftrightarrow> writers s = [] \<and> inbox (sys s) = [] \<and> delivered (sys s) = []"

fun under_lock :: "('sess, 'w) discipline" where
  "under_lock Arrive s \<longleftrightarrow> True"
| "under_lock BeginRead s \<longleftrightarrow> writers s = []"
| "under_lock BeginWrite s \<longleftrightarrow> readers s = {} \<and> writers s = []"

definition quiet_map :: "('sess, 'w) race_state \<Rightarrow> bool" where
  "quiet_map s \<longleftrightarrow>
     (\<forall>i \<in> readers s. i < length (goroutines (sys s)))
     \<and> (goroutines (sys s) \<noteq> [] \<longrightarrow> delivered (sys s) \<noteq> [])
     \<and> (writers s \<noteq> [] \<longrightarrow> inbox (sys s) = [] \<and> delivered (sys s) = [])"

lemma goroutines_kept:
  assumes "watch_step lib pvw (Suc i) s = Some s'"
  shows "length (goroutines s') = length (goroutines s)" and "delivered s' = delivered s" and "inbox s' = inbox s"
  using assms by (auto elim!: watch_step_cases)

lemma informer_keeps:
  assumes "watch_step lib pvw 0 s = Some s'"
  shows "inbox s \<noteq> []" and "delivered s' \<noteq> []" and "length (goroutines s) \<le> length (goroutines s')"
  using assms by (auto elim!: watch_step_cases)

lemma quiet_mapI:
  assumes "\<And>i. i \<in> readers s \<Longrightarrow> i < length (goroutines (sys s))"
    and "goroutines (sys s) \<noteq> [] \<Longrightarrow> delivered (sys s) \<noteq> []"
    and "writers s \<noteq> [] \<Longrightarrow> inbox (sys s) = []" and "writers s \<noteq> [] \<Longrightarrow> delivered (sys s) = []"
  shows "quiet_map s"
  using assms by (auto simp: quiet_map_def)

lemma quiet_mapD:
  assumes "quiet_map s"
  shows "i \<in> readers s \<Longrightarrow> i < length (goroutines (sys s))"
    and "goroutines (sys s) \<noteq> [] \<Longrightarrow> delivered (sys s) \<noteq> []"
    and "writers s \<noteq> [] \<Longrightarrow> inbox (sys s) = []" and "writers s \<noteq> [] \<Longrightarrow> delivered (sys s) = []"
  using assms by (auto simp: quiet_map_def)

lemma quiet_map_goroutine:
  assumes "quiet_map s" and "watch_step lib pvw (Suc i) (sys s) = Some s1" and "R \<subseteq> readers s"
  shows "quiet_map (s\<lparr>sys := s1, readers := R\<rparr>)"
proof (rule quiet_mapI)
  note kept = goroutines_kept [OF assms(2)]
  show "j < length (goroutines (sys (s\<lparr>sys := s1, readers := R\<rparr>)))" if "j \<in> readers (s\<lparr>sys := s1, readers := R\<rparr>)" for j
    using that kept(1) quiet_mapD(1) [OF assms(1)] assms(3) by auto
  show "delivered (sys (s\<lparr>sys := s1, readers := R\<rparr>)) \<noteq> []"
    if "goroutines (sys (s\<lparr>sys := s1, readers := R\<rparr>)) \<noteq> []"
    using that kept(1,2) quiet_mapD(2) [OF assms(1)] by (auto simp flip: length_greater_0_conv)
qed (use goroutines_kept [OF assms(2)] quiet_mapD(3,4) [OF assms(1)] in simp_all)

lemma quiet_map_trans:
  assumes "quiet_map s" and "race_trans registered_first lib pvw s s'" and "\<not> raced s"
  shows "quiet_map s'"
  using assms(2)
proof (cases rule: race_transE)
  case (inform s1)
  note kept = informer_keeps [OF inform(3)]
  have "writers s = []" using kept(1) quiet_mapD(3) [OF assms(1)] by blast
  then show ?thesis using kept quiet_mapD(1) [OF assms(1)] inform(1)
    by (intro quiet_mapI) (auto intro: less_le_trans)
next
  case (move i s1)
  then show ?thesis using quiet_map_goroutine [OF assms(1) move(4), of "readers s"] by simp
next
  case (end_read i s1)
  then show ?thesis using quiet_map_goroutine [OF assms(1) end_read(4), of "readers s - {i}"] by auto
next
  case (arrives ev)
  then show ?thesis using assms(1) by (simp add: quiet_map_def)
next
  case (begin_read i)
  then show ?thesis using assms(1) by (simp add: quiet_map_def at_map_def)
next
  case (begin_write prov ty)
  then show ?thesis using assms(1) by (auto simp: quiet_map_def)
next
  case (end_write prov ty)
  then have "writers s \<noteq> []" by auto
  then show ?thesis using end_write assms(1) by (auto simp: quiet_map_def)
qed (use assms(3) in simp_all)

interpretation registered: race_free_discipline registered_first lib pvw quiet_map
  for lib :: "('cp, 'sess, 'w) watch_lib" and pvw :: "('k, 'cp) PVWatcher"
proof
  fix s s' :: "('sess, 'w) race_state" and typeMap i and w :: 'w
  show "quiet_map (race_init typeMap w :: ('sess, 'w) race_state)"
    by (simp add: quiet_map_def race_init_def watch_init_def)
  show "writers s = []" if "quiet_map s" "registered_first BeginRead s" "at_map pvw i (sys s)"
    using that by (auto simp: quiet_map_def at_map_def)
  show "readers s = {} \<and> writers s = []" if "quiet_map s" "registered_first BeginWrite s"
    using that by (auto simp: quiet_map_def)
  show "quiet_map s'" if "quiet_map s" "race_trans registered_first lib pvw s s'" "\<not> raced s" "\<not> raced s'"
    using that(1-3) by (rule quiet_map_trans)
qed

interpretation locked: race_free_discipline under_lock lib pvw "\<lambda>s. True"
  for lib :: "('cp, 'sess, 'w) watch_lib" and pvw :: "('k, 'cp) PVWatcher"
  by unfold_locales auto

text \<open>Every schedule of the coarse system that starts at rest can be run with the registrations done first.\<close>

lemma registered_schedule:
  assumes "run_schedule (watch_step lib pvw) ts s = Some s'" and "race_reach registered_first lib pvw typeMap w rs"
    and "at_rest rs" and "sys rs = s"
  shows "\<exists>rs'. race_reach registered_first lib pvw typeMap w rs' \<and> at_rest rs' \<and> sys rs' = s'"
  using assms
proof (induction ts arbitrary: s rs)
  case (Cons t ts)
  obtain s1 where step: "watch_step lib pvw t (sys rs) = Some s1" and run: "run_schedule (watch_step lib pvw) ts s1 = Some s'"
    using Cons.prems(1,4) by (auto simp only: run_schedule_Cons_iff)
  have "registered_first BeginRead rs" by simp
  then obtain rs1 where "race_reach registered_first lib pvw typeMap w rs1" "at_rest rs1" "sys rs1 = s1"
    using thread_at_rest [OF Cons.prems(2,3) step] by blast
  then show ?case using Cons.IH [OF run] by blast
qed auto

lemma registered_arrival:
  "\<exists>rs. race_reach registered_first lib pvw typeMap w rs \<and> at_rest rs \<and> sys rs = (watch_init typeMap w)\<lparr>inbox := [ev]\<rparr>"
proof -
  let ?rs = "race_init typeMap w"
  have "race_trans registered_first lib pvw ?rs (?rs\<lparr>sys := (sys ?rs)\<lparr>inbox := [ev]\<rparr>\<rparr>)"
    using race_trans.arrives [of ?rs registered_first lib pvw ev] by (simp add: race_init_def watch_init_def)
  from race_next [OF race_start this] show ?thesis
    by (intro exI [of _ "?rs\<lparr>sys := (sys ?rs)\<lparr>inbox := [ev]\<rparr>\<rparr>"]) (simp add: race_init_def at_rest_def)
qed

section \<open>A race\<close>

text \<open>The first goroutine of a watched volume reaches getVolume.\<close>

lemma first_goroutine_reads:
  assumes "filtering_contract (lib_Filtering lib)" and "filter_pv pvw obj" and "describable pvw (as_pv obj)"
    and "fst (lib_GetProviderSession lib (cloudProvider pvw) w) = Inr (Some session, err)"
  shows "\<exists>s. race_reach any_time lib pvw typeMap w s \<and> at_map pvw 0 (sys s)
    \<and> readers s = {} \<and> writers s = [] \<and> \<not> fatal s"
proof -
  let ?s0 = "race_init typeMap w"
  let ?s1 = "?s0\<lparr>sys := (sys ?s0)\<lparr>inbox := [OnUpdate obj obj]\<rparr>\<rparr>"
  let ?w2 = "(sys ?s1)\<lparr>inbox := [], goroutines := [Spawned obj], delivered := [OnUpdate obj obj], spawned := [obj]\<rparr>"
  let ?s2 = "?s1\<lparr>sys := ?w2\<rparr>"
  obtain w' where call: "lib_GetProviderSession lib (cloudProvider pvw) w = (Inr (Some session, err), w')"
    using assms(4) by (cases "lib_GetProviderSession lib (cloudProvider pvw) w") simp
  let ?w3 = "?w2\<lparr>goroutines := [HasSession obj session err], outside := w', trace := [(0, entry_log)]\<rparr>"
  let ?s3 = "?s2\<lparr>sys := ?w3\<rparr>"
  have "deliver lib pvw (OnUpdate obj obj) = [obj]"
    using assms(2) by (simp add: deliver_eq [OF assms(1)] watched_updates_def)
  then have "watch_step lib pvw 0 (sys ?s1) = Some ?w2"
    by (simp add: watch_step.simps race_init_def watch_init_def)
  then have informed: "race_trans any_time lib pvw ?s1 ?s2"
    by (intro race_trans.inform) (simp_all add: race_init_def)
  have "watch_step lib pvw (Suc 0) (sys ?s2) = Some ?w3" "\<not> at_map pvw 0 (sys ?s2)"
    using call by (simp_all add: watch_step.simps race_init_def watch_init_def at_map_def)
  then have moved: "race_trans any_time lib pvw ?s2 ?s3"
    by (intro race_trans.move) (simp_all add: race_init_def)
  have arrived: "race_trans any_time lib pvw ?s0 ?s1"
    using race_trans.arrives [of ?s0 any_time lib pvw "OnUpdate obj obj"] by (simp add: race_init_def watch_init_def)
  have "race_reach any_time lib pvw typeMap w ?s3"
    by (rule race_next [OF race_next [OF race_next [OF race_start arrived] informed] moved])
  then show ?thesis using assms(3) by (intro exI [of _ ?s3]) (simp add: race_init_def at_map_def)
qed

lemma stopped: "fatal s \<Longrightarrow> \<not> race_trans allowed lib pvw s s'"
  by (auto elim: race_transE)

section \<open>Properties\<close>




text \<open>C15: Without such an order the program has a data race. As soon as a goroutine for a watched, complete
  volume has its session, a call of New for another driver can write VolumeTypeMap while getVolume
  reads it; nothing prevents this, and the Go runtime may then stop the process for good, the
  deferred recovery of updateVolume notwithstanding.\<close>

theorem late_registration_races:
  assumes "filtering_contract (lib_Filtering lib)" and "filter_pv pvw obj" and "describable pvw (as_pv obj)"
    and "fst (lib_GetProviderSession lib (cloudProvider pvw) w) = Inr (Some session, err)"
    and "prov \<noteq> provisionerName pvw"
  shows "\<exists>s i. race_reach any_time lib pvw typeMap w s \<and> i \<in> readers s \<and> at_map pvw i (sys s)
    \<and> writers s = [(prov, ty)] \<and> fatal s \<and> (\<forall>s'. \<not> race_trans any_time lib pvw s s')"
proof -
  obtain s where s: "race_reach any_time lib pvw typeMap w s" "at_map pvw 0 (sys s)" "readers s = {}" "writers s = []"
      "\<not> fatal s"
    using first_goroutine_reads [OF assms(1-4), of typeMap] by blast
  let ?s1 = "s\<lparr>readers := {0}, raced := raced s\<rparr>"
  let ?s2 = "?s1\<lparr>writers := [(prov, ty)], raced := True\<rparr>"
  let ?s3 = "?s2\<lparr>fatal := True\<rparr>"
  have "race_trans any_time lib pvw s ?s1"
    using race_trans.begin_read [of s any_time pvw 0 lib] s by simp
  moreover have "race_trans any_time lib pvw ?s1 ?s2"
    using race_trans.begin_write [of ?s1 any_time prov pvw lib ty] s assms(5) by simp
  moreover have "race_trans any_time lib pvw ?s2 ?s3" using s by (intro race_trans.crash) simp_all
  ultimately have "race_reach any_time lib pvw typeMap w ?s3"
    by (intro race_next [OF race_next [OF race_next [OF s(1)]]])
  then show ?thesis using s stopped [of ?s3 any_time lib pvw] by (intro exI [of _ ?s3] exI [of _ 0]) simp
qed

theorem late_registration_races_witness:
  "\<exists>s i. race_reach any_time sample_lib sample_watcher [(''drv'', ''vpc-file'')] 0 s \<and> i \<in> readers s
    \<and> writers s = [(''other'', ''vpc-block'')] \<and> fatal s"
proof -
  have "describable sample_watcher (as_pv (PVObject (Some (sample_pv ''Bound''))))"
    by (simp add: describable_def sample_watcher_def sample_pv_def)
  moreover have "fst (lib_GetProviderSession sample_lib (cloudProvider sample_watcher) 0) = Inr (Some (), None)"
    by (simp add: sample_lib_def)
  moreover have "''other'' \<noteq> provisionerName sample_watcher" by (simp add: sample_watcher_def)
  ultimately show ?thesis
    using late_registration_races [OF sample_contract sample_filter] by blast
qed

end
