(* ===== verification/TestLogger.thy ===== *)
theory TestLogger
  imports Logger
begin

text \<open>
  GetTestLogger, which pkg/utils/utils.go and pkg/ibmcloudprovider/fake\_volume\_provider.go both
  have: a zap logger for tests that writes every record to a buffer, and the function that
  shows the buffer when the test has failed. The encoder of zap, the production
  configuration it starts from and the ISO 8601 time encoder are parameters.
\<close>

section \<open>The parts of zap\<close>

record 'te encoder_config =
  TimeKey :: string
  EncodeTime :: 'te

text \<open>
  A logger of one core: what encodes a record, where the bytes go (a buffer, by its address),
  the level from which on records are written, and whether they name their caller.
\<close>

record 'te test_zap_logger =
  core_encoder :: "'te encoder_config"
  core_buffer :: nat
  core_level :: log_level
  add_caller :: bool

text \<open>The test a logger belongs to: whether it has failed, and what t.Log has printed.\<close>

record test_T =
  Failed :: bool
  printed :: "string list"

text \<open>The heap of buffers; \<open>&bytes.Buffer{}\<close> allocates an empty one.\<close>

type_synonym buffers = "string list"

section \<open>GetTestLogger\<close>

definition utils_GetTestLogger ::
  "'te encoder_config \<Rightarrow> 'te \<Rightarrow> buffers \<Rightarrow> (('te test_zap_logger) \<times> (test_T \<Rightarrow> buffers \<Rightarrow> test_T)) \<times> buffers" where
  "utils_GetTestLogger NewProductionEncoderConfig ISO8601TimeEncoder bufs =
     (let atom = DebugLevel;
          encoderCfg = NewProductionEncoderConfig;
          encoderCfg = encoderCfg\<lparr>TimeKey := ''timestamp''\<rparr>;
          encoderCfg = encoderCfg\<lparr>EncodeTime := ISO8601TimeEncoder\<rparr>;
          buf = length bufs;
          logger = \<lparr>core_encoder = encoderCfg, core_buffer = buf, core_level = atom, add_caller = True\<rparr>;
          teardown = (\<lambda>t heap. if Failed t then t\<lparr>printed := printed t @ [heap ! buf]\<rparr> else t)
      in ((logger, teardown), bufs @ [[]]))"

definition provider_GetTestLogger ::
  "'te encoder_config \<Rightarrow> 'te \<Rightarrow> buffers \<Rightarrow> (('te test_zap_logger) \<times> (test_T \<Rightarrow> buffers \<Rightarrow> test_T)) \<times> buffers" where
  "provider_GetTestLogger NewProductionEncoderConfig ISO8601TimeEncoder bufs =
     (let atom = DebugLevel;
          encoderCfg = NewProductionEncoderConfig;
          encoderCfg = encoderCfg\<lparr>TimeKey := ''timestamp''\<rparr>;
          encoderCfg = encoderCfg\<lparr>EncodeTime := ISO8601TimeEncoder\<rparr>;
          buf = length bufs;
          logger = \<lparr>core_encoder = encoderCfg, core_buffer = buf, core_level = atom, add_caller = True\<rparr>;
          teardown = (\<lambda>t heap. if Failed t then t\<lparr>printed := printed t @ [heap ! buf]\<rparr> else t)
      in ((logger, teardown), bufs @ [[]]))"

section \<open>Writing records\<close>

text \<open>
  A record is its level, its message and its caller; \<open>encode\<close> is zap's JSON encoder. A program
  writes with any of the loggers it has made, in any order.
\<close>

type_synonym log_record = "log_level \<times> string \<times> string"

definition test_write ::
  "('te encoder_config \<Rightarrow> log_record \<Rightarrow> string) \<Rightarrow> 'te test_zap_logger \<Rightarrow> log_record \<Rightarrow> buffers \<Rightarrow> buffers" where
  "test_write encode lg r bufs =
     (case r of (lvl, msg, caller) \<Rightarrow>
       if lvl \<ge> core_level lg then
         bufs[core_buffer lg := bufs ! core_buffer lg
            @ encode (core_encoder lg) (lvl, msg, if add_caller lg then caller else [])]
       else bufs)"

fun test_writes ::
  "('te encoder_config \<Rightarrow> log_record \<Rightarrow> string) \<Rightarrow> ('te test_zap_logger \<times> log_record) list \<Rightarrow> buffers \<Rightarrow> buffers" where
  "test_writes encode [] bufs = bufs"
| "test_writes encode ((lg, r) # rs) bufs = test_writes encode rs (test_write encode lg r bufs)"

lemma DebugLevel_least: "DebugLevel \<le> lvl"
  by (cases lvl) (simp_all add: less_eq_log_level_def)

lemma length_test_write [simp]: "length (test_write encode lg r bufs) = length bufs"
  by (simp add: test_write_def split: prod.split)

lemma test_write_own:
  assumes "core_level lg = DebugLevel" and "add_caller lg" and "core_buffer lg < length bufs"
  shows "test_write encode lg r bufs ! core_buffer lg = bufs ! core_buffer lg @ encode (core_encoder lg) r"
  using assms by (cases r) (simp add: test_write_def DebugLevel_least)

lemma test_write_other: "core_buffer lg \<noteq> i \<Longrightarrow> test_write encode lg r bufs ! i = bufs ! i"
  by (cases r) (simp add: test_write_def)

lemma test_writes_buffer:
  assumes "core_level lg = DebugLevel" and "add_caller lg" and "core_buffer lg < length bufs"
    and "\<forall>x \<in> set rs. core_buffer (fst x) = core_buffer lg \<longrightarrow> fst x = lg"
  shows "test_writes encode rs bufs ! core_buffer lg =
    bufs ! core_buffer lg @ concat (map (\<lambda>x. encode (core_encoder lg) (snd x)) (filter (\<lambda>x. fst x = lg) rs))"
  using assms(3,4)
proof (induction encode rs bufs rule: test_writes.induct)
  case (2 encode other r rs bufs)
  show ?case
  proof (cases "other = lg")
    case True
    then show ?thesis using 2 test_write_own [OF assms(1,2) 2(2), of encode r] by simp
  next
    case False
    then have "core_buffer other \<noteq> core_buffer lg" using 2(3) by auto
    then show ?thesis using 2 False test_write_other [of other "core_buffer lg" encode r bufs] by simp
  qed
qed simp

lemma GetTestLogger_same: "provider_GetTestLogger cfg te bufs = utils_GetTestLogger cfg te bufs"
  by (simp add: provider_GetTestLogger_def utils_GetTestLogger_def)

section \<open>Properties\<close>

text \<open>Both copies of GetTestLogger are the same function, and their loggers lose nothing: whatever
  a test writes with the logger, at any level, mixed in any order with records of loggers
  that have buffers of their own, its teardown prints, exactly when the test has failed, one
  text that is the encoding of these records in their order, and nothing of the others.\<close>

lemma test_logger_shows_failures:
  assumes "utils_GetTestLogger cfg te bufs = ((lg, teardown), bufs1)"
    and "\<forall>x \<in> set rs. core_buffer (fst x) = core_buffer lg \<longrightarrow> fst x = lg"
  shows "provider_GetTestLogger cfg te bufs = ((lg, teardown), bufs1)
    \<and> printed (teardown t (test_writes encode rs bufs1)) = printed t
        @ (if Failed t then [concat (map (\<lambda>x. encode (core_encoder lg) (snd x)) (filter (\<lambda>x. fst x = lg) rs))] else [])
    \<and> TimeKey (core_encoder lg) = ''timestamp'' \<and> EncodeTime (core_encoder lg) = te"
proof -
  have lg: "core_buffer lg = length bufs" "core_level lg = DebugLevel" "add_caller lg" "bufs1 = bufs @ [[]]"
    "teardown = (\<lambda>t heap. if Failed t then t\<lparr>printed := printed t @ [heap ! length bufs]\<rparr> else t)"
    using assms(1) by (auto simp: utils_GetTestLogger_def Let_def)
  have "test_writes encode rs bufs1 ! core_buffer lg = bufs1 ! core_buffer lg
      @ concat (map (\<lambda>x. encode (core_encoder lg) (snd x)) (filter (\<lambda>x. fst x = lg) rs))"
    using assms(2) lg by (intro test_writes_buffer) simp_all
  then have "test_writes encode rs bufs1 ! length bufs =
      concat (map (\<lambda>x. encode (core_encoder lg) (snd x)) (filter (\<lambda>x. fst x = lg) rs))"
    by (simp add: lg(1,4))
  moreover have "TimeKey (core_encoder lg) = ''timestamp''" "EncodeTime (core_encoder lg) = te"
    using assms(1) by (auto simp: utils_GetTestLogger_def Let_def)
  ultimately show ?thesis using assms(1) by (simp add: GetTestLogger_same lg(5))
qed

lemma test_logger_shows_failures_witness:
  "printed (snd (fst (utils_GetTestLogger \<lparr>TimeKey = ''ts'', EncodeTime = ()\<rparr> () []))
     \<lparr>Failed = True, printed = []\<rparr>
     (test_writes (\<lambda>cfg (lvl, msg, caller). msg)
       [(fst (fst (utils_GetTestLogger \<lparr>TimeKey = ''ts'', EncodeTime = ()\<rparr> () [])), DebugLevel, ''a'', []),
        (fst (fst (utils_GetTestLogger \<lparr>TimeKey = ''ts'', EncodeTime = ()\<rparr> () [])), InfoLevel, ''b'', [])] [[]]))
   = [''ab'']"
proof -
  let ?cfg = "\<lparr>TimeKey = ''ts'', EncodeTime = ()\<rparr>"
  let ?lg = "fst (fst (utils_GetTestLogger ?cfg () []))" and ?td = "snd (fst (utils_GetTestLogger ?cfg () []))"
  have "utils_GetTestLogger ?cfg () [] = ((?lg, ?td), [[]])" by (simp add: utils_GetTestLogger_def Let_def)
  from test_logger_shows_failures [OF this, of "[(?lg, DebugLevel, ''a'', []), (?lg, InfoLevel, ''b'', [])]"
      "\<lparr>Failed = True, printed = []\<rparr>" "\<lambda>cfg (lvl, msg, caller). msg"]
  show ?thesis by simp
qed

end
