(* ===== verification/LinkedTree.thy ===== *)
theory LinkedTree
  imports MountManager
begin

text \<open>
  MakeDir on trees with symbolic links, whatever calls fail: what it changes, and when its nil
  does not mean that the directory is there.
\<close>

section \<open>Trees with links\<close>

text \<open>The root is a directory and what there is is in directories; links lead anywhere.\<close>

definition linked_tree :: "fs \<Rightarrow> bool" where
  "linked_tree fs \<longleftrightarrow> fs [] = Some Dir \<and> (\<forall>p c. fs (p @ [c]) \<noteq> None \<longrightarrow> fs p = Some Dir)"

text \<open>A tree grows by directories.\<close>

definition grows :: "fs \<Rightarrow> fs \<Rightarrow> bool" where
  "grows fs fs' \<longleftrightarrow> (\<forall>q. fs' q = fs q \<or> fs q = None \<and> fs' q = Some Dir)"

lemma grows_refl [simp]: "grows fs fs"
  by (simp add: grows_def)

lemma grows_add: "grows fs fs' \<Longrightarrow> fs' q = None \<Longrightarrow> grows fs (fs'(q \<mapsto> Dir))"
  by (auto simp: grows_def) (metis option.distinct(1))

lemma linked_tree_add:
  assumes "linked_tree fs" and "fs d = Some Dir" and "fs (d @ [c]) = None"
  shows "linked_tree (fs(d @ [c] \<mapsto> Dir))"
proof -
  have "fs ((d @ [c]) @ [b]) = None" for b using assms(1,3) unfolding linked_tree_def by (metis option.distinct(1))
  then show ?thesis using assms unfolding linked_tree_def by (auto split: if_splits)
qed

lemma linked_tree_above: "linked_tree fs \<Longrightarrow> fs y = None \<Longrightarrow> fs (y @ r) = None"
proof (induction r rule: rev_induct)
  case (snoc c r)
  then have "fs (y @ r) = None" by blast
  then show ?case using snoc.prems(1) unfolding linked_tree_def
    by (metis append_assoc option.distinct(1))
qed simp

section \<open>Walks\<close>

text \<open>A walk that goes on passes through a directory.\<close>

lemma resolve_through:
  assumes "resolve n follow fs dir (cs @ r) = Inr q" and "r \<noteq> []" and "fs dir = Some Dir" and "fs [] = Some Dir"
  shows "\<exists>d. resolve n True fs dir cs = Inr d \<and> fs d = Some Dir"
  using assms
proof (induction n True fs dir cs rule: resolve.induct)
  case (2 n fs dir b cs)
  then show ?case by (auto simp: resolve.simps(2) split: if_splits option.splits node.splits)
qed simp

lemma resolve_parent:
  assumes "resolve n False fs [] (p @ [c]) = Inr x" and "fs [] = Some Dir"
  obtains d where "resolve n True fs [] p = Inr d" and "fs d = Some Dir" and "x = d @ [c]"
  using resolve_butlast [OF assms(1)] assms(2) by blast

text \<open>When the last name is no link, following it makes no difference.\<close>

lemma resolve_follow:
  "resolve n False fs dir cs = Inr x \<Longrightarrow> (\<forall>t. fs x \<noteq> Some (Link t)) \<Longrightarrow> resolve n True fs dir cs = Inr x"
  by (induction n False fs dir cs rule: resolve.induct)
    (auto simp: resolve.simps(2) split: if_splits option.splits node.splits)

text \<open>A walk that starts in a directory that is new sees new directories only.\<close>

lemma resolve_new:
  assumes "linked_tree fs"
  shows "resolve n follow fs' y cs = Inr x \<Longrightarrow> grows fs fs' \<Longrightarrow> fs y = None \<Longrightarrow> fs' y = Some Dir
    \<Longrightarrow> fs' x = None \<or> fs' x = Some Dir"
proof (induction n follow fs' y cs rule: resolve.induct)
  case (2 n follow fs' y c cs)
  note walk = "2.prems"(1) and old = "2.prems"(2)
  have none: "fs (y @ [c]) = None" using linked_tree_above [OF assms "2.prems"(3)] .
  then consider (missing) "fs' (y @ [c]) = None" | (new) "fs' (y @ [c]) = Some Dir"
    using old unfolding grows_def by metis
  then show ?case
  proof cases
    case missing
    then show ?thesis using walk by (auto simp: resolve.simps(2) split: if_splits)
  next
    case new
    then show ?thesis using "2.IH" walk old none by (auto simp: resolve.simps(2))
  qed
qed simp

text \<open>So what is no directory is found on the way it was found before.\<close>

lemma resolve_old:
  assumes "linked_tree fs"
  shows "resolve n follow fs' y cs = Inr x \<Longrightarrow> grows fs fs' \<Longrightarrow> fs' x \<noteq> None \<Longrightarrow> fs' x \<noteq> Some Dir
    \<Longrightarrow> resolve n follow fs y cs = Inr x"
proof (induction n follow fs' y cs rule: resolve.induct)
  case (2 n follow fs' y c cs)
  note walk = "2.prems"(1) and old = "2.prems"(2) and nd = "2.prems"(3,4)
  consider (same) "fs' (y @ [c]) = fs (y @ [c])" | (new) "fs (y @ [c]) = None" "fs' (y @ [c]) = Some Dir"
    using old unfolding grows_def by metis
  then show ?case
  proof cases
    case new
    have on: "resolve n follow fs' (y @ [c]) cs = Inr x" using walk new(2) by (simp add: resolve.simps(2))
    show ?thesis using resolve_new [OF assms on old new] nd by blast
  next
    case same
    show ?thesis
    proof (cases "fs (y @ [c])")
      case None
      then show ?thesis using walk same nd by (auto simp: resolve.simps(2) split: if_splits)
    next
      case (Some k)
      then show ?thesis using "2.IH" walk old nd same
        by (cases k) (auto simp: resolve.simps(2) split: if_splits)
    qed
  qed
qed simp

section \<open>MkdirAll\<close>

lemma os_Stat_iff: "os_Stat fs p = Inr nd \<longleftrightarrow> (\<exists>x. resolve max_links True fs [] p = Inr x \<and> fs x = Some nd)"
  by (auto simp: os_Stat_def split: sum.splits option.splits)

lemma os_Lstat_iff: "os_Lstat fs p = Inr nd \<longleftrightarrow> (\<exists>x. resolve max_links False fs [] p = Inr x \<and> fs x = Some nd)"
  by (auto simp: os_Lstat_def split: sum.splits option.splits)

lemma os_Lstat_Stat: "os_Lstat fs p = Inr nd \<Longrightarrow> (\<forall>t. nd \<noteq> Link t) \<Longrightarrow> os_Stat fs p = Inr nd"
  by (fastforce simp: os_Lstat_iff os_Stat_iff dest: resolve_follow)

lemma resolve_error: "resolve n follow fs dir cs = Inl e \<Longrightarrow> e \<noteq> EEXIST"
  by (induction n follow fs dir cs rule: resolve.induct)
    (auto simp: resolve.simps(2) split: if_splits option.splits node.splits)

text \<open>A path that leads to no directory but through which MkdirAll reports that something exists.\<close>

definition dangling_on :: "fs \<Rightarrow> path \<Rightarrow> bool" where
  "dangling_on fs p \<longleftrightarrow> (\<exists>q t e. prefix q p \<and> os_Lstat fs q = Inr (Link t) \<and> os_Stat fs q = Inl e)"

definition linked_effect :: "path \<Rightarrow> fs \<Rightarrow> os_error option \<Rightarrow> fs \<Rightarrow> bool" where
  "linked_effect p fs err fs' \<longleftrightarrow> linked_tree fs' \<and> grows fs fs' \<and> (err = None \<longrightarrow> os_Stat fs' p = Inr Dir)
     \<and> (\<forall>e. err = Some e \<longrightarrow> os_IsExist e \<longrightarrow> fs' = fs \<and> dangling_on fs p)"

lemma os_MkdirAll_dir: "os_Stat fs p = Inr Dir \<Longrightarrow> os_MkdirAll fault p fs = (None, fs)"
  by (subst os_MkdirAll.simps) simp

text \<open>The last step: the parent is there, and the path itself was not.\<close>

text \<open>Whatever sits at a missing path and is no directory is a link that leads nowhere.\<close>

lemma in_the_way_dangles:
  assumes old: "linked_tree fs" "grows fs fs1" and missing: "os_Stat fs (p @ [c]) = Inl s"
    and same: "os_Stat fs p = Inr Dir \<Longrightarrow> fs1 = fs"
    and at: "resolve max_links False fs1 [] (p @ [c]) = Inr x" "fs1 x = Some nd" and nodir: "nd \<noteq> Dir"
  shows "fs1 = fs \<and> dangling_on fs (p @ [c])"
proof -
  have walk: "resolve max_links False fs [] (p @ [c]) = Inr x" and x: "fs x = Some nd"
    using resolve_old [OF old(1) at(1) old(2)] at(2) nodir old(2) unfolding grows_def
    by (metis option.inject option.distinct(1))+
  then have l: "os_Lstat fs (p @ [c]) = Inr nd" by (auto simp: os_Lstat_iff)
  then obtain t where "nd = Link t" using os_Lstat_Stat [OF l] missing by auto
  moreover have "os_Stat fs p = Inr Dir"
    using resolve_parent [OF walk] old(1) by (auto simp: os_Stat_iff linked_tree_def)
  ultimately show ?thesis using same l missing by (auto simp: dangling_on_def)
qed

lemma mkdir_last:
  assumes tree: "linked_tree fs1" and old: "linked_tree fs" "grows fs fs1" and missing: "os_Stat fs (p @ [c]) = Inl s"
    and parent: "os_Stat fs1 p = Inr Dir" and same: "os_Stat fs p = Inr Dir \<Longrightarrow> fs1 = fs"
    and result: "(err, fs') = (case os_Mkdir fault (p @ [c]) fs1 of
          (None, fs2) \<Rightarrow> (None, fs2)
        | (Some err, fs2) \<Rightarrow> (if os_Lstat fs2 (p @ [c]) = Inr Dir then None else Some err, fs2))"
  shows "linked_effect (p @ [c]) fs err fs'"
proof -
  have root: "fs1 [] = Some Dir" "fs [] = Some Dir" using tree old by (simp_all add: linked_tree_def)
  have exists: "linked_effect (p @ [c]) fs (if os_Lstat fs1 (p @ [c]) = Inr Dir then None else Some e) fs1"
    if e: "os_IsExist e \<Longrightarrow> os_Lstat fs1 (p @ [c]) \<noteq> Inr Dir \<Longrightarrow> fs1 = fs \<and> dangling_on fs (p @ [c])" for e
    using tree old(2) e os_Lstat_Stat [of fs1 "p @ [c]" Dir] by (auto simp: linked_effect_def)
  show ?thesis
  proof (cases "fault ''mkdir'' (p @ [c])")
    case (Some x)
    then show ?thesis using result exists [of "PathError ''mkdir'' (p @ [c]) (EnvFault x)"] by (simp add: os_Mkdir_def)
  next
    case nofault: None
    show ?thesis
    proof (cases "resolve max_links False fs1 [] (p @ [c])")
      case (Inl e)
      then show ?thesis
        using result exists [of "PathError ''mkdir'' (p @ [c]) e"] nofault resolve_error [OF Inl] by (simp add: os_Mkdir_def)
    next
      case (Inr x)
      obtain d where d: "fs1 d = Some Dir" "x = d @ [c]" using resolve_parent [OF Inr root(1)] .
      show ?thesis
      proof (cases "fs1 x")
        case None
        then have r: "err = None" "fs' = fs1(x \<mapsto> Dir)" using result nofault Inr by (simp_all add: os_Mkdir_def)
        have "resolve max_links True fs1 [] (p @ [c]) = Inr x" using resolve_follow [OF Inr] None by simp
        then have "resolve max_links True (fs1(x \<mapsto> Dir)) [] (p @ [c]) = Inr x" using None by (intro resolve_add) auto
        then have "os_Stat fs' (p @ [c]) = Inr Dir" by (auto simp: os_Stat_iff r)
        then show ?thesis using r d None tree old(2) linked_tree_add [of fs1 d c] grows_add
          by (simp add: linked_effect_def)
      next
        case (Some nd)
        have D: "fs1 = fs \<and> dangling_on fs (p @ [c])" if "os_Lstat fs1 (p @ [c]) \<noteq> Inr Dir"
          using in_the_way_dangles [OF old missing same Inr Some] that Inr Some by (auto simp: os_Lstat_iff)
        have "err = (if os_Lstat fs1 (p @ [c]) = Inr Dir then None else Some (PathError ''mkdir'' (p @ [c]) EEXIST))"
          and "fs' = fs1" using result nofault Inr Some by (simp_all add: os_Mkdir_def)
        then show ?thesis by (simp only:) (rule exists, rule D)
      qed
    qed
  qed
qed

lemma dangling_on_snoc: "dangling_on fs p \<Longrightarrow> dangling_on fs (p @ [c])"
  unfolding dangling_on_def by (meson prefix_order.order_trans prefixI)

lemma os_MkdirAll_linked:
  assumes "linked_tree fs"
  shows "linked_effect p fs (fst (os_MkdirAll fault p fs)) (snd (os_MkdirAll fault p fs))"
proof (induction p rule: rev_induct)
  case Nil
  have "os_Stat fs [] = Inr Dir" using assms by (simp add: os_Stat_iff linked_tree_def)
  then show ?case using assms by (simp add: os_MkdirAll_dir linked_effect_def)
next
  case (snoc c p)
  have root: "os_Stat fs [] = Inr Dir" using assms by (simp add: os_Stat_iff linked_tree_def)
  show ?case
  proof (cases "os_Stat fs (p @ [c])")
    case (Inr nd)
    then show ?thesis using assms by (subst (1 2) os_MkdirAll.simps) (simp add: linked_effect_def)
  next
    case (Inl s)
    have parent: "(if p = [] then (None, fs) else os_MkdirAll fault p fs) = os_MkdirAll fault p fs"
      using os_MkdirAll_dir [OF root] by simp
    obtain err1 fs1 where r: "os_MkdirAll fault p fs = (err1, fs1)" by force
    then have eff: "linked_effect p fs err1 fs1" using snoc by simp
    show ?thesis
    proof (cases err1)
      case (Some e)
      then show ?thesis using eff dangling_on_snoc
        by (simp add: os_MkdirAll_snoc [OF Inl] parent r) (auto simp: linked_effect_def)
    next
      case None
      obtain err fs' where res: "os_MkdirAll fault (p @ [c]) fs = (err, fs')" by force
      have "linked_effect (p @ [c]) fs err fs'"
      proof (rule mkdir_last)
        show "linked_tree fs1" "grows fs fs1" "os_Stat fs1 p = Inr Dir" using eff None by (simp_all add: linked_effect_def)
        show "fs1 = fs" if "os_Stat fs p = Inr Dir" using r os_MkdirAll_dir [OF that] by simp
        show "(err, fs') = (case os_Mkdir fault (p @ [c]) fs1 of
          (None, fs2) \<Rightarrow> (None, fs2)
        | (Some err, fs2) \<Rightarrow> (if os_Lstat fs2 (p @ [c]) = Inr Dir then None else Some err, fs2))"
          using res os_MkdirAll_snoc [OF Inl] by (simp add: parent r None)
      qed (use assms Inl in auto)
      then show ?thesis by (simp add: res)
    qed
  qed
qed

section \<open>A dangling link on the way\<close>

lemma resolve_append:
  assumes "resolve n True fs [] (q @ r) = Inr x" and "fs [] = Some Dir" and "fs x \<noteq> None"
  shows "\<exists>y nd. resolve n True fs [] q = Inr y \<and> fs y = Some nd"
  using assms resolve_through [of n True fs "[]" q r x] by (cases "r = []") auto

lemma dangling_Stat:
  assumes "fs [] = Some Dir" and "os_Stat fs q = Inl e"
  shows "\<exists>e'. os_Stat fs (q @ r) = Inl e'"
proof (cases "os_Stat fs (q @ r)")
  case (Inr nd)
  then obtain x where "resolve max_links True fs [] (q @ r) = Inr x" "fs x = Some nd" by (auto simp: os_Stat_iff)
  then have "\<exists>nd. os_Stat fs q = Inr nd" using resolve_append [of max_links fs q r x] assms(1) by (auto simp: os_Stat_iff)
  then show ?thesis using assms(2) by simp
qed blast

text \<open>MkdirAll goes up to the link, cannot make it, and comes back with the error that it exists.\<close>

lemma os_MkdirAll_dangling:
  assumes "fs [] = Some Dir" and "os_Lstat fs q = Inr (Link t)" and "os_Stat fs q = Inl e" and "fault ''mkdir'' q = None"
  shows "os_MkdirAll fault (q @ r) fs = (Some (PathError ''mkdir'' q EEXIST), fs)"
proof (induction r rule: rev_induct)
  case Nil
  show ?case using os_MkdirAll_link [of fs q t e fault] assms by simp
next
  case (snoc c r)
  obtain e' where "os_Stat fs ((q @ r) @ [c]) = Inl e'" using dangling_Stat [OF assms(1,3), of "r @ [c]"] by auto
  moreover have "q \<noteq> []" using assms(1,3) by (auto simp: os_Stat_def)
  ultimately show ?case using snoc os_MkdirAll_snoc [of fs "q @ r" c e' fault] by simp
qed

section \<open>Properties\<close>

text \<open>C31: MakeDir on any tree, with symbolic links and whatever calls fail: it changes nothing but to add
  directories, and nil means that the path leads to a directory, with one exception, which
  always has this effect: when the path goes through a symbolic link that leads nowhere,
  MakeDir makes nothing and still returns nil.\<close>

theorem MakeDir_on_links:
  assumes "linked_tree fs"
  shows "(case MakeDir fault p fs of (err, fs') \<Rightarrow>
      linked_tree fs' \<and> (\<forall>q. fs' q = fs q \<or> fs q = None \<and> fs' q = Some Dir)
      \<and> (err = None \<longrightarrow> os_Stat fs' p = Inr Dir \<or> fs' = fs \<and> dangling_on fs p))
    \<and> (\<forall>q t e. prefix q p \<longrightarrow> os_Lstat fs q = Inr (Link t) \<longrightarrow> os_Stat fs q = Inl e \<longrightarrow> fault ''mkdir'' q = None
        \<longrightarrow> MakeDir fault p fs = (None, fs) \<and> (\<exists>e'. os_Stat fs p = Inl e'))"
proof (intro conjI allI impI)
  obtain err fs' where r: "os_MkdirAll fault p fs = (err, fs')" by force
  then have "linked_effect p fs err fs'" using os_MkdirAll_linked [OF assms, of p fault] by simp
  then show "case MakeDir fault p fs of (err, fs') \<Rightarrow>
      linked_tree fs' \<and> (\<forall>q. fs' q = fs q \<or> fs q = None \<and> fs' q = Some Dir)
      \<and> (err = None \<longrightarrow> os_Stat fs' p = Inr Dir \<or> fs' = fs \<and> dangling_on fs p)"
    unfolding linked_effect_def grows_def by (cases err) (auto simp: MakeDir_def r split: if_splits)
next
  fix q t e
  assume link: "prefix q p" "os_Lstat fs q = Inr (Link t)" "os_Stat fs q = Inl e" "fault ''mkdir'' q = None"
  have root: "fs [] = Some Dir" using assms by (simp add: linked_tree_def)
  obtain r where p: "p = q @ r" using link(1) by (auto simp: prefix_def)
  show "MakeDir fault p fs = (None, fs)"
    using os_MkdirAll_dangling [of fs q t e fault r] root link by (simp add: MakeDir_def p)
  show "\<exists>e'. os_Stat fs p = Inl e'" using dangling_Stat [of fs q e r] root link(3) p by simp
qed

theorem MakeDir_on_links_witness:
  "MakeDir no_fault [''v'', ''a''] [[] \<mapsto> Dir, [''v''] \<mapsto> Link [''gone'']] = (None, [[] \<mapsto> Dir, [''v''] \<mapsto> Link [''gone'']])"
proof -
  let ?fs = "[[] \<mapsto> Dir, [''v''] \<mapsto> Link [''gone'']]"
  have "linked_tree ?fs" by (auto simp: linked_tree_def)
  moreover have "os_Lstat ?fs [''v''] = Inr (Link [''gone''])" "os_Stat ?fs [''v''] = Inl ENOENT"
    by (simp_all add: os_Lstat_def os_Stat_def resolve.simps(2) max_links_def)
  ultimately show ?thesis
    using MakeDir_on_links [where fs = ?fs and fault = no_fault and p = "[''v'', ''a'']", THEN conjunct2,
        THEN spec, THEN spec, THEN spec, of "[''v'']" "[''gone'']" ENOENT] by (simp add: no_fault_def)
qed

end
