(* ===== verification/Mounters.thy ===== *)
theory Mounters
  imports MountManager
begin

text \<open>
  The interface Mounter of safe-mounter.go as a record of methods over a state, and its four
  implementations as values of it: NodeMounter on Linux and elsewhere, FakeNodeMounter and the
  fake with custom actions. Two locales are the contracts a driver that holds a Mounter can
  rely on; the interpretations say which implementation keeps which.
\<close>

section \<open>The interface\<close>

text \<open>
  \<open>mountInterface\<close> is the embedded interface of the mount library: its methods are those of the
  Interface of the SafeFormatAndMount an implementation embeds, and calling one through a nil
  pointer panics. The other fields are the methods of Mounter itself.
\<close>

record ('s, 'i, 'e) Mounter =
  mountInterface :: "'s \<Rightarrow> 'i can_panic"
  call_MountEITBasedFileShare :: "string \<Rightarrow> string \<Rightarrow> string \<Rightarrow> string \<Rightarrow> string \<Rightarrow> 's \<Rightarrow> string go_result \<times> 's"
  call_GetSafeFormatAndMount :: "'s \<Rightarrow> ('i, 'e) SafeFormatAndMount option"
  call_MakeFile :: "string \<Rightarrow> 's \<Rightarrow> go_error option \<times> 's"
  call_MakeDir :: "string \<Rightarrow> 's \<Rightarrow> go_error option \<times> 's"
  call_PathExists :: "string \<Rightarrow> 's \<Rightarrow> bool go_result \<times> 's"
  call_Resize :: "string \<Rightarrow> string \<Rightarrow> 's \<Rightarrow> (bool go_result \<times> 's) can_panic"

definition promoted :: "('i, 'e) SafeFormatAndMount option \<Rightarrow> 'i can_panic" where
  "promoted sfm = bind_panic (deref sfm) (\<lambda>x. Inr (Interface x))"

text \<open>A method that needs nothing of its receiver and changes nothing.\<close>

definition constant_method :: "'a \<Rightarrow> 's \<Rightarrow> 'a \<times> 's" where
  "constant_method a s = (a, s)"

section \<open>The implementations\<close>

text \<open>
  What NodeMounter works on: its own struct, the file system and the world behind the libraries,
  which are the parameters collected in \<open>node_env\<close>. A path name is split by \<open>split_path\<close> and an
  error of package os has the text \<open>os_text\<close>.
\<close>

record ('i, 'e, 'w) node_state =
  node_mounter :: "('i, 'e) NodeMounter"
  tree :: fs
  world :: 'w

record ('e, 'w) node_env =
  env_Getenv :: "string \<Rightarrow> string"
  env_url_error :: "string \<Rightarrow> go_error option"
  env_Do :: "'w exchange"
  env_json_text :: "json_error \<Rightarrow> string \<Rightarrow> go_error"
  env_fault :: fault
  split_path :: "string \<Rightarrow> path"
  os_text :: "os_error \<Rightarrow> go_error"
  env_PathExists :: "fs \<Rightarrow> string \<Rightarrow> bool go_result"
  env_NeedResize :: "'e \<Rightarrow> 'w resize_call"
  env_Resize :: "'e \<Rightarrow> 'w resize_call"

definition on_tree ::
  "(os_error \<Rightarrow> go_error) \<Rightarrow> (fs \<Rightarrow> os_error option \<times> fs) \<Rightarrow> ('i, 'e, 'w) node_state
   \<Rightarrow> go_error option \<times> ('i, 'e, 'w) node_state" where
  "on_tree text f s = (case f (tree s) of (err, fs) \<Rightarrow> (map_option text err, s\<lparr>tree := fs\<rparr>))"

definition NodeMounter_impl :: "('e, 'w) node_env \<Rightarrow> (('i, 'e, 'w) node_state, 'i, 'e) Mounter" where
  "NodeMounter_impl env =
     \<lparr>mountInterface = (\<lambda>s. promoted (SafeFormatAndMount_of (node_mounter s))),
      call_MountEITBasedFileShare = (\<lambda>mountPath targetPath fsType transitEncryption requestID s.
        (case MountEITBasedFileShare (env_Getenv env) (env_url_error env) (env_Do env) (env_json_text env)
                mountPath targetPath fsType transitEncryption requestID (world s) of
           (r, w) \<Rightarrow> (r, s\<lparr>world := w\<rparr>))),
      call_GetSafeFormatAndMount = (\<lambda>s. GetSafeFormatAndMount (node_mounter s)),
      call_MakeFile = (\<lambda>path. on_tree (os_text env) (MakeFile (env_fault env) (split_path env path))),
      call_MakeDir = (\<lambda>path. on_tree (os_text env) (MakeDir (env_fault env) (split_path env path))),
      call_PathExists = (\<lambda>path s. (PathExists (env_PathExists env (tree s)) path, s)),
      call_Resize = (\<lambda>devicePath deviceMountPath s.
        map_sum (\<lambda>p. p) (map_prod (\<lambda>r. r) (\<lambda>w. s\<lparr>world := w\<rparr>))
          (Resize (env_NeedResize env) (env_Resize env) (node_mounter s) devicePath deviceMountPath (world s)))\<rparr>"

definition unsupported_impl :: "(('i, 'e) NodeMounter, 'i, 'e) Mounter" where
  "unsupported_impl =
     \<lparr>mountInterface = (\<lambda>m. promoted (SafeFormatAndMount_of m)),
      call_MountEITBasedFileShare = (\<lambda>mountPath targetPath fsType transitEncryption requestID.
        constant_method (unsupported_MountEITBasedFileShare mountPath targetPath fsType transitEncryption requestID)),
      call_GetSafeFormatAndMount = unsupported_GetSafeFormatAndMount,
      call_MakeFile = (\<lambda>path. constant_method (unsupported_MakeFile path)),
      call_MakeDir = (\<lambda>path. constant_method (unsupported_MakeDir path)),
      call_PathExists = (\<lambda>path. constant_method (unsupported_PathExists path)),
      call_Resize = (\<lambda>devicePath deviceMountPath m. Inr (unsupported_Resize devicePath deviceMountPath, m))\<rparr>"

type_synonym 'act FakeNodeMounter = "(MountPoint list, 'act FakeExec) NodeMounter"

definition FakeNodeMounter_impl :: "('act FakeNodeMounter, MountPoint list, 'act FakeExec) Mounter" where
  "FakeNodeMounter_impl =
     \<lparr>mountInterface = (\<lambda>f. promoted (SafeFormatAndMount_of f)),
      call_MountEITBasedFileShare = (\<lambda>mountPath targetPath fsType transitEncryption requestID.
        constant_method (fake_MountEITBasedFileShare mountPath targetPath fsType transitEncryption requestID)),
      call_GetSafeFormatAndMount = fake_GetSafeFormatAndMount,
      call_MakeFile = (\<lambda>path. constant_method (fake_MakeFile path)),
      call_MakeDir = (\<lambda>path. constant_method (fake_MakeDir path)),
      call_PathExists = (\<lambda>path. constant_method (fake_PathExists path)),
      call_Resize = (\<lambda>devicePath deviceMountPath f. Inr (fake_Resize devicePath deviceMountPath, f))\<rparr>"

text \<open>The fake with custom actions runs the library's ResizeFs over its scripted commands.\<close>

definition custom_impl ::
  "('act FakeExec \<Rightarrow> 'w resize_call) \<Rightarrow> ('act FakeExec \<Rightarrow> 'w resize_call)
   \<Rightarrow> ('act FakeNodeMounterWithCustomActions \<times> 'w, MountPoint list, 'act FakeExec) Mounter" where
  "custom_impl NeedResize ResizeFs_Resize =
     \<lparr>mountInterface = (\<lambda>s. promoted (SafeFormatAndMount_of (fst s))),
      call_MountEITBasedFileShare = (\<lambda>mountPath targetPath fsType transitEncryption requestID.
        constant_method (custom_MountEITBasedFileShare mountPath targetPath fsType transitEncryption requestID)),
      call_GetSafeFormatAndMount = (\<lambda>s. custom_GetSafeFormatAndMount (fst s)),
      call_MakeFile = (\<lambda>path. constant_method (custom_MakeFile path)),
      call_MakeDir = (\<lambda>path. constant_method (custom_MakeDir path)),
      call_PathExists = (\<lambda>path. constant_method (custom_PathExists path)),
      call_Resize = (\<lambda>devicePath deviceMountPath s.
        map_sum (\<lambda>p. p) (map_prod (\<lambda>r. r) (Pair (fst s)))
          (custom_Resize NeedResize ResizeFs_Resize (fst s) devicePath deviceMountPath (snd s)))\<rparr>"

section \<open>The contracts\<close>

text \<open>A driver's calls, and their effect on the state; a panic ends the sequence.\<close>

datatype mounter_op =
    OpMount string string string string string
  | OpMakeFile string
  | OpMakeDir string
  | OpPathExists string
  | OpResize string string

fun mounter_step :: "('s, 'i, 'e) Mounter \<Rightarrow> mounter_op \<Rightarrow> 's \<Rightarrow> 's can_panic" where
  "mounter_step m (OpMount a b c d e) s = Inr (snd (call_MountEITBasedFileShare m a b c d e s))"
| "mounter_step m (OpMakeFile p) s = Inr (snd (call_MakeFile m p s))"
| "mounter_step m (OpMakeDir p) s = Inr (snd (call_MakeDir m p s))"
| "mounter_step m (OpPathExists p) s = Inr (snd (call_PathExists m p s))"
| "mounter_step m (OpResize a b) s = map_sum (\<lambda>p. p) snd (call_Resize m a b s)"

fun mounter_run :: "('s, 'i, 'e) Mounter \<Rightarrow> mounter_op list \<Rightarrow> 's \<Rightarrow> 's can_panic" where
  "mounter_run m [] s = Inr s"
| "mounter_run m (x # xs) s = bind_panic (mounter_step m x s) (mounter_run m xs)"

text \<open>
  Every implementation: no call changes what is mounted through, the description of a failed
  mount comes with its error, and a mounter that has its SafeFormatAndMount does not panic.
\<close>

locale mounter =
  fixes m :: "('s, 'i, 'e) Mounter"
    and embedded :: "'s \<Rightarrow> ('i, 'e) SafeFormatAndMount option"
  assumes step_embedded: "mounter_step m x s = Inr s' \<Longrightarrow> embedded s' = embedded s"
    and promotes: "mountInterface m s = promoted (embedded s)"
    and mount_text: "call_MountEITBasedFileShare m a b c d e s = ((t, None), s') \<Longrightarrow> t = []"
    and step_runs: "embedded s = Some sfm \<Longrightarrow> \<exists>s'. mounter_step m x s = Inr s'"
begin

lemma run_embedded: "mounter_run m xs s = Inr s' \<Longrightarrow> embedded s' = embedded s"
  by (induction xs arbitrary: s) (auto simp: bind_panic_Inr_iff dest: step_embedded)

lemma run_runs:
  assumes "embedded s = Some sfm"
  shows "\<exists>s'. mounter_run m xs s = Inr s' \<and> embedded s' = Some sfm \<and> mountInterface m s' = Inr (Interface sfm)"
  using assms
proof (induction xs arbitrary: s)
  case Nil
  then show ?case by (simp add: promotes promoted_def)
next
  case (Cons x xs)
  obtain s1 where s1: "mounter_step m x s = Inr s1" using step_runs [OF Cons.prems] by blast
  then have "embedded s1 = Some sfm" using step_embedded Cons.prems by simp
  then show ?case using Cons.IH s1 by simp
qed

end

text \<open>Those that resize as the mount library does: the answer is true just when there is no error.\<close>

locale resizing_mounter = mounter m embedded
  for m :: "('s, 'i, 'e) Mounter" and embedded :: "'s \<Rightarrow> ('i, 'e) SafeFormatAndMount option" +
  assumes resize_answer: "call_Resize m a b s = Inr ((ok, err), s') \<Longrightarrow> ok \<longleftrightarrow> err = None"
begin

text \<open>A driver may look at the error alone.\<close>

lemma resize_error_decides:
  assumes "embedded s = Some sfm"
  obtains (resized) s' where "call_Resize m a b s = Inr ((True, None), s')"
  | (failed) e s' where "call_Resize m a b s = Inr ((False, Some e), s')"
proof -
  obtain s' where "mounter_step m (OpResize a b) s = Inr s'" using step_runs [OF assms] by blast
  then obtain r where r: "call_Resize m a b s = Inr (r, s')" by (cases "call_Resize m a b s") auto
  then show thesis using resized failed resize_answer [of a b s "fst r" "snd r" s']
    by (cases "snd r"; cases r) auto
qed

end

section \<open>Who keeps them\<close>

lemma Resize_eq:
  assumes "GetSafeFormatAndMount m = Some sfm" and "need (Exec sfm) dev mnt w = ((n, e), w1)"
    and "resize (Exec sfm) dev mnt w1 = ((r, f), w2)"
  shows "Resize need resize m dev mnt w = Inr (
    if e \<noteq> None then ((False, e), w1) else if \<not> n then ((True, None), w1) else if f \<noteq> None then ((False, f), w2)
    else ((True, None), w2))"
  using assms by (cases e; cases f) (simp_all add: Resize_def)

lemma Resize_runs:
  assumes "SafeFormatAndMount_of m = Some sfm"
  shows "\<exists>ok err w'. Resize need resize m dev mnt w = Inr ((ok, err), w') \<and> (ok \<longleftrightarrow> err = None)"
proof -
  have sfm: "GetSafeFormatAndMount m = Some sfm" using assms by (simp add: GetSafeFormatAndMount_def)
  obtain n e w1 where need: "need (Exec sfm) dev mnt w = ((n, e), w1)" by (metis prod.collapse)
  obtain r f w2 where "resize (Exec sfm) dev mnt w1 = ((r, f), w2)" by (metis prod.collapse)
  from Resize_eq [OF sfm, of need dev mnt w, OF need, of resize, OF this] show ?thesis by (cases e; cases f) auto
qed

lemma OpResize_runs:
  assumes "call_Resize m a b s = map_sum (\<lambda>p. p) f (Resize need resize nm a b w)" and "SafeFormatAndMount_of nm = Some sfm"
  shows "\<exists>s'. mounter_step m (OpResize a b) s = Inr s'"
  using Resize_runs [OF assms(2), of need resize a b w] assms(1) by auto

lemma Resize_answer:
  assumes "Resize need resize m dev mnt w = Inr ((ok, err), w')"
  shows "ok \<longleftrightarrow> err = None"
proof -
  obtain sfm where "GetSafeFormatAndMount m = Some sfm"
    using assms by (auto simp: Resize_def bind_panic_Inr_iff)
  then have "SafeFormatAndMount_of m = Some sfm" by (simp add: GetSafeFormatAndMount_def)
  from Resize_runs [OF this, of need resize dev mnt w] assms show ?thesis by auto
qed

lemma custom_Resize_eq:
  "custom_Resize need resize f = Resize need resize (\<lparr>SafeFormatAndMount_of = SafeFormatAndMount_of f\<rparr>)"
  by (intro ext) (simp add: custom_Resize_def Resize_def custom_GetSafeFormatAndMount_def GetSafeFormatAndMount_def)

lemma on_tree_mounter [simp]: "node_mounter (snd (on_tree text f s)) = node_mounter s"
  by (simp add: on_tree_def split: prod.split)

lemma snd_constant [simp]: "snd (constant_method a s) = s" and fst_constant [simp]: "fst (constant_method a s) = a"
  by (simp_all add: constant_method_def)

lemma MountEIT_text:
  "MountEITBasedFileShare Getenv url_error Do json_text a b c d e w = ((t, None), w') \<Longrightarrow> t = []"
  by (simp add: MountEITBasedFileShare_def Let_def split: prod.splits option.splits)

interpretation node: resizing_mounter "NodeMounter_impl env" "\<lambda>s :: ('i, 'e, 'w) node_state. SafeFormatAndMount_of (node_mounter s)"
  for env :: "('e, 'w) node_env"
proof
  fix s s' :: "('i, 'e, 'w) node_state" and x
  show "SafeFormatAndMount_of (node_mounter s') = SafeFormatAndMount_of (node_mounter s)"
    if "mounter_step (NodeMounter_impl env) x s = Inr s'"
    using that by (cases x) (auto simp: NodeMounter_impl_def map_sum_def split: prod.splits sum.splits)
  show "\<exists>s'. mounter_step (NodeMounter_impl env) x s = Inr s'"
    if "SafeFormatAndMount_of (node_mounter s) = Some sfm" for sfm
  proof (cases x)
    case (OpResize a b)
    show ?thesis unfolding OpResize by (rule OpResize_runs [OF _ that]) (simp add: NodeMounter_impl_def)
  qed simp_all
  show "mountInterface (NodeMounter_impl env) s = promoted (SafeFormatAndMount_of (node_mounter s))"
    by (simp add: NodeMounter_impl_def)
next
  fix a b c d e t and s s' :: "('i, 'e, 'w) node_state"
  show "t = []" if "call_MountEITBasedFileShare (NodeMounter_impl env) a b c d e s = ((t, None), s')"
    using that by (auto simp: NodeMounter_impl_def dest: MountEIT_text split: prod.splits)
next
  fix a b ok err and s s' :: "('i, 'e, 'w) node_state"
  show "ok \<longleftrightarrow> err = None" if "call_Resize (NodeMounter_impl env) a b s = Inr ((ok, err), s')"
    using that by (auto simp: NodeMounter_impl_def map_sum_def dest: Resize_answer split: sum.splits)
qed

interpretation custom: resizing_mounter "custom_impl need resize" "\<lambda>s. SafeFormatAndMount_of (fst s)" for need resize
proof
  fix s s' :: "'a FakeNodeMounterWithCustomActions \<times> 'b" and x
  show "SafeFormatAndMount_of (fst s') = SafeFormatAndMount_of (fst s)"
    if "mounter_step (custom_impl need resize) x s = Inr s'"
    using that by (cases x) (auto simp: custom_impl_def map_sum_def split: prod.splits sum.splits)
  show "\<exists>s'. mounter_step (custom_impl need resize) x s = Inr s'" if "SafeFormatAndMount_of (fst s) = Some sfm" for sfm
  proof (cases x)
    case (OpResize a b)
    show ?thesis unfolding OpResize
      by (rule OpResize_runs [where nm = "\<lparr>SafeFormatAndMount_of = SafeFormatAndMount_of (fst s)\<rparr>"])
        (simp_all add: custom_impl_def custom_Resize_eq that)
  qed simp_all
  show "mountInterface (custom_impl need resize) s = promoted (SafeFormatAndMount_of (fst s))"
    by (simp add: custom_impl_def)
next
  fix a b c d e t and s s' :: "'a FakeNodeMounterWithCustomActions \<times> 'b"
  show "t = []" if "call_MountEITBasedFileShare (custom_impl need resize) a b c d e s = ((t, None), s')"
    using that by (simp add: custom_impl_def constant_method_def custom_MountEITBasedFileShare_def)
next
  fix a b ok err and s s' :: "'a FakeNodeMounterWithCustomActions \<times> 'b"
  show "ok \<longleftrightarrow> err = None" if "call_Resize (custom_impl need resize) a b s = Inr ((ok, err), s')"
    using that by (auto simp: custom_impl_def custom_Resize_eq map_sum_def dest: Resize_answer split: sum.splits)
qed

interpretation fake: mounter FakeNodeMounter_impl SafeFormatAndMount_of
proof
  fix x and s s' :: "'a FakeNodeMounter"
  show "SafeFormatAndMount_of s' = SafeFormatAndMount_of s" if "mounter_step FakeNodeMounter_impl x s = Inr s'"
    using that by (cases x) (auto simp: FakeNodeMounter_impl_def)
  show "\<exists>s'. mounter_step FakeNodeMounter_impl x s = Inr s'"
    by (cases x) (auto simp: FakeNodeMounter_impl_def)
qed (simp_all add: FakeNodeMounter_impl_def constant_method_def fake_MountEITBasedFileShare_def)

interpretation unsupported: mounter unsupported_impl SafeFormatAndMount_of
proof
  fix x and s s' :: "('a, 'b) NodeMounter"
  show "SafeFormatAndMount_of s' = SafeFormatAndMount_of s" if "mounter_step unsupported_impl x s = Inr s'"
    using that by (cases x) (auto simp: unsupported_impl_def)
  show "\<exists>s'. mounter_step unsupported_impl x s = Inr s'"
    by (cases x) (auto simp: unsupported_impl_def)
qed (simp_all add: unsupported_impl_def constant_method_def unsupported_MountEITBasedFileShare_def)

section \<open>Properties\<close>

text \<open>A mounter its constructor made never panics. Whatever sequence of mounts, files, directories, path
  checks and resizes a driver runs on the NodeMounter of NewNodeMounter, over any file system,
  helper and libraries that return, the sequence ends and the methods of the mount library can still be
  reached through the mounter; the same holds of the two fakes with their own mounters.\<close>

lemma new_mounters_never_panic:
  "(\<exists>s. mounter_run (NodeMounter_impl env) xs
        \<lparr>node_mounter = NewNodeMounter mount_New exec_New, tree = fs, world = w\<rparr> = Inr s
      \<and> mountInterface (NodeMounter_impl env) s = Inr (mount_New []))
   \<and> (\<exists>f. mounter_run FakeNodeMounter_impl xs (NewFakeNodeMounter :: 'act FakeNodeMounter) = Inr f
      \<and> mountInterface FakeNodeMounter_impl f = Inr (Interface (NewFakeSafeMounter :: (MountPoint list, 'act FakeExec) SafeFormatAndMount)))
   \<and> (\<exists>c. mounter_run (custom_impl need resize) xs (NewFakeNodeMounterWithCustomActions actions, v) = Inr c
      \<and> mountInterface (custom_impl need resize) c = Inr (Interface (NewFakeSafeMounterWithCustomActions actions)))"
proof (intro conjI)
  show "\<exists>s. mounter_run (NodeMounter_impl env) xs
        \<lparr>node_mounter = NewNodeMounter mount_New exec_New, tree = fs, world = w\<rparr> = Inr s
      \<and> mountInterface (NodeMounter_impl env) s = Inr (mount_New [])"
    using node.run_runs [of "\<lparr>node_mounter = NewNodeMounter mount_New exec_New, tree = fs, world = w\<rparr>"
        "newSafeMounter mount_New exec_New" env xs]
    by (auto simp: NewNodeMounter_def newSafeMounter_def)
  show "\<exists>f. mounter_run FakeNodeMounter_impl xs (NewFakeNodeMounter :: 'act FakeNodeMounter) = Inr f
      \<and> mountInterface FakeNodeMounter_impl f = Inr (Interface (NewFakeSafeMounter :: (MountPoint list, 'act FakeExec) SafeFormatAndMount))"
    using fake.run_runs [of NewFakeNodeMounter NewFakeSafeMounter xs] by (auto simp: NewFakeNodeMounter_def)
  show "\<exists>c. mounter_run (custom_impl need resize) xs (NewFakeNodeMounterWithCustomActions actions, v) = Inr c
      \<and> mountInterface (custom_impl need resize) c = Inr (Interface (NewFakeSafeMounterWithCustomActions actions))"
    using custom.run_runs [of "(NewFakeNodeMounterWithCustomActions actions, v)" "NewFakeSafeMounterWithCustomActions actions"
        need resize xs]
    by (auto simp: NewFakeNodeMounterWithCustomActions_def)
qed


end
