(* ===== verification/DescriptorThreads.thy ===== *)
theory DescriptorThreads
  imports ProviderProto Threads
begin

text \<open>
  Calls of Descriptor by several goroutines at once. file\_provider\_proto\_rawDescGZIP compresses the
  descriptor in place inside a sync.Once; here its steps are those of Once.Do (the atomic flag,
  the mutex, the second test) around the accesses to the package variable, in any
  interleaving. The sequential function of ProviderProto is what each call computes.
\<close>

section \<open>The calls\<close>

datatype gzip_pc =
    NotCalled
  | TestDone
  | LockOnce
  | TestAgain
  | ReadData
  | WriteData "byte8 list"
  | StoreDone
  | UnlockOnce
  | ReadResult
  | Answered "byte8 list"

record 'f descriptor_state =
  package :: "'f proto_package"
  once_mutex :: "nat option"
  calls :: "nat \<Rightarrow> gzip_pc"

definition call_at :: "nat \<Rightarrow> gzip_pc \<Rightarrow> 'f descriptor_state \<Rightarrow> 'f descriptor_state" where
  "call_at t p s = s\<lparr>calls := (calls s)(t := p)\<rparr>"

text \<open>
  Lines 143 to 146, one access to something shared per step. Do returns at once when the flag is
  set; otherwise it takes the mutex, tests again, runs the function, sets the flag and
  releases the mutex.
\<close>

definition rawDescGZIP_step ::
  "('st, 'f) protoimpl \<Rightarrow> nat \<Rightarrow> 'f descriptor_state \<Rightarrow> 'f descriptor_state option" where
  "rawDescGZIP_step lib t s =
     (case calls s t of
        NotCalled \<Rightarrow> None
      | TestDone \<Rightarrow> Some (call_at t (if rawDescOnce (package s) then ReadResult else LockOnce) s)
      | LockOnce \<Rightarrow>
          if once_mutex s = None then Some (call_at t TestAgain (s\<lparr>once_mutex := Some t\<rparr>)) else None
      | TestAgain \<Rightarrow> Some (call_at t (if rawDescOnce (package s) then UnlockOnce else ReadData) s)
      | ReadData \<Rightarrow> Some (call_at t (WriteData (CompressGZIP lib (rawDescData (package s)))) s)
      | WriteData bs \<Rightarrow> Some (call_at t StoreDone (s\<lparr>package := (package s)\<lparr>rawDescData := bs\<rparr>\<rparr>))
      | StoreDone \<Rightarrow> Some (call_at t UnlockOnce (s\<lparr>package := (package s)\<lparr>rawDescOnce := True\<rparr>\<rparr>))
      | UnlockOnce \<Rightarrow> Some (call_at t ReadResult (s\<lparr>once_mutex := None\<rparr>))
      | ReadResult \<Rightarrow> Some (call_at t (Answered (rawDescData (package s))) s)
      | Answered bs \<Rightarrow> None)"

definition callers :: "nat \<Rightarrow> 'f proto_package \<Rightarrow> 'f descriptor_state" where
  "callers n pkg = \<lparr>package = pkg, once_mutex = None, calls = (\<lambda>t. if t < n then TestDone else NotCalled)\<rparr>"

lemma call_at_fields [simp]:
  "package (call_at t p s) = package s" "once_mutex (call_at t p s) = once_mutex s"
  "calls (call_at t p s) = (calls s)(t := p)"
  by (simp_all add: call_at_def)

lemma rawDescGZIP_step_cases:
  assumes "rawDescGZIP_step lib t s = Some s'"
  obtains (quick) "calls s t = TestDone" "rawDescOnce (package s)" "s' = call_at t ReadResult s"
  | (slow) "calls s t = TestDone" "\<not> rawDescOnce (package s)" "s' = call_at t LockOnce s"
  | (enter) "calls s t = LockOnce" "once_mutex s = None" "s' = call_at t TestAgain (s\<lparr>once_mutex := Some t\<rparr>)"
  | (late) "calls s t = TestAgain" "rawDescOnce (package s)" "s' = call_at t UnlockOnce s"
  | (first) "calls s t = TestAgain" "\<not> rawDescOnce (package s)" "s' = call_at t ReadData s"
  | (compress) "calls s t = ReadData"
      "s' = call_at t (WriteData (CompressGZIP lib (rawDescData (package s)))) s"
  | (put) bs where "calls s t = WriteData bs"
      "s' = call_at t StoreDone (s\<lparr>package := (package s)\<lparr>rawDescData := bs\<rparr>\<rparr>)"
  | (finish) "calls s t = StoreDone" "s' = call_at t UnlockOnce (s\<lparr>package := (package s)\<lparr>rawDescOnce := True\<rparr>\<rparr>)"
  | (leave) "calls s t = UnlockOnce" "s' = call_at t ReadResult (s\<lparr>once_mutex := None\<rparr>)"
  | (answer) "calls s t = ReadResult" "s' = call_at t (Answered (rawDescData (package s))) s"
  using assms unfolding rawDescGZIP_step_def by (auto split: gzip_pc.splits if_splits)

section \<open>The invariant\<close>

fun in_once :: "gzip_pc \<Rightarrow> bool" where
  "in_once TestAgain = True"
| "in_once ReadData = True"
| "in_once (WriteData bs) = True"
| "in_once StoreDone = True"
| "in_once UnlockOnce = True"
| "in_once _ = False"

text \<open>
  What a program counter says of the package: \<open>pkg\<close> is the package before the first call and
  \<open>pkg'\<close> after it. Only the holder of the mutex can be between the two.
\<close>

fun call_knows :: "'f proto_package \<Rightarrow> 'f proto_package \<Rightarrow> gzip_pc \<Rightarrow> bool" where
  "call_knows pkg' now ReadData \<longleftrightarrow> \<not> rawDescOnce now"
| "call_knows pkg' now (WriteData bs) \<longleftrightarrow> \<not> rawDescOnce now \<and> bs = rawDescData pkg'"
| "call_knows pkg' now StoreDone \<longleftrightarrow> \<not> rawDescOnce now"
| "call_knows pkg' now UnlockOnce \<longleftrightarrow> rawDescOnce now"
| "call_knows pkg' now ReadResult \<longleftrightarrow> rawDescOnce now"
| "call_knows pkg' now (Answered bs) \<longleftrightarrow> rawDescOnce now \<and> bs = rawDescData pkg'"
| "call_knows pkg' now _ \<longleftrightarrow> True"

lemma call_knows_data [simp]: "call_knows pkg' (now\<lparr>rawDescData := ds\<rparr>) p = call_knows pkg' now p"
  by (cases "(pkg', now, p)" rule: call_knows.cases) simp_all

definition package_between :: "('st, 'f) protoimpl \<Rightarrow> 'f proto_package \<Rightarrow> bool \<Rightarrow> 'f proto_package \<Rightarrow> bool" where
  "package_between lib pkg stored now \<longleftrightarrow>
     (let pkg' = snd (file_provider_proto_rawDescGZIP lib pkg) in
      now = (if rawDescOnce now then pkg' else if stored then pkg\<lparr>rawDescData := rawDescData pkg'\<rparr> else pkg))"

definition once_inv :: "('st, 'f) protoimpl \<Rightarrow> 'f proto_package \<Rightarrow> 'f descriptor_state \<Rightarrow> bool" where
  "once_inv lib pkg s \<longleftrightarrow>
     (\<forall>t. once_mutex s = Some t \<longleftrightarrow> in_once (calls s t))
     \<and> (\<forall>t. call_knows (snd (file_provider_proto_rawDescGZIP lib pkg)) (package s) (calls s t))
     \<and> package_between lib pkg (\<exists>t. calls s t = StoreDone) (package s)"

lemma once_inv_init: "once_inv lib pkg (callers n pkg)"
  by (simp add: once_inv_def callers_def package_between_def file_provider_proto_rawDescGZIP_def Let_def)

fun gzip_rank :: "gzip_pc \<Rightarrow> nat" where
  "gzip_rank TestDone = 8"
| "gzip_rank LockOnce = 7"
| "gzip_rank TestAgain = 6"
| "gzip_rank ReadData = 5"
| "gzip_rank (WriteData bs) = 4"
| "gzip_rank StoreDone = 3"
| "gzip_rank UnlockOnce = 2"
| "gzip_rank ReadResult = 1"
| "gzip_rank _ = 0"

lemma once_invD:
  assumes "once_inv lib pkg s"
  shows "in_once (calls s t) \<Longrightarrow> once_mutex s = Some t"
    and "in_once (calls s t) \<Longrightarrow> in_once (calls s u) \<Longrightarrow> u = t"
    and "call_knows (snd (file_provider_proto_rawDescGZIP lib pkg)) (package s) (calls s t)"
    and "rawDescOnce (package s) \<Longrightarrow> package s = snd (file_provider_proto_rawDescGZIP lib pkg)"
    and "\<not> rawDescOnce (package s) \<Longrightarrow> calls s t = StoreDone \<Longrightarrow>
      package s = pkg\<lparr>rawDescData := rawDescData (snd (file_provider_proto_rawDescGZIP lib pkg))\<rparr>"
    and "\<not> rawDescOnce (package s) \<Longrightarrow> in_once (calls s t) \<Longrightarrow> calls s t \<noteq> StoreDone \<Longrightarrow> package s = pkg"
proof -
  have mux: "once_mutex s = Some v \<longleftrightarrow> in_once (calls s v)" for v using assms by (simp add: once_inv_def)
  show "in_once (calls s t) \<Longrightarrow> once_mutex s = Some t" using mux by simp
  show same: "in_once (calls s t) \<Longrightarrow> in_once (calls s u) \<Longrightarrow> u = t" using mux [of t] mux [of u] by simp
  show "call_knows (snd (file_provider_proto_rawDescGZIP lib pkg)) (package s) (calls s t)"
    using assms by (simp add: once_inv_def)
  have pkg: "package s = (if rawDescOnce (package s) then snd (file_provider_proto_rawDescGZIP lib pkg)
      else if \<exists>t. calls s t = StoreDone
      then pkg\<lparr>rawDescData := rawDescData (snd (file_provider_proto_rawDescGZIP lib pkg))\<rparr> else pkg)"
    using assms unfolding once_inv_def package_between_def Let_def by blast
  show "rawDescOnce (package s) \<Longrightarrow> package s = snd (file_provider_proto_rawDescGZIP lib pkg)"
    by (subst pkg) simp
  show "\<not> rawDescOnce (package s) \<Longrightarrow> calls s t = StoreDone \<Longrightarrow>
      package s = pkg\<lparr>rawDescData := rawDescData (snd (file_provider_proto_rawDescGZIP lib pkg))\<rparr>"
    by (subst pkg) auto
  show "package s = pkg" if "\<not> rawDescOnce (package s)" "in_once (calls s t)" "calls s t \<noteq> StoreDone"
  proof -
    have "calls s v \<noteq> StoreDone" for v using mux [of v] mux [of t] that by auto
    then show ?thesis using that(1) by (subst pkg) simp
  qed
qed

text \<open>A step that leaves the package alone keeps the invariant if its counter and the mutex fit.\<close>

lemma once_inv_same:
  assumes "once_inv lib pkg s" and "package s' = package s" and "calls s' = (calls s)(t := p)"
    and "calls s t \<noteq> StoreDone" and "p \<noteq> StoreDone"
    and "call_knows (snd (file_provider_proto_rawDescGZIP lib pkg)) (package s) p"
    and "\<And>u. once_mutex s' = Some u \<longleftrightarrow> in_once (calls s' u)"
  shows "once_inv lib pkg s'"
proof -
  have "(\<exists>u. calls s' u = StoreDone) \<longleftrightarrow> (\<exists>u. calls s u = StoreDone)"
    using assms(3-5) by auto
  then show ?thesis using assms(1,6,7) by (simp add: once_inv_def assms(2) del: fun_upd_apply) (simp add: assms(3))
qed

lemma once_inv_put:
  assumes inv: "once_inv lib pkg s" and at: "calls s t = WriteData bs"
  shows "once_inv lib pkg (call_at t StoreDone (s\<lparr>package := (package s)\<lparr>rawDescData := bs\<rparr>\<rparr>))"
proof -
  have bs: "bs = rawDescData (snd (file_provider_proto_rawDescGZIP lib pkg))" and new: "\<not> rawDescOnce (package s)"
    using once_invD(3) [OF inv, of t] at by simp_all
  have pkg: "package s = pkg" using once_invD(6) [OF inv new, of t] at by simp
  have "call_knows (snd (file_provider_proto_rawDescGZIP lib pkg)) ((package s)\<lparr>rawDescData := bs\<rparr>) (calls s u)" for u
    using once_invD(3) [OF inv, of u] by simp
  moreover have "package_between lib pkg True ((package s)\<lparr>rawDescData := bs\<rparr>)"
    using new by (simp add: package_between_def Let_def pkg bs)
  moreover have "once_mutex s = Some u \<longleftrightarrow> in_once (calls s u)" for u using inv by (simp add: once_inv_def)
  moreover have "\<exists>u. ((calls s)(t := StoreDone)) u = StoreDone" by (rule exI [of _ t]) simp
  ultimately show ?thesis using new at by (simp add: once_inv_def)
qed

lemma once_inv_finish:
  assumes inv: "once_inv lib pkg s" and at: "calls s t = StoreDone"
  shows "once_inv lib pkg (call_at t UnlockOnce (s\<lparr>package := (package s)\<lparr>rawDescOnce := True\<rparr>\<rparr>))"
proof -
  let ?pkg' = "snd (file_provider_proto_rawDescGZIP lib pkg)"
  have new: "\<not> rawDescOnce (package s)" using once_invD(3) [OF inv, of t] at by simp
  have pkg: "package s = pkg\<lparr>rawDescData := rawDescData ?pkg'\<rparr>" using once_invD(5) [OF inv new at] .
  then have "(package s)\<lparr>rawDescOnce := True\<rparr> = ?pkg'"
    using new by (simp add: file_provider_proto_rawDescGZIP_def Let_def)
  moreover have "call_knows ?pkg' ((package s)\<lparr>rawDescOnce := True\<rparr>) (calls s u)" if "u \<noteq> t" for u
  proof -
    have "\<not> in_once (calls s u)" using once_invD(2) [OF inv, of t u] at that by auto
    then show ?thesis using once_invD(3) [OF inv, of u] by (cases "calls s u") simp_all
  qed
  moreover have "rawDescOnce ?pkg'" by (simp add: file_provider_proto_rawDescGZIP_def Let_def)
  moreover have "once_mutex s = Some u \<longleftrightarrow> in_once (calls s u)" for u using inv by (simp add: once_inv_def)
  ultimately show ?thesis using at by (simp add: once_inv_def package_between_def Let_def)
qed

lemma once_inv_step:
  assumes inv: "once_inv lib pkg s" and "rawDescGZIP_step lib t s = Some s'"
  shows "once_inv lib pkg s'"
  using assms(2)
proof (cases rule: rawDescGZIP_step_cases)
  have mux: "once_mutex s = Some u \<longleftrightarrow> in_once (calls s u)" for u using inv by (simp add: once_inv_def)
  note same = once_inv_same [OF inv, where t = t]
  {
    case quick
    then show ?thesis using mux by (intro same [where p = ReadResult]) auto
  next
    case slow
    then show ?thesis using mux by (intro same [where p = LockOnce]) auto
  next
    case enter
    then show ?thesis using mux by (intro same [where p = TestAgain]) auto
  next
    case late
    then show ?thesis using mux by (intro same [where p = UnlockOnce]) auto
  next
    case first
    then show ?thesis using mux by (intro same [where p = ReadData]) auto
  next
    case compress
    have new: "\<not> rawDescOnce (package s)" using once_invD(3) [OF inv, of t] compress(1) by simp
    moreover have "package s = pkg" using once_invD(6) [OF inv new, of t] compress(1) by simp
    ultimately show ?thesis using compress mux
      by (intro same [where p = "WriteData (CompressGZIP lib (rawDescData (package s)))"])
        (auto simp: file_provider_proto_rawDescGZIP_def)
  next
    case (put bs)
    then show ?thesis using once_inv_put [OF inv] by simp
  next
    case finish
    then show ?thesis using once_inv_finish [OF inv] by simp
  next
    case leave
    have "\<not> in_once (calls s u)" if "u \<noteq> t" for u
      using once_invD(2) [OF inv, of t u] leave(1) that by auto
    then show ?thesis using leave once_invD(3) [OF inv, of t]
      by (intro same [where p = ReadResult]) auto
  next
    case answer
    have new: "rawDescOnce (package s)" using once_invD(3) [OF inv, of t] answer(1) by simp
    then show ?thesis using answer mux once_invD(4) [OF inv new]
      by (intro same [where p = "Answered (rawDescData (package s))"]) auto
  }
qed

section \<open>Progress\<close>

definition gzip_rank_of :: "nat \<Rightarrow> 'f descriptor_state \<Rightarrow> nat" where
  "gzip_rank_of t s = gzip_rank (calls s t)"

lemma gzip_rank_0: "gzip_rank p = 0 \<longleftrightarrow> p = NotCalled \<or> (\<exists>bs. p = Answered bs)"
  by (cases p) simp_all

lemma rawDescGZIP_step_rank:
  "rawDescGZIP_step lib t s = Some s' \<Longrightarrow> gzip_rank_of t s' < gzip_rank_of t s"
  by (erule rawDescGZIP_step_cases) (simp_all add: gzip_rank_of_def)

lemma rawDescGZIP_step_other:
  "rawDescGZIP_step lib t s = Some s' \<Longrightarrow> u \<noteq> t \<Longrightarrow> calls s' u = calls s u"
  by (erule rawDescGZIP_step_cases) simp_all

text \<open>A call only waits for the mutex, and its holder can move.\<close>

lemma rawDescGZIP_progress:
  assumes "once_inv lib pkg s" and "gzip_rank_of t s \<noteq> 0"
  shows "\<exists>u s'. rawDescGZIP_step lib u s = Some s'"
proof (cases "rawDescGZIP_step lib t s")
  case None
  then have "once_mutex s \<noteq> None"
    using assms(2) by (auto simp: rawDescGZIP_step_def gzip_rank_of_def split: gzip_pc.splits if_splits)
  then obtain u where "in_once (calls s u)" using assms(1) by (auto simp: once_inv_def)
  then have "\<exists>s'. rawDescGZIP_step lib u s = Some s'"
    by (cases "calls s u") (simp_all add: rawDescGZIP_step_def)
  then show ?thesis by blast
qed blast

interpretation gzip_threads: live_ranked_threads "rawDescGZIP_step lib" gzip_rank_of "once_inv lib pkg" n
  for lib :: "('st, 'f) protoimpl" and pkg n
  using once_inv_step [where lib = lib] rawDescGZIP_step_rank [where lib = lib] rawDescGZIP_progress [where lib = lib]
  by unfold_locales (auto simp: gzip_rank_of_def rawDescGZIP_step_other)

text \<open>A step that writes the data is about to race with those that read or write it.\<close>

fun touches_data :: "gzip_pc \<Rightarrow> bool" where
  "touches_data ReadData = True"
| "touches_data (WriteData bs) = True"
| "touches_data ReadResult = True"
| "touches_data _ = False"

lemma no_data_race:
  assumes inv: "once_inv lib pkg s" and "calls s t = WriteData bs" and "touches_data (calls s u)"
  shows "u = t"
proof -
  have "\<not> rawDescOnce (package s)" using once_invD(3) [OF inv, of t] assms(2) by simp
  then have "in_once (calls s u)"
    using once_invD(3) [OF inv, of u] assms(3) by (cases "calls s u") simp_all
  then show ?thesis using once_invD(2) [OF inv, of t u] assms(2) by simp
qed

text \<open>What a finished call knows, and that a call under way is not forgotten.\<close>

lemma answered_sequential:
  assumes "once_inv lib pkg s" and "calls s t = Answered bs"
  shows "bs = fst (file_provider_proto_rawDescGZIP lib pkg)" and "package s = snd (file_provider_proto_rawDescGZIP lib pkg)"
proof -
  have over: "rawDescOnce (package s)" and bs: "bs = rawDescData (snd (file_provider_proto_rawDescGZIP lib pkg))"
    using once_invD(3) [OF assms(1), of t] assms(2) by simp_all
  show "package s = snd (file_provider_proto_rawDescGZIP lib pkg)" using once_invD(4) [OF assms(1) over] .
  show "bs = fst (file_provider_proto_rawDescGZIP lib pkg)"
    using bs by (simp add: file_provider_proto_rawDescGZIP_def Let_def)
qed

lemma calls_stay:
  assumes "run_schedule (rawDescGZIP_step lib) ts s = Some s'" and "calls s t \<noteq> NotCalled"
  shows "calls s' t \<noteq> NotCalled"
  using assms
proof (rule run_schedule_induct)
  fix s u s'
  assume "calls s t \<noteq> NotCalled" and step: "rawDescGZIP_step lib u s = Some s'"
  then show "calls s' t \<noteq> NotCalled"
    using rawDescGZIP_step_other [OF step, of t] by (cases "t = u") (auto elim: rawDescGZIP_step_cases)
qed

section \<open>Properties\<close>

text \<open>C40: any number of goroutines may call Descriptor at once, also for the first time. Each call
  answers what a single sequential call would, the package ends as after a single call, no
  write of the compressed data overlaps another access to it, every schedule is bounded and
  can be continued until all calls have returned.\<close>

theorem descriptor_calls_concurrent:
  assumes "run_schedule (rawDescGZIP_step lib) ts (callers n pkg) = Some s"
  shows "(\<forall>t bs. calls s t = Answered bs \<longrightarrow> bs = fst (file_provider_proto_rawDescGZIP lib pkg)
        \<and> package s = snd (file_provider_proto_rawDescGZIP lib pkg))
    \<and> (\<forall>t u bs. calls s t = WriteData bs \<and> touches_data (calls s u) \<longrightarrow> u = t)
    \<and> length ts \<le> 8 * n
    \<and> (\<exists>us s'. run_schedule (rawDescGZIP_step lib) us s = Some s'
        \<and> (\<forall>t<n. calls s' t = Answered (fst (file_provider_proto_rawDescGZIP lib pkg))))"
proof -
  have good: "once_inv lib pkg (callers n pkg) \<and> (\<forall>t\<ge>n. gzip_rank_of t (callers n pkg) = 0)"
    using once_inv_init by (simp add: gzip_rank_of_def) (simp add: callers_def)
  have inv: "once_inv lib pkg s" using gzip_threads.schedule_good [OF assms good] by blast
  have "gzip_threads.total n (callers n pkg) = (\<Sum>t<n. 8)"
    unfolding gzip_threads.total_def by (rule sum.cong) (simp_all add: gzip_rank_of_def callers_def)
  then have "length ts \<le> 8 * n" using gzip_threads.schedule_bound [OF good assms] by simp
  moreover obtain us s' where run: "run_schedule (rawDescGZIP_step lib) (ts @ us) (callers n pkg) = Some s'"
    and finished: "\<forall>t. gzip_rank_of t s' = 0"
    using gzip_threads.all_finish [OF good assms] by blast
  moreover have "run_schedule (rawDescGZIP_step lib) us s = Some s'" using run assms by (simp add: run_schedule_append)
  moreover have "calls s' t = Answered (fst (file_provider_proto_rawDescGZIP lib pkg))" if "t < n" for t
  proof -
    have inv': "once_inv lib pkg s'" using gzip_threads.schedule_good [OF run good] by blast
    have "calls s' t \<noteq> NotCalled" using calls_stay [OF run, of t] that by (simp add: callers_def)
    then obtain bs where "calls s' t = Answered bs" using finished by (auto simp: gzip_rank_of_def gzip_rank_0)
    then show ?thesis using answered_sequential(1) [OF inv'] by simp
  qed
  ultimately show ?thesis using answered_sequential [OF inv] no_data_race [OF inv] by blast
qed

definition two_calls :: "file_desc descriptor_state" where
  "two_calls = the (run_schedule (rawDescGZIP_step demo_runtime) [0, 1, 1, 1] (callers 2 initial_package))"

lemma two_calls_run:
  "run_schedule (rawDescGZIP_step demo_runtime) [0, 1, 1, 1] (callers 2 initial_package) = Some two_calls"
  by (simp add: two_calls_def rawDescGZIP_step_def callers_def call_at_def initial_package_def)

theorem descriptor_calls_concurrent_witness:
  "\<exists>us s'. run_schedule (rawDescGZIP_step demo_runtime) us two_calls = Some s'
     \<and> calls s' 0 = Answered (rev file_provider_proto_rawDesc)
     \<and> calls s' 1 = Answered (rev file_provider_proto_rawDesc)"
proof -
  have "fst (file_provider_proto_rawDescGZIP demo_runtime initial_package) = rev file_provider_proto_rawDesc"
    by (simp add: file_provider_proto_rawDescGZIP_def demo_runtime_def initial_package_def)
  then obtain us s' where "run_schedule (rawDescGZIP_step demo_runtime) us two_calls = Some s'"
    and "\<forall>t<2. calls s' t = Answered (rev file_provider_proto_rawDesc)"
    using descriptor_calls_concurrent [OF two_calls_run] by auto
  then show ?thesis by (intro exI [of _ us] exI [of _ s']) simp
qed

end
