(* ===== verification/Spec2Isabelle.thy ===== *)
theory Spec2Isabelle
  imports Messages Watcher FakeLocks MountManager LockSafety GrpcClient Metrics ProviderProto LockClients WatcherRace TestLogger
    LinkedTree Mounters DescriptorThreads
begin

text \<open>
  A verification library for ibm-csi-common, the Go packages the IBM block and file CSI drivers
  share. The drivers call these packages independently of each other; inside the repository
  the watcher uses the cloud provider, the request logger and the size helpers, the metadata
  package uses the label constants, and everything else stands alone. The theories follow
  that structure: Prelude and GoFmt hold what the components share of Go and of its standard
  library, Threads what the concurrent models share, every other theory models one package or
  one part of it, and this theory brings them together and states what holds across them.

  \<^item> Prelude: errors as their texts, panics as the left side of a sum, int64 as a 64-bit
    word, package strings on byte lists, maps as association lists with a zero value.
  \<^item> GoFmt: Sprintf and Errorf for the verbs the source uses, with Go's marks for missing
    and extra arguments.
  \<^item> Threads: schedules of threads that step one at a time, and the locales that make every
    schedule end (\<open>bounded_threads\<close>), end well (\<open>live_threads\<close>) and be bounded thread by thread
    (\<open>ranked_threads\<close>, \<open>live_ranked_threads\<close>), interpreted on the lock store, its clients, the fakes,
    the watcher and the concurrent calls of Descriptor.
  \<^item> Sizes: pkg/utils/constants.go, utils.go and cluster\_info.go. RoundUpBytes and BytesToGiB
    on int64 with wrap-around; the theorems give the exact range in which rounding is
    right and what happens beyond it.
  \<^item> LockStore and LockSafety: pkg/utils/lock\_store.go. The first has the heap and getLock,
    with the interface \<open>mutex_registry\<close> and its interpretation on getLock, and then Lock and
    Unlock as threads that interleave at every shared access, with the package mutex
    between them. The second proves the invariant of all reachable states: mutual exclusion
    per name, no crash, no blocking but on an owner or on a thread that can move, and
    that the fine-grained section computes the sequential getLock. LockProgress adds that the
    calls under way end, within seven steps each, but for those that wait for a held name.
    LockClients has the clients: threads that run scripts of locks, unlocks and updates of the
    data a name protects. Disciplines of scripts are instances of \<open>script_discipline\<close>; names
    locked in ascending order of a ranking give the completion of every script, updates
    under the lock give a sequential history of all updates, and without the order, or with
    the flag switched off, concrete runs hang or lose an update.
  \<^item> Logger and TestLogger: pkg/utils/logger.go, the routing of a record by its level, and the
    two copies of GetTestLogger in pkg/utils/utils.go and pkg/ibmcloudprovider.
  \<^item> MessageCatalog and Messages: pkg/messages. The first has the reason codes and the 54
    entries of messages\_en.go in their order; the second Info, GetCSIMessage, GetCSIError
    and GetCSIBackendError, with status.Error given by its contract.
  \<^item> Metadata: pkg/metadata/metadata.go and fakemetadata.go, NewNodeMetadata over the three
    Kubernetes calls, the provider ID parser, and the interface \<open>node_metadata\<close>,
    interpreted on nodeMetadataManager here and on the generated fake in FakeMetadata, which
    also has NodeInfo and shows that a driver started over the two fakes sees what it sees
    over the real implementations.
  \<^item> FakeMethod, FakeMetadata and FakeLocks: the generated fakes fake\_node\_metadata.go and
    fake/fake\_node\_info.go. FakeMethod has the code repeated for every method and its
    contract, a function of the history of calls and settings; FakeMetadata has the two
    fakes as instances; FakeLocks has their mutexes as a concurrent model with writers that
    announce themselves before they wait, as sync.RWMutex has them: without Invocations all
    operations end, with it two of them can deadlock.
  \<^item> CloudProvider, Watcher, WatcherRun and WatcherSaves: pkg/ibmcloudprovider and pkg/watcher/pv\_watcher.go. The
    interface \<open>cloud_provider\<close> with the fake provider as its interpretation, and New, filter,
    getTags, getVolume and updateVolume; an update is the list of its effects, and a panic
    ends it through the deferred recovery. WatcherRun has Start and the running system: the
    informer delivers events, every update runs in a goroutine of its own, and other watchers
    register their drivers, with the invariant of its runs. The theorems of WatcherSaves say that each goroutine refines one run of
    updateVolume, which events are saved, that what is saved is well formed, that the system
    catches up, and that two updates of a volume can overtake each other. There an access to
    VolumeTypeMap is one step; in WatcherRace it takes time, two that overlap can race, and
    the theorems say that runs without a race are just the runs of WatcherRun, that there are no
    others if all watchers are made before the first event, and that there are some otherwise.
  \<^item> FileSystem, Json, MountManager and LinkedTree: pkg/mountmanager. FileSystem has the calls of package
    os over a tree with symbolic links and failures of the environment; Json has the parser
    and decoder of encoding/json; MountManager has NodeMounter, its stubs and fakes, the
    interface \<open>path_maker\<close> interpreted on MakeDir and on MakeFile, and the request to the
    mount helper with its answer. Mounters has the interface Mounter with its four
    implementations and two contracts, of all of them and of those that resize as the mount
    library does. LinkedTree says what MakeDir does on trees with symbolic
    links, and when its nil is no directory.
  \<^item> GrpcClient: pkg/utils/grpc-client with its fake and the interfaces they implement,
    over a gRPC library given by which connections are open.
  \<^item> Metrics: pkg/metrics, the initialisation order of the package, registration, and the
    value of every metric as a function of the calls made.
  \<^item> ProviderGrpc, ProtoWire, ProviderProto and DescriptorThreads: provider/provider\_grpc.pb.go and
    provider/provider.pb.go. ProtoWire has the wire format of protocol buffers, encoders and decoders
    of file descriptors and their round trip, as the specification the raw descriptor is held
    against; ProviderProto the messages, the variables and the init of the package, and that the
    descriptor, the tables and the gRPC code say the same. DescriptorThreads has the steps of
    concurrent calls of Descriptor around the sync.Once, and that each of them computes the
    sequential function.

  Across the packages this theory states that the ID of a request is the same in its log records,
  in the payload for the mount helper and in the error returned; that the log of the watcher
  can be taken apart by these IDs however its goroutines interleave; and that a watcher of New
  over the fake provider saves every update of a claimed volume exactly once.

  Parameters and contracts. Code outside the repository is an argument of the definitions that
  use it: the Kubernetes client, zap's generator of request IDs, the volume library's session,
  grpc, prometheus floats, the mount and exec libraries, the helper behind the socket. Where
  a theorem needs what such code promises, the promise is a named predicate in its
  hypotheses (\<open>status_contract\<close>, \<open>grpc_contract\<close>, \<open>resize_contract\<close>, \<open>carries\<close>, \<open>filtering_contract\<close>,
  \<open>build_contract\<close>, \<open>state_contract\<close>), and the
  witness gives a concrete function that keeps it.

  Bounds. No definition runs on fuel of the model's own: recursion is structural or ends by a
  measure. The two numbers that cut a computation short are the code's environment: a path
  follows at most 40 symbolic links, as the kernel does, and JSON nests at most 10000 deep,
  as encoding/json allows. Inputs within them are not affected, and a path or a document
  beyond them is the error it is there.

  Interleavings. A step of a thread is one access to something shared, and a schedule is the list
  of the threads that step. The potentials that bound schedules are the steps the threads have
  left by their program counters, and for a client the steps of its script; for the watcher an event not yet delivered counts five, its
  delivery and the four steps of the goroutine it can start.

  Not modelled: the encoding of log records, debug records of the watcher, what a
  program does after a data race (anything may follow), the cache and the network of the informer
  (its events arrive in any number and order), the protobuf runtime behind provider.pb.go, file permissions beyond the parameter for failures, names \<open>..\<close> in
  paths, invalid UTF-8 inside JSON strings, and the end-to-end tests under tests/.
\<close>

section \<open>A request across the packages\<close>

text \<open>The message of an error of GetCSIError starts with the request and the code of its entry.\<close>

lemma GetCSIError_names_request:
  assumes "status_contract S code_of text_of" and "code \<in> set reason_codes"
  shows "\<exists>m e rest. map_of InitMessages code = Some m
    \<and> snd (GetCSIError S InitMessages code req err args) = Some e
    \<and> text_of e = ''{RequestID: '' @ req @ '', Code: '' @ Code m @ rest"
  using GetCSIError_result [OF assms, of req err args] by (elim exE conjE) (simp only:, blast)

section \<open>The watcher over the fake provider\<close>

text \<open>The handles of the volumes with a CSI source and a claim.\<close>

definition claimed_handles :: "kube_object list \<Rightarrow> string list" where
  "claimed_handles objs =
     concat (map (\<lambda>obj. case Option.bind (as_pv obj) CSI of None \<Rightarrow> []
       | Some csi \<Rightarrow> if Option.bind (as_pv obj) ClaimRef = None then [] else [VolumeHandle csi]) objs)"

lemma described_handles:
  assumes "filter_pv pvw obj" and "Option.bind (config pvw) VPC \<noteq> None"
    and "map_read [] typeMap (provisionerName pvw) = ty"
  shows "map (\<lambda>v. (VolumeID v, VolumeType v)) (described uni typeMap pvw obj) = map (\<lambda>h. (h, ty)) (claimed_handles [obj])"
proof -
  obtain pv csi where d: "as_pv obj = Some pv" "CSI pv = Some csi" "Driver csi = provisionerName pvw"
    using assms(1) by (auto simp: filter_pv_def split: option.splits)
  obtain conf vpc where c: "config pvw = Some conf" "VPC conf = Some vpc"
    using assms(2) by (cases "config pvw") auto
  show ?thesis
  proof (cases "ClaimRef pv")
    case None
    then have "\<not> describable pvw (as_pv obj)" using d by (simp add: describable_def)
    then show ?thesis using None d by (simp add: described_def getVolume_panics claimed_handles_def)
  next
    case (Some claim)
    have "getVolume uni typeMap pvw (as_pv obj) = Inr (volume_of typeMap pvw pv csi claim vpc)"
      using getVolume_describable [OF d(2) Some c] d(1) by simp
    then show ?thesis using Some d assms(3)
      by (simp add: described_def claimed_handles_def volume_of_type) (simp add: volume_of_def Let_def)
  qed
qed

lemma described_all:
  assumes "\<And>obj. obj \<in> set objs \<Longrightarrow> filter_pv pvw obj" and "Option.bind (config pvw) VPC \<noteq> None"
    and "map_read [] typeMap (provisionerName pvw) = ty"
  shows "map (\<lambda>v. (VolumeID v, VolumeType v)) (concat (map (described uni typeMap pvw) objs)) =
    map (\<lambda>h. (h, ty)) (claimed_handles objs)"
  using assms(1)
proof (induction objs)
  case (Cons obj objs)
  have "claimed_handles (obj # objs) = claimed_handles [obj] @ claimed_handles objs" by (simp add: claimed_handles_def)
  then show ?case using Cons described_handles [OF _ assms(2,3)] by simp
qed (simp add: claimed_handles_def)

section \<open>The log of the watcher\<close>

text \<open>
  What the loggers of the goroutines write of a trace: goroutine i has the logger
  GetContextLogger makes of its own request ID, \<open>uuids i\<close>, without debug records.
\<close>

fun effect_records ::
  "(nat \<Rightarrow> string \<times> go_error option) \<Rightarrow> nat \<times> watch_effect \<Rightarrow> (sink \<times> log_level \<times> string \<times> (string \<times> string) list) list" where
  "effect_records uuids (i, Log lvl msg err) = log_write (fst (GetContextLogger (uuids i) False)) lvl msg"
| "effect_records uuids (i, _) = []"

definition watch_output ::
  "(nat \<Rightarrow> string \<times> go_error option) \<Rightarrow> ('sess, 'w) watch_state \<Rightarrow> (sink \<times> log_level \<times> string \<times> (string \<times> string) list) list" where
  "watch_output uuids s = concat (map (effect_records uuids) (trace s))"

definition log_records :: "string \<Rightarrow> watch_effect list \<Rightarrow> (sink \<times> log_level \<times> string \<times> (string \<times> string) list) list" where
  "log_records rid es = concat (map (\<lambda>e. case e of
     Log lvl msg err \<Rightarrow> [(if lvl \<ge> ErrorLevel then Stderr else Stdout, lvl, msg, [(''RequestID'', rid)])] | _ \<Rightarrow> []) es)"

text \<open>The watcher writes no debug records of its own.\<close>

definition no_debug :: "watch_effect list \<Rightarrow> bool" where
  "no_debug es \<longleftrightarrow> (\<forall>lvl msg err. Log lvl msg err \<in> set es \<longrightarrow> lvl \<noteq> DebugLevel)"

lemma atomic_no_debug: "no_debug (atomic_run lib pvw typeMap obj wa wb)"
  by (auto simp: no_debug_def run_defs split: sum.splits option.splits prod.splits)

lemma effect_records_eq:
  "e = Log lvl msg err \<Longrightarrow> lvl \<noteq> DebugLevel \<Longrightarrow> effect_records uuids (i, e) = log_records (fst (uuids i)) [e]"
  by (cases lvl) (simp_all add: log_records_def GetContextLogger_def GetContextLoggerWithRequestID_def log_write_def
      stdout_enabler_def stderr_enabler_def level_defs Let_def)

lemma effect_records_of:
  assumes "no_debug [e]"
  shows "effect_records uuids (i, e) = log_records (fst (uuids i)) [e]"
proof (cases e)
  case (Log lvl msg err)
  then show ?thesis using assms by (intro effect_records_eq) (auto simp: no_debug_def)
qed (simp_all add: log_records_def)

lemma log_records_Cons: "log_records rid (e # es) = log_records rid [e] @ log_records rid es"
  by (simp add: log_records_def)

lemma log_records_fields: "r \<in> set (log_records rid es) \<Longrightarrow> snd (snd (snd r)) = [(''RequestID'', rid)]"
  by (auto simp: log_records_def split: watch_effect.splits)

lemma filter_log_records:
  "filter (\<lambda>r. snd (snd (snd r)) = [(''RequestID'', rid)]) (log_records rid' es) = (if rid = rid' then log_records rid' es else [])"
  using log_records_fields [of _ rid' es] by (auto simp: filter_empty_conv intro!: filter_True)

lemma trace_no_debug:
  assumes "watch_inv lib pvw typeMap s" and "(j, e) \<in> set (trace s)"
  shows "no_debug [e]"
proof -
  have j: "j < length (goroutines s)" and e: "e \<in> set (effects_of j s)"
    using trace_started [OF assms] watch_invD(2) [OF assms(1)] by simp_all
  obtain wa wb where "prefix (effects_of j s) (atomic_run lib pvw typeMap (spawned s ! j) wa wb)"
    using goroutine_prefix [OF assms(1) j] by blast
  then have "e \<in> set (atomic_run lib pvw typeMap (spawned s ! j) wa wb)" using e set_mono_prefix by blast
  then show ?thesis using atomic_no_debug [of lib pvw typeMap "spawned s ! j" wa wb] by (auto simp: no_debug_def)
qed

text \<open>A mixed log taken apart by one request ID.\<close>

lemma mixed_log:
  assumes "\<forall>(j, e) \<in> set tr. no_debug [e] \<and> (fst (uuids j) = fst (uuids i) \<longrightarrow> j = i)"
  shows "filter (\<lambda>r. snd (snd (snd r)) = [(''RequestID'', fst (uuids i))]) (concat (map (effect_records uuids) tr))
    = log_records (fst (uuids i)) (map snd (filter (\<lambda>e. fst e = i) tr))"
  using assms
proof (induction tr)
  case (Cons x tr)
  obtain j e where x: "x = (j, e)" by fastforce
  then have e: "no_debug [e]" "fst (uuids j) = fst (uuids i) \<Longrightarrow> j = i" using Cons.prems by auto
  have tail: "filter (\<lambda>r. snd (snd (snd r)) = [(''RequestID'', fst (uuids i))]) (concat (map (effect_records uuids) tr))
    = log_records (fst (uuids i)) (map snd (filter (\<lambda>e. fst e = i) tr))" using Cons by simp
  have head: "filter (\<lambda>r. snd (snd (snd r)) = [(''RequestID'', fst (uuids i))]) (effect_records uuids x)
      = (if j = i then log_records (fst (uuids i)) [e] else [])"
    using e(2) by (auto simp: x effect_records_of [OF e(1)] filter_log_records)
  show ?case
  proof (cases "j = i")
    case True
    then have "map snd (filter (\<lambda>e. fst e = i) (x # tr)) = e # map snd (filter (\<lambda>e. fst e = i) tr)" by (simp add: x)
    then show ?thesis using True by (simp only: list.map concat.simps filter_append head tail simp_thms if_True
          log_records_Cons [of _ e "map snd (filter (\<lambda>e. fst e = i) tr)"])
  next
    case False
    then have "filter (\<lambda>e. fst e = i) (x # tr) = filter (\<lambda>e. fst e = i) tr" by (simp add: x)
    then show ?thesis using False by (simp only: list.map concat.simps filter_append head tail simp_thms if_False append_Nil)
  qed
qed (simp add: log_records_def)

section \<open>Properties\<close>

text \<open>C16: one request, one identity: the ID that GetContextLogger makes is on every record its logger
  writes; handed on as the callers do, it reaches the mount helper as the requestID of the
  decoded payload, and the CSI caller at the start of the message of the error GetCSIError
  returns, in both places with the space GetContextLogger appends.\<close>

theorem request_id_traced:
  assumes "status_contract S code_of text_of" and "code \<in> set reason_codes"
    and "list_all json_plain [m, t, f, e, fst uuid]"
  shows "case GetContextLogger uuid isDebug of (lg, rid) \<Rightarrow>
    (\<forall>lvl msg r. r \<in> set (log_write lg lvl msg) \<longrightarrow> snd (snd (snd r)) = [(''RequestID'', fst uuid)])
    \<and> (\<exists>found. json_Unmarshal payload_fields (payload_of m t f e rid) = Inr found
         \<and> map_read [] found ''requestID'' = fst uuid @ '' '')
    \<and> (\<exists>entry err' rest. map_of InitMessages code = Some entry
         \<and> snd (GetCSIError S InitMessages code rid err args) = Some err'
         \<and> text_of err' = ''{RequestID: '' @ fst uuid @ '' , Code: '' @ Code entry @ rest)"
proof -
  obtain lg where lg: "GetContextLogger uuid isDebug = (lg, fst uuid @ '' '')" "logger_fields lg = [(''RequestID'', fst uuid)]"
    by (simp add: GetContextLogger_def GetContextLoggerWithRequestID_def Let_def)
  have "list_all json_plain [m, t, f, e, fst uuid @ '' '']" using assms(3) by simp
  note payload = payload_decoded [OF this]
  show ?thesis
    using lg(2) payload GetCSIError_names_request [OF assms(1,2), of "fst uuid @ '' ''" err args]
    by (auto simp: lg(1) log_write_def split: if_splits)
qed

theorem request_id_traced_witness:
  "\<exists>found. json_Unmarshal payload_fields (payload_of ''a:/b'' ''/mnt'' ''nfs4'' ''ipsec'' (snd (GetContextLogger (''42'', None) False)))
     = Inr found \<and> map_read [] found ''requestID'' = ''42 ''"
proof -
  have "EmptyVolumeID \<in> set reason_codes" by (simp add: reason_codes_def)
  from request_id_traced [OF pair_status_contract this, where m = "''a:/b''" and t = "''/mnt''" and f = "''nfs4''"
      and e = "''ipsec''" and uuid = "(''42'', None)" and isDebug = False and err = None and args = "[]"]
  show ?thesis by (simp add: case_prod_unfold)
qed

text \<open>C17: A watcher that New made for a driver over the fake provider saves every update once, if all watchers
  of the process are made before the first event: when all events have been delivered and all
  goroutines have finished, in any run in which accesses to VolumeTypeMap may overlap with
  everything else, the calls of UpdateVolume are, as a multiset of handle and type, those of the
  delivered updates of claimed volumes that pass the filter before and after, all with the
  registered type.\<close>

theorem fake_watcher_saves_every_update:
  assumes "NewFakeIBMCloudStorageProvider sess path = (provider, None)"
    and "New bc nc env (iface_GetConfig FakeIBMCloudStorageProvider_impl) master kubeconfig prov ty provider typeMap = (Inr pvw, typeMap')"
    and "lib_GetProviderSession lib = (\<lambda>cp w. (Inr (iface_GetProviderSession FakeIBMCloudStorageProvider_impl cp), w))"
    and "filtering_contract (lib_Filtering lib)"
    and "race_reach registered_first lib pvw typeMap' w rs" and "s = sys rs" and "watch_idle s"
  shows "mset (map (\<lambda>v. (VolumeID v, VolumeType v)) (updates (map snd (trace s))))
    = mset (map (\<lambda>h. (h, ty)) (claimed_handles (watched_updates pvw (delivered s))))"
proof -
  note N = New_Inr [OF assms(2)]
  have reach: "watch_reach lib pvw typeMap' w s" using registered.atomic_accesses [OF assms(5)] assms(6) by simp
  have "Option.bind (ProviderConfig provider) VPC \<noteq> None"
    using assms(1) by (auto simp: NewFakeIBMCloudStorageProvider_def)
  then have vpc: "Option.bind (config pvw) VPC \<noteq> None" using N(2) fake_provider.config_vpc by simp
  have ty: "map_read [] typeMap' (provisionerName pvw) = ty" using N(1,4) by simp
  have "mset (updates (map snd (trace s))) =
      mset (concat (map (described (lib_unicode lib) typeMap' pvw) (watched_updates pvw (delivered s))))"
    using assms(3) by (intro finished_saves_all [OF assms(4) reach assms(7)]) (simp add: fake_GetProviderSession_def)
  then have "mset (map (\<lambda>v. (VolumeID v, VolumeType v)) (updates (map snd (trace s)))) =
      mset (map (\<lambda>v. (VolumeID v, VolumeType v))
        (concat (map (described (lib_unicode lib) typeMap' pvw) (watched_updates pvw (delivered s)))))"
    by (simp only: mset_map)
  then show ?thesis by (simp only: described_all [OF watched_updates_filtered vpc ty])
qed

theorem fake_watcher_saves_every_update_witness:
  "\<exists>pvw typeMap rs. race_reach registered_first \<lparr>lib_GetProviderSession = (\<lambda>cp w. (Inr (iface_GetProviderSession FakeIBMCloudStorageProvider_impl cp), w)),
       lib_UpdateVolume = (\<lambda>session v w. (Inr None, w)), lib_unicode = (\<lambda>s. s), lib_Filtering = documented_filtering\<rparr>
       (pvw :: (unit, unit FakeIBMCloudStorageProvider) PVWatcher) typeMap () rs
     \<and> mset (map (\<lambda>v. (VolumeID v, VolumeType v)) (updates (map snd (trace (sys rs))))) = {#(''v1'', ''vpc-file'')#}"
proof -
  let ?lib = "\<lparr>lib_GetProviderSession = (\<lambda>cp w. (Inr (iface_GetProviderSession FakeIBMCloudStorageProvider_impl cp), w)),
       lib_UpdateVolume = (\<lambda>session v w. (Inr None, w)), lib_unicode = (\<lambda>s. s), lib_Filtering = documented_filtering\<rparr>
     :: (unit FakeIBMCloudStorageProvider, unit, unit) watch_lib"
  let ?p = "fst (NewFakeIBMCloudStorageProvider () [])"
  let ?new = "New (\<lambda>m k. Inr ()) (\<lambda>rc. Inr ()) (\<lambda>v. []) (iface_GetConfig FakeIBMCloudStorageProvider_impl) [] [] ''drv'' ''vpc-file'' ?p VolumeTypeMap"
  let ?pvw = "projr (fst ?new)" and ?tm = "snd ?new"
  let ?ev = "OnUpdate (PVObject (Some (sample_pv ''Available''))) (PVObject (Some (sample_pv ''Bound'')))"
  have p: "NewFakeIBMCloudStorageProvider () [] = (?p, None)" by (simp add: NewFakeIBMCloudStorageProvider_def)
  have n: "?new = (Inr ?pvw, ?tm)" by (simp add: New_def)
  obtain rs0 where r0: "race_reach registered_first ?lib ?pvw ?tm () rs0" "at_rest rs0"
      "sys rs0 = (watch_init ?tm ())\<lparr>inbox := [?ev]\<rparr>"
    using registered_arrival [of ?lib ?pvw ?tm "()" ?ev] by (elim exE conjE)
  have start: "run_schedule (watch_step ?lib ?pvw) [] ((watch_init ?tm ())\<lparr>inbox := [?ev]\<rparr>)
      = Some ((watch_init ?tm ())\<lparr>inbox := [?ev]\<rparr>)" by simp
  obtain ts s where run: "run_schedule (watch_step ?lib ?pvw) ts ((watch_init ?tm ())\<lparr>inbox := [?ev]\<rparr>) = Some s"
    and idle: "watch_idle s"
    using watch_threads.all_finish [OF TrueI start] by auto
  obtain rs where reach: "race_reach registered_first ?lib ?pvw ?tm () rs" and rs: "sys rs = s"
    using registered_schedule [OF run r0] by blast
  have "delivered s = [?ev]"
    using schedule_inbox [OF run] idle by (simp add: watch_idle_def watch_init_def)
  moreover have "filter_pv ?pvw (PVObject (Some (sample_pv phase)))" for phase
    by (simp add: New_def filter_pv_def sample_pv_def)
  ultimately have "claimed_handles (watched_updates ?pvw (delivered s)) = [''v1'']"
    by (simp add: watched_updates_def claimed_handles_def sample_pv_def)
  then show ?thesis
    using fake_watcher_saves_every_update [OF p n _ _ reach rs [symmetric] idle] reach rs
    by (intro exI [of _ ?pvw] exI [of _ ?tm] exI [of _ rs]) (simp add: documented_filtering_contract)
qed

text \<open>C18: the log of the watcher can be taken apart by request: however the goroutines interleave, if
  their request IDs are different, the records that carry the ID of goroutine i are the
  beginning of what one run of updateVolume for its object writes, in order and with nothing
  dropped, the recovery from a panic on the standard error output and all else on the
  standard output; when it has finished they are all of it.\<close>

theorem watcher_log_by_request:
  assumes "filtering_contract (lib_Filtering lib)" and "watch_reach lib pvw typeMap w s"
    and "i < length (goroutines s)" and "\<forall>j k. fst (uuids j) = fst (uuids k) \<longrightarrow> j = k"
  shows "\<exists>wa wb. prefix (filter (\<lambda>r. snd (snd (snd r)) = [(''RequestID'', fst (uuids i))]) (watch_output uuids s))
      (log_records (fst (uuids i)) (atomic_run lib pvw typeMap (spawned s ! i) wa wb))
    \<and> (goroutines s ! i = Finished \<longrightarrow>
         filter (\<lambda>r. snd (snd (snd r)) = [(''RequestID'', fst (uuids i))]) (watch_output uuids s)
         = log_records (fst (uuids i)) (atomic_run lib pvw typeMap (spawned s ! i) wa wb))"
proof -
  note inv = reach_watch_inv [OF assms(1,2)]
  have log: "filter (\<lambda>r. snd (snd (snd r)) = [(''RequestID'', fst (uuids i))]) (watch_output uuids s)
      = log_records (fst (uuids i)) (effects_of i s)"
    unfolding watch_output_def effects_of_def
    by (rule mixed_log) (use assms(4) trace_no_debug [OF inv] in blast)
  obtain wa wb where run: "prefix (effects_of i s) (atomic_run lib pvw typeMap (spawned s ! i) wa wb)"
    "goroutines s ! i = Finished \<longrightarrow> effects_of i s = atomic_run lib pvw typeMap (spawned s ! i) wa wb"
    using goroutine_prefix [OF inv assms(3)] by blast
  then have "prefix (log_records (fst (uuids i)) (effects_of i s))
      (log_records (fst (uuids i)) (atomic_run lib pvw typeMap (spawned s ! i) wa wb))"
    by (auto simp: prefix_def log_records_def)
  then show ?thesis using run(2) unfolding log by metis
qed

theorem watcher_log_by_request_witness:
  "\<exists>wa wb. prefix (filter (\<lambda>r. snd (snd (snd r)) = [(''RequestID'', ''x'')])
       (watch_output (\<lambda>i. (replicate (Suc i) (CHR ''x''), None)) sample_saved))
     (log_records ''x'' (atomic_run sample_lib sample_watcher [(''drv'', ''vpc-file'')] (PVObject (Some (sample_pv ''Bound''))) wa wb))"
proof -
  have g: "0 < length (goroutines sample_saved)" and o: "spawned sample_saved ! 0 = PVObject (Some (sample_pv ''Bound''))"
    by (simp_all add: sample_saved_eq)
  let ?u = "\<lambda>i. (replicate (Suc i) (CHR ''x''), None :: go_error option)"
  have "\<forall>j k. fst (?u j) = fst (?u k) \<longrightarrow> j = k" by (metis fst_conv length_replicate nat.inject)
  from watcher_log_by_request [OF sample_contract sample_reach g this] o show ?thesis by auto
qed

end
